(* ===== verification/Prelude.thy ===== *)
theory Prelude
  imports Main "HOL-Library.Word" "HOL-Library.Monad_Syntax"
begin

text \<open>
  Shared vocabulary of the development: the machine types of the C++ sources, the ways a
  C++ call can end (\<open>outcome\<close>), the printing of integers by \<open>std::to_string\<close>, the
  collections of facts the component theories extend, and the generic facts on lists and
  on runs of a step function that several components use.

  Conventions.  A \<open>std::uintN_t\<close> is an \<open>N word\<close>; a \<open>std::intN_t\<close> and an \<open>int\<close> that is
  stored or sent is the \<open>N word\<close> of its two's complement, read with \<open>sint\<close>.  A
  \<open>std::string\<close> or \<open>std::string_view\<close> that goes over the wire is the list of its bytes
  (\<open>bytes\<close>); a text for humans is a HOL \<open>string\<close>.
  A partial read (\<open>'a option\<close> in the decoders) is \<open>None\<close> exactly where the C++ code would
  leave its buffer, which is undefined behaviour.
\<close>

unbundle bit_operations_syntax

type_synonym u8 = "8 word"
type_synonym u16 = "16 word"
type_synonym u32 = "32 word"
type_synonym i16 = "16 word"
type_synonym i32 = "32 word"
type_synonym bytes = "u8 list"

named_theorems codec_len \<open>lengths of encoded values\<close>
named_theorems codec_simps \<open>decoding what was just encoded\<close>
named_theorems step_simps \<open>unfolding the handlers of a session\<close>

section \<open>How a call ends\<close>

text \<open>
  A call returns, throws, is undefined behaviour or does not end.
\<close>

datatype exn =
    Logic_error string
  | Runtime_error string
  | Bad_variant_access
  | System_error int

datatype 'a outcome =
    Returns 'a
  | Throws exn
  | Undefined
  | Diverges

primrec obind :: "'a outcome \<Rightarrow> ('a \<Rightarrow> 'b outcome) \<Rightarrow> 'b outcome" where
  "obind (Returns x) f = f x"
| "obind (Throws e) f = Throws e"
| "obind Undefined f = Undefined"
| "obind Diverges f = Diverges"

lemma obind_Returns_iff [simp]:
  "obind m f = Returns y \<longleftrightarrow> (\<exists>x. m = Returns x \<and> f x = Returns y)"
  by (cases m) auto

lemma obind_assoc: "obind (obind m f) g = obind m (\<lambda>x. obind (f x) g)"
  by (cases m) auto

text \<open>An undefined partial read is the undefined outcome.\<close>

definition of_read :: "'a option \<Rightarrow> 'a outcome" where
  "of_read m = (case m of None \<Rightarrow> Undefined | Some x \<Rightarrow> Returns x)"

section \<open>Decimal text\<close>

definition digit :: "nat \<Rightarrow> char" where
  "digit n = char_of (48 + n)"

fun nat_to_string :: "nat \<Rightarrow> string" where
  "nat_to_string n =
     (if n < 10 then [digit n] else nat_to_string (n div 10) @ [digit (n mod 10)])"

declare nat_to_string.simps [simp del]

text \<open>\<open>std::to_string\<close> on an integer.\<close>

definition to_string :: "int \<Rightarrow> string" where
  "to_string i = (if i < 0 then CHR ''-'' # nat_to_string (nat (- i)) else nat_to_string (nat i))"

definition undigit :: "char \<Rightarrow> nat" where
  "undigit c = of_char c - 48"

definition of_digits :: "string \<Rightarrow> nat" where
  "of_digits s = foldl (\<lambda>n c. 10 * n + undigit c) 0 s"

lemma undigit_digit: "n < 10 \<Longrightarrow> undigit (digit n) = n"
  by (simp add: undigit_def digit_def)

lemma of_digits_snoc: "of_digits (s @ [c]) = 10 * of_digits s + undigit c"
  by (simp add: of_digits_def)

lemma of_digits_nat_to_string: "of_digits (nat_to_string n) = n"
proof (induction n rule: nat_to_string.induct)
  case (1 n)
  show ?case
  proof (cases "n < 10")
    case True
    then show ?thesis
      by (subst nat_to_string.simps) (simp add: of_digits_def undigit_digit)
  next
    case False
    with 1 have "of_digits (nat_to_string (n div 10)) = n div 10" by simp
    with False show ?thesis
      by (subst nat_to_string.simps) (simp add: of_digits_snoc undigit_digit)
  qed
qed

lemma nat_to_string_inj: "nat_to_string m = nat_to_string n \<longleftrightarrow> m = n"
  by (metis of_digits_nat_to_string)

lemma digit_neq_minus: "n < 10 \<Longrightarrow> digit n \<noteq> CHR ''-''"
proof
  assume "n < 10" and "digit n = CHR ''-''"
  then have "(of_char (digit n) :: nat) = of_char CHR ''-''" by simp
  with \<open>n < 10\<close> show False by (simp add: digit_def)
qed

lemma nat_to_string_hd: "\<exists>d s. nat_to_string n = d # s \<and> d \<noteq> CHR ''-''"
proof (induction n rule: nat_to_string.induct)
  case (1 n)
  then show ?case
    by (subst nat_to_string.simps) (auto simp: digit_neq_minus)
qed

lemma to_string_inj: "to_string i = to_string j \<longleftrightarrow> i = j"
  using nat_to_string_hd [of "nat i"] nat_to_string_hd [of "nat j"]
  by (auto simp: to_string_def nat_to_string_inj)

section \<open>Generic facts\<close>

lemma nth_byte_bound: "i < length xs \<Longrightarrow> xs ! i \<in> set xs"
  by simp

lemma sum_list_const: "sum_list (map (\<lambda>_. n) xs) = n * length (xs :: 'a list)"
  for n :: nat
  by (induction xs) auto

lemma length_concat_const:
  "(\<And>x. x \<in> set xs \<Longrightarrow> length (f x) = n) \<Longrightarrow> length (concat (map f xs)) = n * length xs"
  by (induction xs) auto

lemma unat_of_nat_u8: "k < 256 \<Longrightarrow> unat (of_nat k :: u8) = k"
  by (simp add: unsigned_of_nat take_bit_nat_eq_self)

text \<open>Parts of a step that have outputs, one after the other.\<close>

definition and_then :: "('s \<times> 'o list) outcome \<Rightarrow> ('s \<Rightarrow> ('s \<times> 'o list) outcome) \<Rightarrow> ('s \<times> 'o list) outcome" where
  "and_then m f = obind m (\<lambda>(s, out). obind (f s) (\<lambda>(s, out'). Returns (s, out @ out')))"

definition put :: "'o \<Rightarrow> 's \<Rightarrow> ('s \<times> 'o list) outcome" where
  "put x s = Returns (s, [x])"

lemma and_then_simps [simp]:
  "and_then (Returns (s, out)) f = obind (f s) (\<lambda>(s, out'). Returns (s, out @ out'))"
  "and_then (Throws e) f = Throws e"
  "and_then Undefined f = Undefined"
  "and_then Diverges f = Diverges"
  by (simp_all add: and_then_def)

lemma and_then_assoc: "and_then (and_then m f) g = and_then m (\<lambda>s. and_then (f s) g)"
  by (simp add: and_then_def obind_assoc case_prod_unfold)

text \<open>Running a deterministic machine that emits a list of outputs per event.\<close>

fun run_machine :: "('s \<Rightarrow> 'e \<Rightarrow> ('s \<times> 'o list) outcome) \<Rightarrow> 's \<Rightarrow> 'e list \<Rightarrow> ('s \<times> 'o list) outcome" where
  "run_machine f s [] = Returns (s, [])"
| "run_machine f s (e # es) =
     obind (f s e) (\<lambda>(s', out). obind (run_machine f s' es) (\<lambda>(s'', out'). Returns (s'', out @ out')))"

lemma run_machine_invariant:
  assumes "\<And>s e s' out. I s \<Longrightarrow> f s e = Returns (s', out) \<Longrightarrow> I s'"
  shows "I s \<Longrightarrow> run_machine f s es = Returns (s', out) \<Longrightarrow> I s'"
  by (induction es arbitrary: s out) (auto intro: assms)

lemma run_machine_Cons: "run_machine f s (e # es) = and_then (f s e) (\<lambda>s. run_machine f s es)"
  by (simp add: and_then_def)

end
