(* ===== verification/Errors.thy ===== *)
theory Errors
  imports Prelude
begin

text \<open>
  Errors: \<open>include/yaskawa_ethernet/error.hpp\<close> and \<open>src/error.cpp\<close>.
  An \<open>estd::error\<close> is a \<open>std::error_code\<close> with a list of descriptions; it is an error
  exactly when the value of its code is not zero.  The values of \<open>std::errc\<close> and of
  \<open>asio::error\<close> are those of POSIX on Linux.  \<open>Result<T>\<close> is the sum \<open>error + 'a\<close>.
\<close>

section \<open>Codes and categories\<close>

datatype errc_t = malformed_response | command_failed | unknown_request

primrec errc_value :: "errc_t \<Rightarrow> int" where
  "errc_value malformed_response = 1"
| "errc_value command_failed = 2"
| "errc_value unknown_request = 3"

datatype error_category = yaskawa_category | generic_category | system_category

datatype error_code = Error_code (category: error_category) (ec_value: int)

definition make_error_code :: "errc_t \<Rightarrow> error_code" where
  "make_error_code c = Error_code yaskawa_category (errc_value c)"

text \<open>The values of \<open>std::errc\<close> and \<open>asio::error\<close> the sources name.\<close>

definition errc_invalid_argument :: error_code where
  "errc_invalid_argument = Error_code generic_category 22"

definition errc_timed_out :: error_code where
  "errc_timed_out = Error_code generic_category 110"

definition asio_timed_out :: error_code where
  "asio_timed_out = Error_code system_category 110"

definition operation_aborted :: error_code where
  "operation_aborted = Error_code system_category 125"

definition ec_success :: error_code where
  "ec_success = Error_code system_category 0"

definition ec_is_error :: "error_code \<Rightarrow> bool" where
  "ec_is_error c \<longleftrightarrow> ec_value c \<noteq> 0"

text \<open>
  \<open>error == std::errc::operation_canceled\<close> compares with a portable condition, so the
  system code and the generic code of that value both match.
\<close>

definition is_operation_canceled :: "error_code \<Rightarrow> bool" where
  "is_operation_canceled c \<longleftrightarrow> ec_value c = 125 \<and> category c \<noteq> yaskawa_category"

text \<open>\<open>make_error_code(std::errc(error.value()))\<close>: the value, in the generic category.\<close>

definition to_errc :: "error_code \<Rightarrow> error_code" where
  "to_errc c = Error_code generic_category (ec_value c)"

lemma is_error_to_errc [simp]: "ec_is_error (to_errc c) = ec_is_error c"
  by (simp add: ec_is_error_def to_errc_def)

text \<open>\<open>yaskawa_category_::message\<close>.\<close>

definition category_message :: "int \<Rightarrow> string" where
  "category_message err =
     (if err = errc_value malformed_response then ''malformed message''
      else if err = errc_value command_failed then ''command failed''
      else if err = errc_value unknown_request then ''unknown request''
      else ''unkown error: '' @ to_string err)"

section \<open>Errors and results\<close>

datatype error = Error (code: error_code) (descriptions: "string list")

type_synonym 'a result = "error + 'a"

definition no_error :: error where
  "no_error = Error ec_success []"

definition is_error :: "error \<Rightarrow> bool" where
  "is_error e \<longleftrightarrow> ec_is_error (code e)"

definition push_description :: "error \<Rightarrow> string \<Rightarrow> error" where
  "push_description e d = Error (code e) (descriptions e @ [d])"

lemma is_error_no_error [simp]: "\<not> is_error no_error"
  by (simp add: is_error_def no_error_def ec_success_def ec_is_error_def)

lemma is_error_push [simp]: "is_error (push_description e d) = is_error e"
  by (simp add: is_error_def push_description_def)

section \<open>Hexadecimal text\<close>

definition hexNibble :: "nat \<Rightarrow> char" where
  "hexNibble val = (if val < 10 then char_of (48 + val) else char_of (65 + val - 10))"

text \<open>
  \<open>toHex<T>\<close>: a string of \<open>sizeof(T) * 2\<close> zeros, filled by the loop over the bytes with
  the low nibble at the odd and the high nibble at the even position.
\<close>

definition toHex :: "'a::len word \<Rightarrow> string" where
  "toHex val =
     (let n = LENGTH('a) div 8 in
      foldl (\<lambda>result i.
               (result[(n - i) * 2 - 1 := hexNibble (unat (drop_bit (8 * i) val AND 15))])
                      [(n - i) * 2 - 2 := hexNibble (unat (drop_bit (8 * i + 4) val AND 15))])
            (replicate (n * 2) CHR ''0'') [0..<n])"

section \<open>Constructors and checks\<close>

definition malformedResponse :: "string \<Rightarrow> error" where
  "malformedResponse msg = Error (make_error_code malformed_response) [msg]"

definition commandFailed :: "u16 \<Rightarrow> u16 \<Rightarrow> error" where
  "commandFailed status extra_status =
     Error (make_error_code command_failed)
       [''command failed with status 0x'' @ toHex status
        @ '' and additional status 0x'' @ toHex extra_status]"

definition expectValue :: "string \<Rightarrow> int \<Rightarrow> int \<Rightarrow> error" where
  "expectValue name val expected =
     (if val = expected then no_error
      else malformedResponse
        (''unexpected '' @ name @ '', expected exactly '' @ to_string expected
         @ '', got '' @ to_string val))"

definition expectValueMin :: "string \<Rightarrow> int \<Rightarrow> int \<Rightarrow> error" where
  "expectValueMin name val mn =
     (if val \<ge> mn then no_error
      else malformedResponse
        (''unexpected '' @ name @ '', expected at least '' @ to_string mn
         @ '', got '' @ to_string val))"

definition expectValueMax :: "string \<Rightarrow> int \<Rightarrow> int \<Rightarrow> error" where
  "expectValueMax name val mx =
     (if val \<le> mx then no_error
      else malformedResponse
        (''unexpected '' @ name @ '', expected at most '' @ to_string mx
         @ '', got '' @ to_string val))"

definition expectValueMinMax :: "string \<Rightarrow> int \<Rightarrow> int \<Rightarrow> int \<Rightarrow> error" where
  "expectValueMinMax name val mn mx =
     (if val \<ge> mn \<and> val \<le> mx then no_error
      else malformedResponse
        (''unexpected '' @ name @ '', expected a value in the range ['' @ to_string mn
         @ '', '' @ to_string mx @ ''] (inclusive), got '' @ to_string val))"

definition expectSize :: "string \<Rightarrow> nat \<Rightarrow> nat \<Rightarrow> error" where
  "expectSize description actual_size expected_size =
     (if actual_size = expected_size then no_error
      else Error (make_error_code malformed_response)
        [''unexpected '' @ description @ '' size, expected exactly ''
         @ to_string (int expected_size) @ '' bytes, got '' @ to_string (int actual_size)])"

definition expectSizeMin :: "string \<Rightarrow> nat \<Rightarrow> nat \<Rightarrow> error" where
  "expectSizeMin description actual_size minimum_size =
     (if actual_size \<ge> minimum_size then no_error
      else Error (make_error_code malformed_response)
        [''unexpected '' @ description @ '' size, expected at least ''
         @ to_string (int minimum_size) @ '' bytes, got '' @ to_string (int actual_size)])"

definition expectSizeMax :: "string \<Rightarrow> nat \<Rightarrow> nat \<Rightarrow> error" where
  "expectSizeMax description actual_size maximum_size =
     (if actual_size \<le> maximum_size then no_error
      else Error (make_error_code malformed_response)
        [''unexpected '' @ description @ '' size, expected at most ''
         @ to_string (int maximum_size) @ '' bytes, got '' @ to_string (int actual_size)])"

definition expectSizeMinMax :: "string \<Rightarrow> nat \<Rightarrow> nat \<Rightarrow> nat \<Rightarrow> error" where
  "expectSizeMinMax description actual_size mn mx =
     (if actual_size \<ge> mn \<and> actual_size \<le> mx then no_error
      else Error (make_error_code malformed_response)
        [''unexpected '' @ description @ '' size, expected a size in the range of [''
         @ to_string (int mn) @ '', '' @ to_string (int mx)
         @ ''] bytes (inclusive), got '' @ to_string (int actual_size)])"

section \<open>Facts\<close>

lemma is_error_yaskawa [simp]: "is_error (Error (make_error_code c) ds)"
  by (cases c) (simp_all add: is_error_def make_error_code_def ec_is_error_def)

lemma is_error_malformedResponse [simp]: "is_error (malformedResponse msg)"
  by (simp add: malformedResponse_def)

lemma is_error_commandFailed [simp]: "is_error (commandFailed s x)"
  by (simp add: commandFailed_def)

lemma code_malformedResponse [simp]:
  "code (malformedResponse msg) = make_error_code malformed_response"
  by (simp add: malformedResponse_def)

lemma code_commandFailed [simp]: "code (commandFailed s x) = make_error_code command_failed"
  by (simp add: commandFailed_def)

lemma is_error_expect [simp]:
  "is_error (expectValue n v e) \<longleftrightarrow> v \<noteq> e"
  "is_error (expectValueMin n v a) \<longleftrightarrow> v < a"
  "is_error (expectValueMax n v b) \<longleftrightarrow> v > b"
  "is_error (expectValueMinMax n v a b) \<longleftrightarrow> v < a \<or> v > b"
  "is_error (expectSize d s es) \<longleftrightarrow> s \<noteq> es"
  "is_error (expectSizeMin d s ea) \<longleftrightarrow> s < ea"
  "is_error (expectSizeMax d s eb) \<longleftrightarrow> s > eb"
  "is_error (expectSizeMinMax d s ea eb) \<longleftrightarrow> s < ea \<or> s > eb"
  by (auto simp: expectValue_def expectValueMin_def expectValueMax_def expectValueMinMax_def
      expectSize_def expectSizeMin_def expectSizeMax_def expectSizeMinMax_def)

lemmas expect_defs =
  expectValue_def expectValueMin_def expectValueMax_def expectValueMinMax_def
  expectSize_def expectSizeMin_def expectSizeMax_def expectSizeMinMax_def

lemma code_expect:
  "v \<noteq> e \<Longrightarrow> code (expectValue n v e) = make_error_code malformed_response"
  "v > b \<Longrightarrow> code (expectValueMax n v b) = make_error_code malformed_response"
  "s \<noteq> es \<Longrightarrow> code (expectSize d s es) = make_error_code malformed_response"
  "s < ea \<Longrightarrow> code (expectSizeMin d s ea) = make_error_code malformed_response"
  "s > eb \<Longrightarrow> code (expectSizeMax d s eb) = make_error_code malformed_response"
  by (simp_all add: expect_defs)

text \<open>Reading hexadecimal text back, most significant digit first.\<close>

definition unhexNibble :: "char \<Rightarrow> nat" where
  "unhexNibble c = (let n = of_char c in if n < 65 then n - 48 else n - 55)"

definition of_hex :: "string \<Rightarrow> nat" where
  "of_hex s = foldl (\<lambda>n c. 16 * n + unhexNibble c) 0 s"

lemma unhex_hexNibble: "n < 16 \<Longrightarrow> unhexNibble (hexNibble n) = n"
  by (simp add: hexNibble_def unhexNibble_def Let_def)

lemma unat_nibble: "unat (drop_bit k w AND (15 :: u16)) = unat w div 2 ^ k mod 16"
proof -
  have m: "v AND 15 = take_bit 4 (v :: u16)" for v
    by (simp add: take_bit_eq_mask mask_eq_exp_minus_1)
  have t: "unat (take_bit 4 v) = unat v mod 16" for v :: u16
    by (rule trans [OF unsigned_take_bit_eq]) (simp add: take_bit_eq_mod)
  have d: "unat (drop_bit k w) = unat w div 2 ^ k"
    by (rule trans [OF unat_drop_bit_eq drop_bit_eq_div])
  show ?thesis by (simp only: m t d)
qed

lemma toHex_u16:
  "toHex (w :: u16) = map (\<lambda>k. hexNibble (unat (drop_bit k w AND 15))) [12, 8, 4, 0]"
proof -
  have "[0..<2] = [0, 1::nat]" by (simp add: upt_rec)
  moreover have "replicate 4 c = [c, c, c, c]" for c :: char by (simp add: numeral_eq_Suc)
  ultimately show ?thesis by (simp add: toHex_def Let_def)
qed

text \<open>The printed status can be read back: \<open>toHex\<close> loses nothing.\<close>

lemma of_hex_toHex: "of_hex (toHex (w :: u16)) = unat w"
proof -
  let ?x = "unat w"
  have s: "?x div (k * 16) * 16 + ?x div k mod 16 = ?x div k" for k
    by (simp add: div_mult2_eq)
  have "of_hex (toHex w) =
      ((?x div 2 ^ 12 mod 16 * 16 + ?x div 2 ^ 8 mod 16) * 16 + ?x div 2 ^ 4 mod 16) * 16
        + ?x div 2 ^ 0 mod 16"
    by (simp only: toHex_u16 of_hex_def unhex_hexNibble unat_nibble list.map foldl.simps
        mod_less_divisor zero_less_numeral mult.commute [of 16] mult_0 add_0)
  also have "?x div 2 ^ 12 mod 16 = ?x div 2 ^ 12"
  proof -
    have "?x < 2 ^ LENGTH(16)" by (rule unsigned_less)
    then show ?thesis by simp
  qed
  also have "?x div 2 ^ 12 * 16 + ?x div 2 ^ 8 mod 16 = ?x div 2 ^ 8"
    using s [of "2 ^ 8"] by simp
  also have "?x div 2 ^ 8 * 16 + ?x div 2 ^ 4 mod 16 = ?x div 2 ^ 4"
    using s [of "2 ^ 4"] by simp
  also have "?x div 2 ^ 4 * 16 + ?x div 2 ^ 0 mod 16 = ?x div 2 ^ 0"
    using s [of 1] by simp
  finally show ?thesis by simp
qed

section \<open>Properties\<close>

text \<open>
  The error for a failed command says which status the controller sent: its text has the
  status and the additional status with four hexadecimal digits each, from which they can be
  read back.
\<close>

theorem commandFailed_shows_status:
  "\<exists>s x. descriptions (commandFailed stat extra)
      = [''command failed with status 0x'' @ s @ '' and additional status 0x'' @ x]
    \<and> length s = 4 \<and> of_hex s = unat stat \<and> length x = 4 \<and> of_hex x = unat extra
    \<and> code (commandFailed stat extra) = make_error_code command_failed"
proof -
  have "length (toHex w) = 4" for w :: u16 by (simp add: toHex_u16)
  then show ?thesis
    by (intro exI [of _ "toHex stat"] exI [of _ "toHex extra"])
      (simp add: commandFailed_def of_hex_toHex)
qed

end
