(* ===== verification/Doubles.thy ===== *)
theory Doubles
  imports Complex_Main "HOL-Library.Log_Nat" Prelude
begin

text \<open>
  The C++ \<open>double\<close>: an IEEE 754 binary64 value, as far as the sources compute with it
  (multiplication, division, conversion from and to \<open>std::int32_t\<close>, comparison).
  A finite value is the rational number it stands for; positive and negative zero are
  not told apart, since no operation of the sources can see the difference.  Every
  operation computes the exact result and rounds it to the nearest representable value,
  ties to even (\<open>fl\<close>), with gradual underflow and with overflow to an infinity.
\<close>

datatype double = Finite rat | Infinity bool | NaN

section \<open>Rounding\<close>

text \<open>The binade of a positive number: \<open>2 powi ilog2 x \<le> x < 2 powi (ilog2 x + 1)\<close>.\<close>

definition ilog2 :: "rat \<Rightarrow> int" where
  "ilog2 x =
     (let (p, q) = quotient_of x;
          e = bitlen p - bitlen q
      in if 2 powi e \<le> x then e else e - 1)"

definition round_even :: "rat \<Rightarrow> int" where
  "round_even x =
     (let f = \<lfloor>x\<rfloor>; d = x - of_int f
      in if d < 1 / 2 then f else if d > 1 / 2 then f + 1 else if even f then f else f + 1)"

text \<open>Round to 53 significant bits; below the least normal exponent the spacing is fixed.\<close>

definition ulp :: "rat \<Rightarrow> rat" where
  "ulp x = 2 powi (max (ilog2 \<bar>x\<bar>) (-1022) - 52)"

definition round53 :: "rat \<Rightarrow> rat" where
  "round53 x = (if x = 0 then 0 else of_int (round_even (x / ulp x)) * ulp x)"

definition fl :: "rat \<Rightarrow> double" where
  "fl x =
     (let r = round53 x
      in if r = 0 \<or> ilog2 \<bar>r\<bar> < 1024 then Finite r else Infinity (x < 0))"

section \<open>Operations\<close>

definition double_of_int :: "int \<Rightarrow> double" where
  "double_of_int n = fl (of_int n)"

fun dneg_sign :: "double \<Rightarrow> bool" where
  "dneg_sign (Finite r) = (r < 0)"
| "dneg_sign (Infinity s) = s"
| "dneg_sign NaN = False"

fun dmul :: "double \<Rightarrow> double \<Rightarrow> double" where
  "dmul (Finite a) (Finite b) = fl (a * b)"
| "dmul NaN b = NaN"
| "dmul a NaN = NaN"
| "dmul (Infinity s) (Finite b) = (if b = 0 then NaN else Infinity (s \<noteq> (b < 0)))"
| "dmul (Finite a) (Infinity s) = (if a = 0 then NaN else Infinity (s \<noteq> (a < 0)))"
| "dmul (Infinity s) (Infinity t) = Infinity (s \<noteq> t)"

text \<open>Division, by a finite value other than zero: the divisors of the sources are constants.\<close>

fun ddiv_const :: "double \<Rightarrow> rat \<Rightarrow> double" where
  "ddiv_const (Finite a) b = fl (a / b)"
| "ddiv_const (Infinity s) b = Infinity (s \<noteq> (b < 0))"
| "ddiv_const NaN b = NaN"

fun double_eq :: "double \<Rightarrow> double \<Rightarrow> bool" where
  "double_eq (Finite a) (Finite b) = (a = b)"
| "double_eq (Infinity s) (Infinity t) = (s = t)"
| "double_eq _ _ = False"

definition truncate :: "rat \<Rightarrow> int" where
  "truncate r = (if r < 0 then \<lceil>r\<rceil> else \<lfloor>r\<rfloor>)"

text \<open>
  Conversion of a \<open>double\<close> to \<open>std::int32_t\<close> drops the fraction; where the result does not
  fit, or the value is not finite, the behaviour is undefined (\<open>None\<close>).
\<close>

fun double_to_int32 :: "double \<Rightarrow> i32 option" where
  "double_to_int32 (Finite r) =
     (if - (2 ^ 31) \<le> truncate r \<and> truncate r < 2 ^ 31 then Some (word_of_int (truncate r))
      else None)"
| "double_to_int32 (Infinity s) = None"
| "double_to_int32 NaN = None"

section \<open>Error bounds\<close>

lemma powi_le: "m \<le> n \<Longrightarrow> (2::rat) powi m \<le> 2 powi n"
  by (simp add: power_int_increasing)

lemma ilog2_bounds:
  assumes "0 < x"
  shows "2 powi (ilog2 x) \<le> x" and "x < 2 powi (ilog2 x + 1)"
proof -
  obtain p q where pq: "quotient_of x = (p, q)" by (cases "quotient_of x")
  have q: "0 < q" using pq by (rule quotient_of_denom_pos)
  have x: "x = of_int p / of_int q" using pq by (rule quotient_of_div)
  have p: "0 < p" using assms q by (simp add: x zero_less_divide_iff)
  define P where "P = floorlog 2 (nat p)"
  define Q where "Q = floorlog 2 (nat q)"
  have P0: "0 < P" and Q0: "0 < Q" using p q by (auto simp: P_def Q_def floorlog_def)
  have bp: "2 ^ (P - 1) \<le> nat p" "nat p < 2 ^ P"
    using floorlog_bounds [of "nat p" 2] p by (auto simp: P_def)
  have bq: "2 ^ (Q - 1) \<le> nat q" "nat q < 2 ^ Q"
    using floorlog_bounds [of "nat q" 2] q by (auto simp: Q_def)
  have rp: "(2::rat) ^ (P - 1) \<le> of_int p" "of_int p < (2::rat) ^ P"
    using bp p by (metis int_nat_eq less_imp_le of_int_of_nat_eq of_nat_le_iff of_nat_numeral of_nat_power of_nat_less_iff)+
  have rq: "(2::rat) ^ (Q - 1) \<le> of_int q" "of_int q < (2::rat) ^ Q"
    using bq q by (metis int_nat_eq less_imp_le of_int_of_nat_eq of_nat_le_iff of_nat_numeral of_nat_power of_nat_less_iff)+
  have Pd: "(2::rat) ^ P = 2 * 2 ^ (P - 1)" using P0 by (cases P) auto
  have Qd: "(2::rat) ^ Q = 2 * 2 ^ (Q - 1)" using Q0 by (cases Q) auto
  let ?e = "int P - int Q"
  have e: "(2::rat) powi ?e = 2 ^ P / 2 ^ Q"
    by (simp add: power_int_diff power_int_of_nat)
  have q': "(0::rat) < of_int q" using q by simp
  have lo: "2 powi (?e - 1) \<le> x"
  proof -
    have "(2::rat) powi (?e - 1) = 2 ^ (P - 1) / 2 ^ Q"
      by (simp add: power_int_diff power_int_of_nat Pd)
    also have "\<dots> \<le> of_int p / of_int q"
      using rp(1) rq(2) q' p by (intro frac_le) auto
    finally show ?thesis by (simp add: x)
  qed
  have hi: "x < 2 powi (?e + 1)"
  proof -
    have "x < 2 ^ P / of_int q" using rp(2) q' by (simp add: x divide_strict_right_mono)
    also have "\<dots> \<le> 2 ^ P / 2 ^ (Q - 1)" using rq(1) q' by (intro divide_left_mono mult_pos_pos) auto
    also have "\<dots> = 2 powi (?e + 1)"
      by (simp add: power_int_add e Qd)
    finally show ?thesis .
  qed
  have il: "ilog2 x = (if 2 powi ?e \<le> x then ?e else ?e - 1)"
    by (simp add: ilog2_def pq P_def Q_def bitlen_def)
  show "2 powi (ilog2 x) \<le> x" using lo by (simp add: il)
  show "x < 2 powi (ilog2 x + 1)" using hi by (auto simp: il)
qed

lemma round_even_error: "\<bar>of_int (round_even x) - x\<bar> \<le> 1 / 2"
proof -
  have "of_int \<lfloor>x\<rfloor> \<le> x" "x < of_int \<lfloor>x\<rfloor> + 1" by linarith+
  then show ?thesis by (auto simp: round_even_def Let_def abs_le_iff)
qed

lemma round_even_of_int [simp]: "round_even (of_int n) = n"
  by (simp add: round_even_def)

lemma ulp_pos: "0 < ulp x"
  by (simp add: ulp_def)

lemma round53_ulp_error: "\<bar>round53 x - x\<bar> \<le> ulp x / 2"
proof (cases "x = 0")
  case True
  then show ?thesis using ulp_pos [of 0] by (simp add: round53_def)
next
  case False
  have u: "0 < ulp x" by (rule ulp_pos)
  have "round53 x - x = (of_int (round_even (x / ulp x)) - x / ulp x) * ulp x"
    using False u by (simp add: round53_def field_simps)
  then have "\<bar>round53 x - x\<bar> = \<bar>of_int (round_even (x / ulp x)) - x / ulp x\<bar> * ulp x"
    using u by (simp add: abs_mult)
  also have "\<dots> \<le> 1 / 2 * ulp x"
    using round_even_error u by (intro mult_right_mono) auto
  finally show ?thesis by simp
qed

text \<open>In the normal range the error is at most half a unit in the 53rd bit, relative to the value.\<close>

lemma round53_relative_error:
  assumes "2 powi (-1022) \<le> \<bar>x\<bar>"
  shows "\<bar>round53 x - x\<bar> \<le> \<bar>x\<bar> / 2 ^ 53"
proof -
  have x0: "0 < \<bar>x\<bar>" using assms by (rule less_le_trans [rotated]) simp
  note b = ilog2_bounds [OF x0]
  have "(2::rat) powi (-1022) < 2 powi (ilog2 \<bar>x\<bar> + 1)"
    using assms b(2) by simp
  then have "-1022 < ilog2 \<bar>x\<bar> + 1"
    by (metis less_le_not_le linorder_le_less_linear powi_le)
  then have "ulp x = 2 powi (ilog2 \<bar>x\<bar>) / 2 ^ 52"
    by (simp add: ulp_def max_def power_int_diff)
  then have "ulp x \<le> \<bar>x\<bar> / 2 ^ 52" using b(1) by (simp add: divide_right_mono)
  then show ?thesis using round53_ulp_error [of x] by (simp add: field_simps)
qed

lemma ulp_le_1: "\<bar>x\<bar> < 2 ^ 53 \<Longrightarrow> x \<noteq> 0 \<Longrightarrow> \<exists>k. ulp x = 1 / 2 ^ k"
proof -
  assume a: "\<bar>x\<bar> < 2 ^ 53" "x \<noteq> 0"
  then have "(2::rat) powi (ilog2 \<bar>x\<bar>) < 2 powi 53"
    using ilog2_bounds(1) [of "\<bar>x\<bar>"] by simp
  then have "ilog2 \<bar>x\<bar> < 53"
    by (metis less_le_not_le linorder_le_less_linear powi_le)
  then have "max (ilog2 \<bar>x\<bar>) (-1022) - 52 = - int (nat (52 - max (ilog2 \<bar>x\<bar>) (-1022)))"
    by simp
  then have "ulp x = 1 / 2 ^ nat (52 - max (ilog2 \<bar>x\<bar>) (-1022))"
    unfolding ulp_def by (simp only: power_int_minus power_int_of_nat) (simp add: field_simps)
  then show ?thesis by blast
qed

lemma round53_of_int:
  assumes "\<bar>n\<bar> < 2 ^ 53"
  shows "round53 (of_int n) = of_int n"
proof (cases "n = 0")
  case True
  then show ?thesis by (simp add: round53_def)
next
  case False
  have "\<bar>of_int n :: rat\<bar> < 2 ^ 53"
    using assms by (metis of_int_abs of_int_less_iff of_int_numeral of_int_power)
  then obtain k where k: "ulp (of_int n) = 1 / 2 ^ k"
    using ulp_le_1 [of "of_int n"] False by auto
  have "of_int n / ulp (of_int n) = (of_int (n * 2 ^ k) :: rat)" by (simp add: k)
  then have "round_even (of_int n / ulp (of_int n)) = n * 2 ^ k"
    by (simp only: round_even_of_int)
  then show ?thesis using False by (simp add: round53_def k)
qed

lemma ilog2_less: "0 < x \<Longrightarrow> x < 2 powi e \<Longrightarrow> ilog2 x < e"
  by (metis ilog2_bounds(1) le_less_trans less_le_not_le linorder_le_less_linear powi_le)

lemma ilog2_eqI: "2 powi e \<le> x \<Longrightarrow> x < 2 powi (e + 1) \<Longrightarrow> ilog2 x = e"
proof -
  assume a: "2 powi e \<le> x" "x < 2 powi (e + 1)"
  have x: "0 < x" by (rule less_le_trans [OF _ a(1)]) simp
  have "2 powi e < (2::rat) powi (ilog2 x + 1)" using a(1) ilog2_bounds(2) [OF x] by simp
  then have "e < ilog2 x + 1" by (metis less_le_not_le linorder_le_less_linear powi_le)
  then show ?thesis using ilog2_less [OF x a(2)] by simp
qed

lemma fl_Finite: "\<bar>round53 x\<bar> < 2 ^ 53 \<Longrightarrow> fl x = Finite (round53 x)"
proof -
  assume a: "\<bar>round53 x\<bar> < 2 ^ 53"
  show ?thesis
  proof (cases "round53 x = 0")
    case False
    then have "ilog2 \<bar>round53 x\<bar> < 53" using a by (intro ilog2_less) simp_all
    then show ?thesis by (simp add: fl_def)
  qed (simp add: fl_def)
qed

lemma fl_of_int: "\<bar>n\<bar> < 2 ^ 53 \<Longrightarrow> fl (of_int n) = Finite (of_int n)"
proof -
  assume a: "\<bar>n\<bar> < 2 ^ 53"
  then have "\<bar>of_int n :: rat\<bar> < 2 ^ 53"
    by (metis of_int_abs of_int_less_iff of_int_numeral of_int_power)
  then show ?thesis using fl_Finite [of "of_int n"] by (simp add: round53_of_int [OF a])
qed

section \<open>Scaling an integer down and up again\<close>

text \<open>
  The wire carries a coordinate as an integer \<open>n\<close>; the decoder divides by \<open>c\<close> and the
  encoder multiplies by \<open>c\<close> and truncates.  \<open>rescale c n\<close> is what comes out.
\<close>

definition rescale :: "int \<Rightarrow> int \<Rightarrow> i32 option" where
  "rescale c n = double_to_int32 (dmul (ddiv_const (double_of_int n) (of_int c)) (Finite (of_int c)))"

lemma truncate_near:
  assumes "\<bar>b - of_int n\<bar> < 1" and "n \<noteq> 0"
  shows "truncate b = n \<or> truncate b = n - sgn n"
proof (cases "0 < n")
  case True
  with assms have "0 < b" "of_int n - 1 < b" "b < of_int n + 1" by (simp_all add: abs_less_iff)
  then have "\<lfloor>b\<rfloor> = n \<or> \<lfloor>b\<rfloor> = n - 1" by linarith
  with \<open>0 < b\<close> True show ?thesis by (simp add: truncate_def)
next
  case False
  with assms have "b < 0" "of_int n - 1 < b" "b < of_int n + 1" by (simp_all add: abs_less_iff)
  then have "\<lceil>b\<rceil> = n \<or> \<lceil>b\<rceil> = n + 1" by linarith
  with \<open>b < 0\<close> False assms(2) show ?thesis by (simp add: truncate_def)
qed

lemma tiny_le: "1 / 2 ^ 20 \<le> (r::rat) \<Longrightarrow> 2 powi (-1022) \<le> r"
proof -
  have "(2::rat) powi (-1022) \<le> 2 powi (-20)" by (rule powi_le) simp
  also have "\<dots> = 1 / 2 ^ 20" by (simp add: power_int_minus field_simps)
  finally show "1 / 2 ^ 20 \<le> r \<Longrightarrow> 2 powi (-1022) \<le> r" by simp
qed

text \<open>Both roundings together stay within one unit of the integer.\<close>

lemma rescale_error:
  assumes n: "n \<noteq> 0" "\<bar>n\<bar> \<le> 2 ^ 31" and c: "0 < c" "c \<le> 2 ^ 20"
  defines "x \<equiv> (of_int n :: rat) / of_int c"
  defines "b \<equiv> round53 (round53 x * of_int c)"
  shows "\<bar>round53 x\<bar> < 2 ^ 53" and "\<bar>b\<bar> < 2 ^ 53" and "\<bar>b - of_int n\<bar> < 1"
proof -
  define N where "N = (of_int \<bar>n\<bar> :: rat)"
  define C where "C = (of_int c :: rat)"
  have N: "1 \<le> N" "N \<le> 2 ^ 31"
    using n by (auto simp: N_def simp flip: of_int_abs)
  have C: "1 \<le> C" "C \<le> 2 ^ 20"
    using c by (auto simp: C_def)
  have x: "\<bar>x\<bar> = N / C" using c by (simp add: x_def N_def C_def)
  have "1 / 2 ^ 20 \<le> N / C" using N C by (intro frac_le) auto
  then have e1: "\<bar>round53 x - x\<bar> \<le> (N / C) / 2 ^ 53"
    using round53_relative_error [of x] tiny_le x by simp
  have xN: "N / C \<le> N" using N C by (simp add: divide_le_eq)
  show "\<bar>round53 x\<bar> < 2 ^ 53" using e1 x xN N by simp
  define a where "a = round53 x * C"
  have "a - of_int n = (round53 x - x) * C" using c by (simp add: a_def C_def x_def algebra_simps)
  then have "\<bar>a - of_int n\<bar> = \<bar>round53 x - x\<bar> * C" using C by (simp add: abs_mult)
  also have "\<dots> \<le> (N / C) / 2 ^ 53 * C" using e1 C by (intro mult_right_mono) auto
  also have "\<dots> = N / 2 ^ 53" using C by simp
  finally have e2: "\<bar>a - of_int n\<bar> \<le> N / 2 ^ 53" .
  have n': "\<bar>of_int n\<bar> = N" by (simp add: N_def)
  have a: "\<bar>a\<bar> \<le> N + N / 2 ^ 53" "N - N / 2 ^ 53 \<le> \<bar>a\<bar>" using e2 n' by linarith+
  then have "1 / 2 ^ 20 \<le> \<bar>a\<bar>" using N by simp
  then have e3: "\<bar>round53 a - a\<bar> \<le> \<bar>a\<bar> / 2 ^ 53"
    using round53_relative_error [of a] tiny_le by simp
  have b: "b = round53 a" by (simp add: b_def a_def C_def)
  have "\<bar>a\<bar> \<le> 2 ^ 32" using a(1) N by simp
  then have "\<bar>round53 a - a\<bar> < 1 / 4" "\<bar>a - of_int n\<bar> < 1 / 4" using e2 e3 N by simp_all
  then show "\<bar>b - of_int n\<bar> < 1" unfolding b by linarith
  then show "\<bar>b\<bar> < 2 ^ 53" using n' N by (simp add: abs_if split: if_splits)
qed

lemma rescale_value:
  assumes n: "n \<noteq> 0" "\<bar>n\<bar> \<le> 2 ^ 31" and c: "0 < c" "c \<le> 2 ^ 20"
  shows "rescale c n = double_to_int32 (Finite (round53 (round53 (of_int n / of_int c) * of_int c)))"
proof -
  note e = rescale_error [OF n c]
  have "\<bar>n\<bar> < 2 ^ 53" using n by simp
  then have "double_of_int n = Finite (of_int n)" by (simp add: double_of_int_def fl_of_int)
  moreover have "fl (of_int n / of_int c) = Finite (round53 (of_int n / of_int c))"
    by (rule fl_Finite [OF e(1)])
  moreover have "fl (round53 (of_int n / of_int c) * of_int c) =
      Finite (round53 (round53 (of_int n / of_int c) * of_int c))"
    by (rule fl_Finite [OF e(2)])
  ultimately show ?thesis by (simp only: rescale_def ddiv_const.simps dmul.simps)
qed

theorem rescale_within_one:
  assumes "- (2 ^ 31) \<le> n" "n < 2 ^ 31" and c: "0 < c" "c \<le> 2 ^ 20"
  shows "\<exists>m. rescale c n = Some (word_of_int m) \<and> (m = n \<or> m = n - sgn n)"
proof (cases "n = 0")
  case True
  then show ?thesis
    by (simp add: rescale_def double_of_int_def fl_def round53_def truncate_def)
next
  case False
  have n: "\<bar>n\<bar> \<le> 2 ^ 31" using assms by linarith
  define m where "m = truncate (round53 (round53 (of_int n / of_int c) * of_int c))"
  have m: "m = n \<or> m = n - sgn n"
    unfolding m_def by (rule truncate_near [OF rescale_error(3) [OF False n c] False])
  then have "- (2 ^ 31) \<le> m \<and> m < 2 ^ 31"
    using assms(1,2) False by (auto simp: sgn_if)
  then have "rescale c n = Some (word_of_int m)"
    by (simp add: rescale_value [OF False n c] m_def)
  with m show ?thesis by blast
qed

text \<open>Where \<open>c\<close> divides \<open>n\<close> both steps are exact.\<close>

lemma rescale_exact:
  assumes "- (2 ^ 31) \<le> n" "n < 2 ^ 31" and c: "0 < c" "c \<le> 2 ^ 20" and "c dvd n"
  shows "rescale c n = Some (word_of_int n)"
proof (cases "n = 0")
  case True
  then show ?thesis
    by (simp add: rescale_def double_of_int_def fl_def round53_def truncate_def)
next
  case False
  have n: "\<bar>n\<bar> \<le> 2 ^ 31" using assms by linarith
  from \<open>c dvd n\<close> obtain k where k: "n = c * k" by blast
  have "\<bar>k\<bar> \<le> \<bar>n\<bar>" using c mult_right_mono [of 1 c "\<bar>k\<bar>"] by (simp add: k abs_mult)
  then have "\<bar>k\<bar> < 2 ^ 53" using n by simp
  then have "round53 (of_int n / of_int c) = of_int k"
    using c by (simp add: k round53_of_int)
  moreover have "round53 (of_int k * of_int c) = of_int n"
  proof -
    have "round53 (of_int n) = of_int n" using n by (intro round53_of_int) simp
    then show ?thesis by (simp add: k mult.commute)
  qed
  ultimately show ?thesis
    using assms(1,2) by (simp add: rescale_value [OF False n c] truncate_def)
qed

end
