(* ===== verification/Types.thy ===== *)
theory Types
  imports Errors Doubles
begin

text \<open>
  The data types of \<open>include/yaskawa_ethernet/types.hpp\<close> and their printing and parsing in
  \<open>src/types.cpp\<close>: the robot status, the enumerations, coordinate systems with their user
  frames, pose configurations as the six bits of a \<open>std::bitset<6>\<close>, and positions.

  \<open>enum class CoordinateSystem\<close> has the underlying type \<open>int\<close>, and the decoder builds
  values of it by casting a number; so it is modelled by its number, with a name for each
  enumerator, and a value without a name is possible here as it is in the program.
  The joints of a \<open>PulsePosition\<close> are an array of eight that some constructors leave
  partly uninitialised: \<open>None\<close> is such an indeterminate element, and reading one, or
  reading past the array, is undefined behaviour.
\<close>

section \<open>Status and enumerations\<close>

record Status =
  step :: bool
  one_cycle :: bool
  continuous :: bool
  running :: bool
  speed_limited :: bool
  teach :: bool
  play :: bool
  remote :: bool
  teach_pendant_hold :: bool
  external_hold :: bool
  command_hold :: bool
  alarm :: bool
  status_error :: bool
  servo_on :: bool

datatype VariableType =
    byte_type | integer_type | double_type | real_type
  | robot_position_type | base_position_type | station_position_type | string_type

primrec VariableType_value :: "VariableType \<Rightarrow> int" where
  "VariableType_value byte_type = 0"
| "VariableType_value integer_type = 1"
| "VariableType_value double_type = 2"
| "VariableType_value real_type = 3"
| "VariableType_value robot_position_type = 4"
| "VariableType_value base_position_type = 5"
| "VariableType_value station_position_type = 6"
| "VariableType_value string_type = 7"

datatype PositionType = pulse_type | cartesian_type

datatype CoordinateSystemType = robot_pulse | base_pulse | station_pulse | robot_cartesian

datatype SpeedType = joint | translation | rotation

primrec SpeedType_value :: "SpeedType \<Rightarrow> i32" where
  "SpeedType_value joint = 0"
| "SpeedType_value translation = 1"
| "SpeedType_value rotation = 2"

record Speed =
  speed_type :: SpeedType
  speed_value :: u32

datatype MoveFrame = move_base | move_robot | move_user | move_tool

primrec MoveFrame_value :: "MoveFrame \<Rightarrow> int" where
  "MoveFrame_value move_base = 16"
| "MoveFrame_value move_robot = 17"
| "MoveFrame_value move_user = 18"
| "MoveFrame_value move_tool = 19"

section \<open>Coordinate systems\<close>

datatype CoordinateSystem = CoordinateSystem (cs_value: int)

abbreviation "CS_base \<equiv> CoordinateSystem 0"
abbreviation "CS_robot \<equiv> CoordinateSystem 1"
abbreviation "CS_user1 \<equiv> CoordinateSystem 2"
abbreviation "CS_user2 \<equiv> CoordinateSystem 3"
abbreviation "CS_user3 \<equiv> CoordinateSystem 4"
abbreviation "CS_user4 \<equiv> CoordinateSystem 5"
abbreviation "CS_user5 \<equiv> CoordinateSystem 6"
abbreviation "CS_user6 \<equiv> CoordinateSystem 7"
abbreviation "CS_user7 \<equiv> CoordinateSystem 8"
abbreviation "CS_user8 \<equiv> CoordinateSystem 9"
abbreviation "CS_user9 \<equiv> CoordinateSystem 10"
abbreviation "CS_user10 \<equiv> CoordinateSystem 11"
abbreviation "CS_user11 \<equiv> CoordinateSystem 12"
abbreviation "CS_user12 \<equiv> CoordinateSystem 13"
abbreviation "CS_user13 \<equiv> CoordinateSystem 14"
abbreviation "CS_user14 \<equiv> CoordinateSystem 15"
abbreviation "CS_user15 \<equiv> CoordinateSystem 16"
abbreviation "CS_user16 \<equiv> CoordinateSystem 17"
abbreviation "CS_tool \<equiv> CoordinateSystem 18"
abbreviation "CS_master \<equiv> CoordinateSystem 19"

text \<open>Enumerators are compared by their numbers.\<close>

instantiation CoordinateSystem :: linorder
begin

definition less_eq_CoordinateSystem :: "CoordinateSystem \<Rightarrow> CoordinateSystem \<Rightarrow> bool" where
  "less_eq_CoordinateSystem a b \<longleftrightarrow> cs_value a \<le> cs_value b"

definition less_CoordinateSystem :: "CoordinateSystem \<Rightarrow> CoordinateSystem \<Rightarrow> bool" where
  "less_CoordinateSystem a b \<longleftrightarrow> cs_value a < cs_value b"

instance
  by standard
    (auto simp: less_eq_CoordinateSystem_def less_CoordinateSystem_def CoordinateSystem.expand)

end

lemma cs_le [simp]: "CoordinateSystem m \<le> CoordinateSystem n \<longleftrightarrow> m \<le> n"
  by (simp add: less_eq_CoordinateSystem_def)

lemma cs_less [simp]: "CoordinateSystem m < CoordinateSystem n \<longleftrightarrow> m < n"
  by (simp add: less_CoordinateSystem_def)

definition toString :: "CoordinateSystem \<Rightarrow> string outcome" where
  "toString system =
     (if system = CS_base then Returns ''base''
      else if system = CS_robot then Returns ''robot''
      else if system = CS_user1 then Returns ''user1''
      else if system = CS_user2 then Returns ''user2''
      else if system = CS_user3 then Returns ''user3''
      else if system = CS_user4 then Returns ''user4''
      else if system = CS_user5 then Returns ''user5''
      else if system = CS_user6 then Returns ''user6''
      else if system = CS_user7 then Returns ''user7''
      else if system = CS_user8 then Returns ''user8''
      else if system = CS_user9 then Returns ''user9''
      else if system = CS_user10 then Returns ''user10''
      else if system = CS_user11 then Returns ''user11''
      else if system = CS_user12 then Returns ''user12''
      else if system = CS_user13 then Returns ''user13''
      else if system = CS_user14 then Returns ''user14''
      else if system = CS_user15 then Returns ''user15''
      else if system = CS_user16 then Returns ''user16''
      else if system = CS_tool then Returns ''tool''
      else if system = CS_master then Returns ''master''
      else Throws (Logic_error (''invalid coordinate system: '' @ to_string (cs_value system))))"

definition toCoordinateSystem :: "string \<Rightarrow> CoordinateSystem result" where
  "toCoordinateSystem str =
     (if str = ''base'' then Inr CS_base
      else if str = ''robot'' then Inr CS_robot
      else if str = ''user1'' then Inr CS_user1
      else if str = ''user2'' then Inr CS_user2
      else if str = ''user3'' then Inr CS_user3
      else if str = ''user4'' then Inr CS_user4
      else if str = ''user5'' then Inr CS_user5
      else if str = ''user6'' then Inr CS_user6
      else if str = ''user7'' then Inr CS_user7
      else if str = ''user8'' then Inr CS_user8
      else if str = ''user9'' then Inr CS_user9
      else if str = ''user10'' then Inr CS_user10
      else if str = ''user11'' then Inr CS_user11
      else if str = ''user12'' then Inr CS_user12
      else if str = ''user13'' then Inr CS_user13
      else if str = ''user14'' then Inr CS_user14
      else if str = ''user15'' then Inr CS_user15
      else if str = ''user16'' then Inr CS_user16
      else if str = ''tool'' then Inr CS_tool
      else if str = ''master'' then Inr CS_master
      else Inl (Error errc_invalid_argument [''invalid coordinate system: '' @ str]))"

definition isUserCoordinateSystem :: "CoordinateSystem \<Rightarrow> bool" where
  "isUserCoordinateSystem system \<longleftrightarrow> system \<ge> CS_user1 \<and> system \<le> CS_user16"

definition userCoordinateNumber :: "CoordinateSystem \<Rightarrow> int" where
  "userCoordinateNumber system =
     (if \<not> isUserCoordinateSystem system then 0
      else cs_value system - cs_value CS_user1 + 1)"

definition userCoordinateSystem :: "int \<Rightarrow> CoordinateSystem" where
  "userCoordinateSystem number = CoordinateSystem (cs_value CS_user1 + number - 1)"

definition print_CoordinateSystem :: "CoordinateSystem \<Rightarrow> string" where
  "print_CoordinateSystem frame =
     (if isUserCoordinateSystem frame
      then ''user_frame_'' @ to_string (userCoordinateNumber frame)
      else if frame = CS_base then ''base''
      else if frame = CS_robot then ''robot''
      else if frame = CS_tool then ''tool''
      else if frame = CS_master then ''master''
      else ''unknown_'' @ to_string (cs_value frame))"

section \<open>Pose configurations\<close>

type_synonym PoseConfiguration = "6 word"

text \<open>\<open>std::bitset<6>(type)\<close> keeps the low six bits; \<open>operator std::uint8_t\<close> reads them back.\<close>

definition PoseConfiguration_of_u8 :: "u8 \<Rightarrow> PoseConfiguration" where
  "PoseConfiguration_of_u8 t = ucast t"

definition PoseConfiguration_to_u8 :: "PoseConfiguration \<Rightarrow> u8" where
  "PoseConfiguration_to_u8 c = ucast c"

definition PoseConfiguration_of_flags ::
    "bool \<Rightarrow> bool \<Rightarrow> bool \<Rightarrow> bool \<Rightarrow> bool \<Rightarrow> bool \<Rightarrow> PoseConfiguration" where
  "PoseConfiguration_of_flags no_flip lower_arm bck high_r high_t high_s =
     of_bool no_flip * 0x01 OR of_bool lower_arm * 0x02 OR of_bool bck * 0x04
     OR of_bool high_r * 0x08 OR of_bool high_t * 0x10 OR of_bool high_s * 0x20"

definition noFlip :: "PoseConfiguration \<Rightarrow> bool" where "noFlip c = bit c 0"
definition lowerArm :: "PoseConfiguration \<Rightarrow> bool" where "lowerArm c = bit c 1"
definition is_back :: "PoseConfiguration \<Rightarrow> bool" where "is_back c = bit c 2"
definition highR :: "PoseConfiguration \<Rightarrow> bool" where "highR c = bit c 3"
definition highT :: "PoseConfiguration \<Rightarrow> bool" where "highT c = bit c 4"
definition highS :: "PoseConfiguration \<Rightarrow> bool" where "highS c = bit c 5"

text \<open>The overloads that return a reference into the bitset, to assign to.\<close>

definition put_flag :: "nat \<Rightarrow> bool \<Rightarrow> PoseConfiguration \<Rightarrow> PoseConfiguration" where
  "put_flag i b c = (if b then set_bit i c else unset_bit i c)"

definition put_noFlip :: "bool \<Rightarrow> PoseConfiguration \<Rightarrow> PoseConfiguration" where "put_noFlip = put_flag 0"
definition put_lowerArm :: "bool \<Rightarrow> PoseConfiguration \<Rightarrow> PoseConfiguration" where "put_lowerArm = put_flag 1"
definition put_back :: "bool \<Rightarrow> PoseConfiguration \<Rightarrow> PoseConfiguration" where "put_back = put_flag 2"
definition put_highR :: "bool \<Rightarrow> PoseConfiguration \<Rightarrow> PoseConfiguration" where "put_highR = put_flag 3"
definition put_highT :: "bool \<Rightarrow> PoseConfiguration \<Rightarrow> PoseConfiguration" where "put_highT = put_flag 4"
definition put_highS :: "bool \<Rightarrow> PoseConfiguration \<Rightarrow> PoseConfiguration" where "put_highS = put_flag 5"

lemmas put_flag_defs = put_flag_def put_noFlip_def put_lowerArm_def put_back_def put_highR_def
  put_highT_def put_highS_def

lemmas pose_flag_defs = noFlip_def lowerArm_def is_back_def highR_def highT_def highS_def

definition print_PoseConfiguration :: "PoseConfiguration \<Rightarrow> string" where
  "print_PoseConfiguration c =
     (if is_back c then ''back,'' else ''front,'')
     @ (if lowerArm c then ''lower,'' else ''upper,'')
     @ (if highR c then ''R>=180,'' else ''R<180,'')
     @ (if highT c then ''T>=180,'' else ''T<180,'')
     @ (if highS c then ''S>=180'' else ''S<180'')"

section \<open>Positions\<close>

record PulsePosition =
  pp_joints :: "i32 option list"
  pp_size :: nat
  pp_tool :: i32

definition PulsePosition_of_size :: "nat \<Rightarrow> i32 \<Rightarrow> PulsePosition" where
  "PulsePosition_of_size n tool =
     \<lparr>pp_joints = replicate 8 None, pp_size = n, pp_tool = tool\<rparr>"

text \<open>
  The constructors from a \<open>std::array\<close> of six, seven or eight elements; the elements of
  \<open>joints_\<close> that \<open>std::copy\<close> does not write stay indeterminate.
\<close>

definition PulsePosition_of_array :: "i32 list \<Rightarrow> i32 \<Rightarrow> PulsePosition" where
  "PulsePosition_of_array array tool =
     \<lparr>pp_joints = map Some array @ replicate (8 - length array) None,
      pp_size = length array, pp_tool = tool\<rparr>"

text \<open>Reading one element of the view \<open>joints()\<close>, and all of them in order.\<close>

definition joint_at :: "PulsePosition \<Rightarrow> nat \<Rightarrow> i32 option" where
  "joint_at p i = (if i < 8 \<and> i < length (pp_joints p) then pp_joints p ! i else None)"

definition joints :: "PulsePosition \<Rightarrow> i32 list option" where
  "joints p = those (map (joint_at p) [0..<pp_size p])"

definition set_joint :: "PulsePosition \<Rightarrow> nat \<Rightarrow> i32 \<Rightarrow> PulsePosition" where
  "set_joint p i v = p\<lparr>pp_joints := (pp_joints p)[i := Some v]\<rparr>"

text \<open>
  \<open>joints_ == other.joints_\<close> compares all eight elements until the first difference,
  whatever \<open>size_\<close> is; \<open>None\<close> when it reads an indeterminate one.
\<close>

fun array_eq :: "i32 option list \<Rightarrow> i32 option list \<Rightarrow> bool option" where
  "array_eq (Some a # as) (Some b # bs) = (if a = b then array_eq as bs else Some False)"
| "array_eq [] [] = Some True"
| "array_eq _ _ = None"

definition PulsePosition_eq :: "PulsePosition \<Rightarrow> PulsePosition \<Rightarrow> bool option" where
  "PulsePosition_eq p q =
     (if pp_size p = pp_size q \<and> pp_tool p = pp_tool q
      then array_eq (pp_joints p) (pp_joints q) else Some False)"

definition PulsePosition_neq :: "PulsePosition \<Rightarrow> PulsePosition \<Rightarrow> bool option" where
  "PulsePosition_neq p q = map_option Not (PulsePosition_eq p q)"

record CartesianPosition =
  cp_x :: double
  cp_y :: double
  cp_z :: double
  cp_rx :: double
  cp_ry :: double
  cp_rz :: double
  cp_frame :: CoordinateSystem
  cp_type :: PoseConfiguration
  cp_tool :: i32

definition CartesianPosition_eq :: "CartesianPosition \<Rightarrow> CartesianPosition \<Rightarrow> bool" where
  "CartesianPosition_eq p q \<longleftrightarrow>
     cp_frame p = cp_frame q \<and> cp_type p = cp_type q \<and> cp_tool p = cp_tool q
     \<and> double_eq (cp_x p) (cp_x q) \<and> double_eq (cp_y p) (cp_y q) \<and> double_eq (cp_z p) (cp_z q)
     \<and> double_eq (cp_rx p) (cp_rx q) \<and> double_eq (cp_ry p) (cp_ry q)
     \<and> double_eq (cp_rz p) (cp_rz q)"

definition CartesianPosition_neq :: "CartesianPosition \<Rightarrow> CartesianPosition \<Rightarrow> bool" where
  "CartesianPosition_neq p q \<longleftrightarrow> \<not> CartesianPosition_eq p q"

datatype Position = Pulse PulsePosition | Cartesian CartesianPosition

definition default_Position :: Position where
  "default_Position = Pulse (PulsePosition_of_size 0 0)"

primrec position_type :: "Position \<Rightarrow> PositionType" where
  "position_type (Pulse p) = pulse_type"
| "position_type (Cartesian c) = cartesian_type"

definition isPulse :: "Position \<Rightarrow> bool" where
  "isPulse p \<longleftrightarrow> position_type p = pulse_type"

definition isCartesian :: "Position \<Rightarrow> bool" where
  "isCartesian p \<longleftrightarrow> position_type p = cartesian_type"

text \<open>\<open>std::get\<close> on the wrong alternative throws.\<close>

primrec get_pulse :: "Position \<Rightarrow> PulsePosition outcome" where
  "get_pulse (Pulse p) = Returns p"
| "get_pulse (Cartesian c) = Throws Bad_variant_access"

primrec get_cartesian :: "Position \<Rightarrow> CartesianPosition outcome" where
  "get_cartesian (Pulse p) = Throws Bad_variant_access"
| "get_cartesian (Cartesian c) = Returns c"

fun Position_eq :: "Position \<Rightarrow> Position \<Rightarrow> bool option" where
  "Position_eq (Pulse p) (Pulse q) = PulsePosition_eq p q"
| "Position_eq (Cartesian p) (Cartesian q) = Some (CartesianPosition_eq p q)"
| "Position_eq _ _ = Some False"

definition Position_neq :: "Position \<Rightarrow> Position \<Rightarrow> bool option" where
  "Position_neq p q = map_option Not (Position_eq p q)"

section \<open>Printing positions\<close>

text \<open>The loops put \<open>", "\<close> before every element but the first.\<close>

fun print_elements :: "('a \<Rightarrow> string) \<Rightarrow> bool \<Rightarrow> 'a list \<Rightarrow> string" where
  "print_elements show_element first [] = []"
| "print_elements show_element first (x # xs) =
     (if \<not> first then '', '' else []) @ show_element x @ print_elements show_element False xs"

definition print_PulsePosition :: "PulsePosition \<Rightarrow> string option" where
  "print_PulsePosition p =
     map_option (\<lambda>js.
       ''PulsePosition{tool: '' @ to_string (sint (pp_tool p)) @ '', joints: [''
       @ print_elements (\<lambda>j. to_string (sint j)) True js @ '']}'') (joints p)"

text \<open>How a stream prints a \<open>double\<close> is a parameter.\<close>

definition print_CartesianPosition :: "(double \<Rightarrow> string) \<Rightarrow> CartesianPosition \<Rightarrow> string" where
  "print_CartesianPosition show_double p =
     ''CartesianPosition{frame: '' @ print_CoordinateSystem (cp_frame p)
     @ '', tool: '' @ to_string (sint (cp_tool p)) @ '', pose: [''
     @ print_elements show_double True [cp_x p, cp_y p, cp_z p, cp_rx p, cp_ry p, cp_rz p]
     @ ''], configuration: '' @ print_PoseConfiguration (cp_type p) @ ''}''"

primrec print_Position :: "(double \<Rightarrow> string) \<Rightarrow> Position \<Rightarrow> string option" where
  "print_Position show_double (Pulse p) = print_PulsePosition p"
| "print_Position show_double (Cartesian p) = Some (print_CartesianPosition show_double p)"

section \<open>Facts on coordinate systems\<close>

text \<open>The enumerators and their names, as one table.\<close>

definition cs_names :: "(CoordinateSystem \<times> string) list" where
  "cs_names =
    [(CS_base, ''base''), (CS_robot, ''robot''), (CS_user1, ''user1''), (CS_user2,
     ''user2''), (CS_user3, ''user3''), (CS_user4, ''user4''), (CS_user5, ''user5''),
     (CS_user6, ''user6''), (CS_user7, ''user7''), (CS_user8, ''user8''), (CS_user9,
     ''user9''), (CS_user10, ''user10''), (CS_user11, ''user11''), (CS_user12, ''user12''),
     (CS_user13, ''user13''), (CS_user14, ''user14''), (CS_user15, ''user15''), (CS_user16,
     ''user16''), (CS_tool, ''tool''), (CS_master, ''master'')]"

lemma cs_names_agree:
  "\<forall>(cs, s) \<in> set cs_names. toString cs = Returns s \<and> toCoordinateSystem s = Inr cs"
  by (simp add: cs_names_def toString_def toCoordinateSystem_def)

lemma toString_in_table: "toString cs = Returns s \<Longrightarrow> (cs, s) \<in> set cs_names"
  by (simp add: toString_def cs_names_def split: if_split_asm)

lemma toCoordinateSystem_in_table: "toCoordinateSystem s = Inr cs \<Longrightarrow> (cs, s) \<in> set cs_names"
  by (simp only: toCoordinateSystem_def split: if_split_asm) (simp_all add: cs_names_def)

lemma toString_parses: "toString cs = Returns s \<longleftrightarrow> toCoordinateSystem s = Inr cs"
  using cs_names_agree toString_in_table toCoordinateSystem_in_table by blast

lemma toString_total: "(\<exists>s. toString cs = Returns s) \<longleftrightarrow> cs_value cs \<in> {0..19}"
proof
  assume "\<exists>s. toString cs = Returns s"
  then show "cs_value cs \<in> {0..19}"
    by (auto dest!: toString_in_table simp: cs_names_def)
next
  assume "cs_value cs \<in> {0..19}"
  then have "cs_value cs \<in> set [0..19]" by simp
  then have "cs \<in> fst ` set cs_names"
    by (cases cs) (simp add: cs_names_def upto_rec1 del: set_upto)
  then show "\<exists>s. toString cs = Returns s" using cs_names_agree by fastforce
qed

lemma isUser_iff: "isUserCoordinateSystem cs \<longleftrightarrow> 2 \<le> cs_value cs \<and> cs_value cs \<le> 17"
  by (cases cs) (simp add: isUserCoordinateSystem_def)

lemma userCoordinateNumber_range:
  "isUserCoordinateSystem cs \<Longrightarrow> 1 \<le> userCoordinateNumber cs \<and> userCoordinateNumber cs \<le> 16"
  by (simp add: isUser_iff userCoordinateNumber_def)

lemma userCoordinateNumber_inverse:
  "isUserCoordinateSystem cs \<Longrightarrow> userCoordinateSystem (userCoordinateNumber cs) = cs"
  by (cases cs) (simp add: userCoordinateNumber_def userCoordinateSystem_def)

lemma userCoordinateSystem_inverse:
  "1 \<le> n \<Longrightarrow> n \<le> 16 \<Longrightarrow>
   isUserCoordinateSystem (userCoordinateSystem n) \<and> userCoordinateNumber (userCoordinateSystem n) = n"
  by (simp add: isUser_iff userCoordinateNumber_def userCoordinateSystem_def)

section \<open>Facts on pose configurations\<close>

lemma pose_flags:
  "noFlip (PoseConfiguration_of_flags a b c d e f) = a"
  "lowerArm (PoseConfiguration_of_flags a b c d e f) = b"
  "is_back (PoseConfiguration_of_flags a b c d e f) = c"
  "highR (PoseConfiguration_of_flags a b c d e f) = d"
  "highT (PoseConfiguration_of_flags a b c d e f) = e"
  "highS (PoseConfiguration_of_flags a b c d e f) = f"
  by (cases a; cases b; cases c; cases d; cases e; cases f;
      simp add: pose_flag_defs PoseConfiguration_of_flags_def bit_simps)+

text \<open>Assigning a flag sets it and leaves the others.\<close>

lemma put_flag_bit: "i < 6 \<Longrightarrow> bit (put_flag i b c) j \<longleftrightarrow> (if j = i then b else bit c j)"
  by (auto simp: put_flag_def bit_simps)

lemma put_flags_build:
  "put_noFlip a (put_lowerArm b (put_back c (put_highR d (put_highT e (put_highS f w)))))
   = PoseConfiguration_of_flags a b c d e f"
proof (rule bit_word_eqI)
  fix n
  assume "n < LENGTH(6)"
  then have "n \<in> {0, 1, 2, 3, 4, 5}" by auto
  then show "bit (put_noFlip a (put_lowerArm b (put_back c (put_highR d (put_highT e (put_highS f w)))))) n
      = bit (PoseConfiguration_of_flags a b c d e f) n"
    using pose_flags [of a b c d e f]
    by (auto simp: put_noFlip_def put_lowerArm_def put_back_def put_highR_def put_highT_def put_highS_def
        put_flag_bit pose_flag_defs)
qed

lemma pose_u8_roundtrip [simp]: "PoseConfiguration_of_u8 (PoseConfiguration_to_u8 c) = c"
  unfolding PoseConfiguration_of_u8_def PoseConfiguration_to_u8_def
  by (rule bit_word_eqI) (simp add: bit_simps)

lemma pose_u8_masks: "PoseConfiguration_to_u8 (PoseConfiguration_of_u8 t) = t AND 0x3f"
proof -
  have "PoseConfiguration_to_u8 (PoseConfiguration_of_u8 t) = take_bit 6 t"
    unfolding PoseConfiguration_of_u8_def PoseConfiguration_to_u8_def
    by (rule bit_word_eqI) (auto simp: bit_simps)
  then show ?thesis by (simp add: take_bit_eq_mask mask_eq_exp_minus_1)
qed

section \<open>Facts on pulse positions\<close>

text \<open>Every element of the array is set, and the view does not reach past it.\<close>

definition pulse_complete :: "PulsePosition \<Rightarrow> bool" where
  "pulse_complete p \<longleftrightarrow>
     length (pp_joints p) = 8 \<and> pp_size p \<le> 8 \<and> (\<forall>i < pp_size p. pp_joints p ! i \<noteq> None)"

lemma those_map_Some [simp]: "those (map Some xs) = Some xs"
  by (induction xs) auto

lemma those_length: "those xs = Some ys \<Longrightarrow> length ys = length xs"
  by (induction xs arbitrary: ys) (auto split: option.splits)

lemma those_defined: "\<forall>x \<in> set xs. x \<noteq> None \<Longrightarrow> those xs = Some (map the xs)"
  by (induction xs) auto

lemma those_None: "None \<in> set xs \<Longrightarrow> those xs = None"
  by (induction xs) (auto split: option.splits)

lemma joints_defined: "pulse_complete p \<Longrightarrow> \<exists>js. joints p = Some js \<and> length js = pp_size p"
proof -
  assume p: "pulse_complete p"
  have "\<forall>x \<in> set (map (joint_at p) [0..<pp_size p]). x \<noteq> None"
    using p by (auto simp: pulse_complete_def joint_at_def)
  from those_defined [OF this] show ?thesis by (simp add: joints_def)
qed

lemma joints_of_array:
  assumes "length array \<le> 8"
  shows "joints (PulsePosition_of_array array tool) = Some array"
proof -
  have "map (joint_at (PulsePosition_of_array array tool)) [0..<length array] = map Some array"
    using assms
    by (intro nth_equalityI) (auto simp: joint_at_def PulsePosition_of_array_def nth_append)
  then show ?thesis
    by (simp add: joints_def PulsePosition_of_array_def)
qed

lemma pulse_complete_of_array:
  "length array \<le> 8 \<Longrightarrow> pulse_complete (PulsePosition_of_array array tool)"
  by (auto simp: pulse_complete_def PulsePosition_of_array_def nth_append)

lemma array_eq_map_Some:
  "length as = length bs \<Longrightarrow> array_eq (map Some as) (map Some bs) = Some (as = bs)"
  by (induction as bs rule: list_induct2) auto

section \<open>Properties\<close>

text \<open>
  Names of coordinate systems parse to what they were printed from and nothing else: a
  system has a name exactly when the name parses to it, and the systems with a name are the
  twenty enumerators; for any other number the printing throws.
\<close>

theorem coordinate_system_names:
  "(toString cs = Returns s \<longleftrightarrow> toCoordinateSystem s = Inr cs)
   \<and> ((\<exists>s. toString cs = Returns s) \<longleftrightarrow> cs_value cs \<in> {0..19})
   \<and> ((\<exists>e. toString cs = Throws e) \<longleftrightarrow> cs_value cs \<notin> {0..19})"
proof -
  have "(\<exists>s. toString cs = Returns s) \<noteq> (\<exists>e. toString cs = Throws e)"
    by (simp add: toString_def)
  with toString_parses [of cs s] toString_total [of cs] show ?thesis by blast
qed

text \<open>
  Comparing two pulse positions looks at all eight elements of the arrays: for eight
  joints it is the equality of the joints, but for two equal positions made of fewer joints it
  reads the elements that were never written.
\<close>

theorem pulse_equality:
  assumes "length as = length bs" "length as \<le> 8"
  shows "PulsePosition_eq (PulsePosition_of_array as tool) (PulsePosition_of_array bs tool) =
    (if as = bs \<and> length as < 8 then None else Some (as = bs))"
proof -
  have "array_eq (map Some as @ replicate k None) (map Some bs @ replicate k None) =
      (if as = bs \<and> 0 < k then None else Some (as = bs))" for k
    using assms(1)
  proof (induction as bs rule: list_induct2)
    case Nil
    show ?case by (cases k) simp_all
  next
    case (Cons a as b bs)
    then show ?case by auto
  qed
  from this [of "8 - length as"] assms show ?thesis
    by (simp add: PulsePosition_eq_def PulsePosition_of_array_def)
qed

lemma pulse_equality_witness:
  "PulsePosition_eq (PulsePosition_of_array [1, 2, 3, 4, 5, 6] 0)
     (PulsePosition_of_array [1, 2, 3, 4, 5, 6] 0) = None"
  using pulse_equality [of "[1, 2, 3, 4, 5, 6]" "[1, 2, 3, 4, 5, 6]" 0] by simp

end
