(* ===== verification/Little_Endian.thy ===== *)
theory Little_Endian
  imports Errors
begin

text \<open>
  The little-endian reads and writes of \<open>src/udp/encode.hpp\<close> and \<open>src/udp/decode.hpp\<close>.
  A write appends to the output vector; a read takes the bytes from the front of a view and
  moves the view on, and is \<open>None\<close> (undefined behaviour) when the view is too short.
  \<open>le_bytes\<close> is the reference: the bytes of a word, least significant first.
\<close>

section \<open>The loops of the code\<close>

definition sizeof :: "'a::len itself \<Rightarrow> nat" where
  "sizeof _ = LENGTH('a) div 8"

text \<open>\<open>value >> i * 8 & 0xff\<close> for an unsigned and, with an arithmetic shift, a signed \<open>value\<close>.\<close>

definition writeLittleEndian :: "bytes \<Rightarrow> 'a::len word \<Rightarrow> bytes" where
  "writeLittleEndian out val =
     foldl (\<lambda>out i. out @ [ucast (drop_bit (i * 8) val AND 0xff)]) out [0..<sizeof TYPE('a)]"

definition writeLittleEndian_signed :: "bytes \<Rightarrow> 'a::len word \<Rightarrow> bytes" where
  "writeLittleEndian_signed out val =
     foldl (\<lambda>out i. out @ [ucast (signed_drop_bit (i * 8) val AND 0xff)]) out
       [0..<sizeof TYPE('a)]"

definition readLittleEndian_ptr :: "bytes \<Rightarrow> 'a::len word" where
  "readLittleEndian_ptr data =
     foldl (\<lambda>result i. result OR push_bit (i * 8) (ucast (data ! i))) 0 [0..<sizeof TYPE('a)]"

text \<open>\<open>string_view::remove_prefix\<close>, undefined past the end of the view.\<close>

definition remove_prefix :: "nat \<Rightarrow> bytes \<Rightarrow> bytes option" where
  "remove_prefix n data = (if n \<le> length data then Some (drop n data) else None)"

definition readLittleEndian :: "bytes \<Rightarrow> ('a::len word \<times> bytes) option" where
  "readLittleEndian data =
     do { rest \<leftarrow> remove_prefix (sizeof TYPE('a)) data;
          Some (readLittleEndian_ptr data, rest) }"

section \<open>The reference encoding\<close>

definition le_bytes :: "'a::len word \<Rightarrow> bytes" where
  "le_bytes val = map (\<lambda>i. ucast (drop_bit (i * 8) val)) [0..<sizeof TYPE('a)]"

lemma length_le_bytes [simp, codec_len]: "length (le_bytes (v :: 'a::len word)) = sizeof TYPE('a)"
  by (simp add: le_bytes_def)

lemma sizeof_simps [simp]:
  "sizeof TYPE(8) = 1" "sizeof TYPE(16) = 2" "sizeof TYPE(32) = 4"
  by (simp_all add: sizeof_def)

lemma foldl_snoc: "foldl (\<lambda>out i. out @ [f i]) out is = out @ map f is"
  by (induction "is" arbitrary: out) auto

lemma ucast_and_ff: "(ucast (w AND 0xff) :: u8) = ucast (w :: 'a::len word)"
proof -
  have m: "w AND 0xff = take_bit 8 w"
    by (simp add: take_bit_eq_mask mask_eq_exp_minus_1)
  show ?thesis
    unfolding m by (rule bit_word_eqI) (auto simp: bit_simps dest: bit_imp_le_length)
qed

lemma writeLittleEndian_eq: "writeLittleEndian out v = out @ le_bytes v"
  by (simp add: writeLittleEndian_def foldl_snoc le_bytes_def ucast_and_ff)

text \<open>The arithmetic shift fills with sign bits that never reach the byte that is kept.\<close>

lemma ucast_signed_drop:
  "i < sizeof TYPE('a::len) \<Longrightarrow>
   (ucast (signed_drop_bit (i * 8) v) :: u8) = ucast (drop_bit (i * 8) (v :: 'a word))"
  by (rule bit_word_eqI) (auto simp: bit_simps sizeof_def)

lemma writeLittleEndian_signed_eq: "writeLittleEndian_signed out v = out @ le_bytes v"
  unfolding writeLittleEndian_signed_def foldl_snoc le_bytes_def
  by (simp add: ucast_and_ff ucast_signed_drop)

lemma bit_foldl_or:
  "bit (foldl (\<lambda>r i. r OR f i) a is) n \<longleftrightarrow> bit a n \<or> (\<exists>i \<in> set is. bit (f i) n)"
  for a :: "'a::len word"
  by (induction "is" arbitrary: a) (auto simp: bit_simps)

lemma byte_index:
  "n < LENGTH('a::len) \<Longrightarrow> 8 dvd LENGTH('a) \<Longrightarrow> n div 8 < sizeof TYPE('a)"
  by (auto simp: sizeof_def less_mult_imp_div_less elim!: dvdE)

lemma bit_read_ptr:
  assumes "8 dvd LENGTH('a)" and n: "n < LENGTH('a)"
  shows "bit (readLittleEndian_ptr data :: 'a::len word) n \<longleftrightarrow> bit (data ! (n div 8)) (n mod 8)"
    (is "?l \<longleftrightarrow> ?r")
proof -
  have l: "?l \<longleftrightarrow> (\<exists>i < sizeof TYPE('a). i * 8 \<le> n \<and> bit (data ! i) (n - i * 8))"
    using n by (auto simp: readLittleEndian_ptr_def bit_foldl_or bit_simps)
  have m: "n mod 8 = n - n div 8 * 8" by (rule minus_div_mult_eq_mod [symmetric])
  show ?thesis
  proof
    assume ?l
    with l obtain i where i: "i * 8 \<le> n" "bit (data ! i) (n - i * 8)" by blast
    from i(2) have "n - i * 8 < 8" by (auto dest: bit_imp_le_length)
    with i(1) have "i = n div 8" by (intro div_nat_eqI [symmetric]) auto
    with i(2) show ?r by (simp add: m)
  next
    assume ?r
    then have "n div 8 * 8 \<le> n \<and> bit (data ! (n div 8)) (n - n div 8 * 8)" by (simp add: m)
    with l byte_index [OF n assms(1)] show ?l by blast
  qed
qed

lemma read_ptr_le_bytes [codec_simps]:
  assumes "8 dvd LENGTH('a)"
  shows "readLittleEndian_ptr (le_bytes v @ rest) = (v :: 'a::len word)"
proof (rule bit_word_eqI)
  fix n assume n: "n < LENGTH('a)"
  then have "n div 8 < sizeof TYPE('a)" using assms by (rule byte_index)
  then have "(le_bytes v @ rest) ! (n div 8) = ucast (drop_bit (n div 8 * 8) v)"
    by (simp add: nth_append le_bytes_def)
  then show "bit (readLittleEndian_ptr (le_bytes v @ rest) :: 'a word) n = bit v n"
    using n by (simp add: bit_read_ptr [OF assms n] bit_simps)
qed

lemma read_le_bytes [codec_simps]:
  "8 dvd LENGTH('a) \<Longrightarrow> readLittleEndian (le_bytes v @ rest) = Some (v :: 'a::len word, rest)"
  by (simp add: readLittleEndian_def remove_prefix_def read_ptr_le_bytes)

lemma read_defined:
  "readLittleEndian data =
     (if sizeof TYPE('a) \<le> length data
      then Some (readLittleEndian_ptr data :: 'a::len word, drop (sizeof TYPE('a)) data) else None)"
  by (simp add: readLittleEndian_def remove_prefix_def)

lemma le_bytes_u8 [simp]: "le_bytes (v :: u8) = [v]"
  by (simp add: le_bytes_def)

lemma read_u8 [codec_simps]: "readLittleEndian (v # rest) = Some (v :: u8, rest)"
  using read_le_bytes [of v rest] by simp

lemma read_ptr_u8 [codec_simps]: "readLittleEndian_ptr (v # rest) = (v :: u8)"
  using read_ptr_le_bytes [of v rest] by simp

lemma remove_prefix_append [codec_simps]:
  "length p = n \<Longrightarrow> remove_prefix n (p @ rest) = Some rest"
  by (auto simp: remove_prefix_def)

lemma remove_prefix_1 [codec_simps]: "remove_prefix (Suc 0) (b # rest) = Some rest"
  by (simp add: remove_prefix_def)

lemma le_bytes_split: "length p = sizeof TYPE('a) \<Longrightarrow> 8 dvd LENGTH('a) \<Longrightarrow>
   readLittleEndian (p @ rest) = Some (readLittleEndian_ptr (p @ rest) :: 'a::len word, rest)"
  by (simp add: read_defined)

text \<open>What was read is what the writer would put there: the two are inverse both ways.\<close>

lemma le_bytes_read_ptr:
  assumes "8 dvd LENGTH('a)" and "sizeof TYPE('a) \<le> length data"
  shows "le_bytes (readLittleEndian_ptr data :: 'a::len word) = take (sizeof TYPE('a)) data"
proof (rule nth_equalityI)
  show "length (le_bytes (readLittleEndian_ptr data :: 'a word)) =
      length (take (sizeof TYPE('a)) data)"
    using assms by simp
next
  fix i assume i: "i < length (le_bytes (readLittleEndian_ptr data :: 'a word))"
  then have i': "i < sizeof TYPE('a)" by simp
  have "ucast (drop_bit (i * 8) (readLittleEndian_ptr data :: 'a word)) = data ! i"
  proof (rule bit_word_eqI)
    fix n assume n: "n < LENGTH(8)"
    have "i * 8 + n < LENGTH('a)" using i' n assms(1) by (auto simp: sizeof_def elim!: dvdE)
    moreover have "(i * 8 + n) div 8 = i" "(i * 8 + n) mod 8 = n" using n by simp_all
    ultimately show "bit (ucast (drop_bit (i * 8) (readLittleEndian_ptr data :: 'a word)) :: u8) n
        = bit (data ! i) n"
      using n by (simp add: bit_simps bit_read_ptr [OF assms(1)])
  qed
  then show "le_bytes (readLittleEndian_ptr data :: 'a word) ! i = take (sizeof TYPE('a)) data ! i"
    using i' by (simp add: le_bytes_def)
qed

lemma read_inverse:
  assumes "8 dvd LENGTH('a)" and "readLittleEndian data = Some (v :: 'a::len word, rest)"
  shows "data = le_bytes v @ rest"
proof -
  from assms(2) have s: "sizeof TYPE('a) \<le> length data"
    and v: "v = readLittleEndian_ptr data" and r: "rest = drop (sizeof TYPE('a)) data"
    by (auto simp: read_defined split: if_splits)
  show ?thesis using le_bytes_read_ptr [OF assms(1) s] by (simp add: v r)
qed

lemma le_bytes_inject:
  "8 dvd LENGTH('a) \<Longrightarrow> le_bytes v = le_bytes w \<longleftrightarrow> v = (w :: 'a::len word)"
  by (metis append_Nil2 read_ptr_le_bytes)

section \<open>Reasoning about readers\<close>

text \<open>
  \<open>holds P m\<close>: the reader \<open>m\<close> does not leave its buffer and its result satisfies \<open>P\<close>.  The
  rules walk through a reader from its first statement to its last; each read adds the
  equation that splits the view it read from.
\<close>

definition holds :: "('a \<Rightarrow> bool) \<Rightarrow> 'a option \<Rightarrow> bool" where
  "holds P m \<longleftrightarrow> (\<exists>x. m = Some x \<and> P x)"

lemma holds_Some [simp]: "holds P (Some x) \<longleftrightarrow> P x"
  by (simp add: holds_def)

lemma holds_SomeI: "P x \<Longrightarrow> holds P (Some x)"
  by simp

lemma holds_if:
  "(c \<Longrightarrow> holds P a) \<Longrightarrow> (\<not> c \<Longrightarrow> holds P b) \<Longrightarrow> holds P (if c then a else b)"
  by simp

lemma holds_remove_prefix:
  "n \<le> length data \<Longrightarrow>
   (\<And>p d. length p = n \<Longrightarrow> data = p @ d \<Longrightarrow> holds P (f d)) \<Longrightarrow>
   holds P (Option.bind (remove_prefix n data) f)"
  by (simp add: remove_prefix_def)
    (metis append_take_drop_id length_take min.absorb2)

lemma holds_read:
  "8 dvd LENGTH('a) \<Longrightarrow> sizeof TYPE('a) \<le> length data \<Longrightarrow>
   (\<And>v d. data = le_bytes v @ d \<Longrightarrow> holds P (f v d)) \<Longrightarrow>
   holds P (Option.bind (readLittleEndian data) (\<lambda>(v :: 'a::len word, d). f v d))"
  using read_inverse [where 'a = 'a] by (simp add: read_defined)

lemma holds_bind:
  "holds Q m \<Longrightarrow> (\<And>x. Q x \<Longrightarrow> holds P (f x)) \<Longrightarrow> holds P (Option.bind m f)"
  by (auto simp: holds_def)

lemma holds_mono: "holds Q m \<Longrightarrow> (\<And>x. Q x \<Longrightarrow> P x) \<Longrightarrow> holds P m"
  by (auto simp: holds_def)

lemma holdsD: "holds P m \<Longrightarrow> m = Some x \<Longrightarrow> P x"
  by (simp add: holds_def)

lemma holds_defined: "holds P m \<Longrightarrow> m \<noteq> None"
  by (auto simp: holds_def)

lemmas holds_rules = holds_SomeI holds_if holds_remove_prefix holds_read

end
