(* ===== verification/Message.thy ===== *)
theory Message
  imports Little_Endian Types
begin

text \<open>
  The datagram headers: \<open>include/yaskawa_ethernet/udp/message.hpp\<close>, the header functions of
  \<open>src/udp/encode.cpp\<close> and \<open>decodeResponseHeader\<close> of \<open>src/udp/decode.cpp\<close>.
  The facts say that a request header is 32 bytes long and determines its fields, that
  decoding a response header never reads outside the datagram, and exactly which datagrams
  it accepts.
\<close>

section \<open>Constants\<close>

datatype robot_command =
    read_alarm
  | read_alarm_history
  | read_status_information
  | execute_job_information
  | read_axis_configuration
  | read_robot_position
  | read_position_error
  | read_torque
  | readwrite_io
  | readwrite_register
  | readwrite_int8_variable
  | readwrite_int16_variable
  | readwrite_int32_variable
  | readwrite_float_variable
  | readwrite_string_variable
  | readwrite_robot_position_variable
  | readwrite_base_position_variable
  | readwrite_external_axis_variable
  | reset_alarm
  | set_servo_enabled
  | set_execution_mode
  | show_message
  | start_job
  | select_job
  | read_management_time
  | read_system_information
  | move_cartesian
  | move_pulse
  | readwrite_multiple_io
  | readwrite_multiple_register
  | readwrite_multiple_int8
  | readwrite_multiple_int16
  | readwrite_multiple_int32
  | readwrite_multiple_float
  | readwrite_multiple_string
  | readwrite_multiple_robot_position
  | readwrite_multiple_base_position
  | readwrite_multiple_external_axis
  | read_alarm_data

primrec robot_command_code :: "robot_command \<Rightarrow> u16" where
  "robot_command_code read_alarm = 0x70"
| "robot_command_code read_alarm_history = 0x71"
| "robot_command_code read_status_information = 0x72"
| "robot_command_code execute_job_information = 0x73"
| "robot_command_code read_axis_configuration = 0x74"
| "robot_command_code read_robot_position = 0x75"
| "robot_command_code read_position_error = 0x76"
| "robot_command_code read_torque = 0x77"
| "robot_command_code readwrite_io = 0x78"
| "robot_command_code readwrite_register = 0x79"
| "robot_command_code readwrite_int8_variable = 0x7a"
| "robot_command_code readwrite_int16_variable = 0x7b"
| "robot_command_code readwrite_int32_variable = 0x7c"
| "robot_command_code readwrite_float_variable = 0x7d"
| "robot_command_code readwrite_string_variable = 0x7e"
| "robot_command_code readwrite_robot_position_variable = 0x7f"
| "robot_command_code readwrite_base_position_variable = 0x80"
| "robot_command_code readwrite_external_axis_variable = 0x81"
| "robot_command_code reset_alarm = 0x82"
| "robot_command_code set_servo_enabled = 0x83"
| "robot_command_code set_execution_mode = 0x84"
| "robot_command_code show_message = 0x85"
| "robot_command_code start_job = 0x86"
| "robot_command_code select_job = 0x87"
| "robot_command_code read_management_time = 0x88"
| "robot_command_code read_system_information = 0x89"
| "robot_command_code move_cartesian = 0x8a"
| "robot_command_code move_pulse = 0x8b"
| "robot_command_code readwrite_multiple_io = 0x300"
| "robot_command_code readwrite_multiple_register = 0x301"
| "robot_command_code readwrite_multiple_int8 = 0x302"
| "robot_command_code readwrite_multiple_int16 = 0x303"
| "robot_command_code readwrite_multiple_int32 = 0x304"
| "robot_command_code readwrite_multiple_float = 0x305"
| "robot_command_code readwrite_multiple_string = 0x306"
| "robot_command_code readwrite_multiple_robot_position = 0x307"
| "robot_command_code readwrite_multiple_base_position = 0x308"
| "robot_command_code readwrite_multiple_external_axis = 0x309"
| "robot_command_code read_alarm_data = 0x30a"

datatype file_command = delete_file | write_file | read_file | read_file_list

primrec file_command_code :: "file_command \<Rightarrow> u8" where
  "file_command_code delete_file = 0x09"
| "file_command_code write_file = 0x15"
| "file_command_code read_file = 0x16"
| "file_command_code read_file_list = 0x32"

datatype service_code =
    get_single | set_single | get_all | set_all | read_multiple | write_multiple

primrec service_value :: "service_code \<Rightarrow> u8" where
  "service_value get_single = 0x0e"
| "service_value set_single = 0x10"
| "service_value get_all = 0x01"
| "service_value set_all = 0x02"
| "service_value read_multiple = 0x33"
| "service_value write_multiple = 0x34"

text \<open>\<open>Division(n)\<close> is a cast: a received division can have any number.\<close>

datatype Division = Division (division_value: int)

abbreviation "Division_robot \<equiv> Division 1"
abbreviation "Division_file \<equiv> Division 2"

definition header_size :: nat where "header_size = 0x20"
definition max_payload_size :: nat where "max_payload_size = 0x1df"

section \<open>Headers\<close>

record Header =
  payload_size :: u16
  division :: Division
  ack :: bool
  request_id :: u8
  block_number :: u32

record RequestHeader = Header +
  req_command :: u16
  req_instance :: u16
  req_attribute :: u8
  req_service :: u8

record ResponseHeader = Header +
  resp_service :: u8
  status :: u8
  extra_status :: u16

definition makeRobotRequestHeader :: "u16 \<Rightarrow> u16 \<Rightarrow> u16 \<Rightarrow> u8 \<Rightarrow> u8 \<Rightarrow> u8 \<Rightarrow> RequestHeader" where
  "makeRobotRequestHeader psize cmd inst attr serv rid =
     \<lparr>payload_size = psize, division = Division_robot, ack = False, request_id = rid,
      block_number = 0, req_command = cmd, req_instance = inst, req_attribute = attr,
      req_service = serv\<rparr>"

definition makeFileRequestHeader :: "u16 \<Rightarrow> u8 \<Rightarrow> u8 \<Rightarrow> u32 \<Rightarrow> bool \<Rightarrow> RequestHeader" where
  "makeFileRequestHeader psize serv rid block is_ack =
     \<lparr>payload_size = psize, division = Division_file, ack = is_ack, request_id = rid,
      block_number = block, req_command = 0x00, req_instance = 0x00, req_attribute = 0x00,
      req_service = serv\<rparr>"

text \<open>The bytes \<open>YERC\<close>.\<close>

definition magic :: bytes where
  "magic = [0x59, 0x45, 0x52, 0x43]"

definition encode_RequestHeader :: "bytes \<Rightarrow> RequestHeader \<Rightarrow> bytes" where
  "encode_RequestHeader out header =
     (let out = out @ magic;
          out = writeLittleEndian out (of_nat header_size :: u16);
          out = writeLittleEndian out (payload_size header);
          out = out @ [3];
          out = out @ [of_int (division_value (division header))];
          out = out @ [of_bool (ack header)];
          out = out @ [request_id header];
          out = writeLittleEndian out (block_number header);
          out = out @ replicate 8 0x39;
          out = writeLittleEndian out (req_command header);
          out = writeLittleEndian out (req_instance header);
          out = out @ [req_attribute header];
          out = out @ [req_service header];
          out = out @ replicate 2 0
      in out)"

section \<open>Decoding a response header\<close>

definition decodeResponseHeader :: "bytes \<Rightarrow> (ResponseHeader result \<times> bytes) option" where
  "decodeResponseHeader original =
     (let data = original; e = expectSizeMin ''response'' (length data) header_size
      in if is_error e then Some (Inl e, data)
      else if take 4 data \<noteq> magic
      then Some (Inl (malformedResponse (''response does not start with magic bytes `YERC'' @ [CHR 0x27])), data)
      else do {
        data \<leftarrow> remove_prefix 4 data;
        (parsed_header_size :: u16, data) \<leftarrow> readLittleEndian data;
        let e = expectValue ''header size'' (uint parsed_header_size) (int header_size);
        if is_error e then Some (Inl e, data)
        else do {
          (psize :: u16, data) \<leftarrow> readLittleEndian data;
          let e = expectValueMax ''payload size'' (uint psize) (int max_payload_size);
          if is_error e then Some (Inl e, data)
          else do {
            data \<leftarrow> remove_prefix 1 data;
            (dv :: u8, data) \<leftarrow> readLittleEndian data;
            (ackv :: u8, data) \<leftarrow> readLittleEndian data;
            let e = expectValue ''ACK value'' (uint ackv) 1;
            if is_error e then Some (Inl e, data)
            else do {
              (rid :: u8, data) \<leftarrow> readLittleEndian data;
              (block :: u32, data) \<leftarrow> readLittleEndian data;
              data \<leftarrow> remove_prefix 8 data;
              (serv :: u8, data) \<leftarrow> readLittleEndian data;
              (stat :: u8, data) \<leftarrow> readLittleEndian data;
              data \<leftarrow> remove_prefix 2 data;
              (extra :: u16, data) \<leftarrow> readLittleEndian data;
              data \<leftarrow> remove_prefix 2 data;
              if length original \<noteq> header_size + unat psize
              then Some (Inl (malformedResponse
                (''request '' @ to_string (uint rid) @ '': number of received bytes (''
                 @ to_string (int (length original))
                 @ '') does not match the message size according to the header (''
                 @ to_string (int (header_size + unat psize)) @ '')'')), data)
              else Some (Inr \<lparr>payload_size = psize, division = Division (uint dv), ack = True,
                request_id = rid, block_number = block, resp_service = serv, status = stat,
                extra_status = extra\<rparr>, data)
            }
          }
        }
      })"

section \<open>Requests\<close>

definition header_image :: "RequestHeader \<Rightarrow> bytes" where
  "header_image h =
     magic @ le_bytes (32 :: u16) @ le_bytes (payload_size h)
     @ [3, of_int (division_value (division h)), of_bool (ack h), request_id h]
     @ le_bytes (block_number h) @ replicate 8 0x39 @ le_bytes (req_command h)
     @ le_bytes (req_instance h) @ [req_attribute h, req_service h, 0, 0]"

lemma encode_RequestHeader_eq: "encode_RequestHeader out h = out @ header_image h"
  by (simp add: encode_RequestHeader_def header_image_def writeLittleEndian_eq header_size_def
      Let_def numeral_2_eq_2)

lemma length_header_image [simp, codec_len]: "length (header_image h) = header_size"
  by (simp add: header_image_def magic_def header_size_def)

lemma header_image_inject:
  assumes "header_image h = header_image k"
    and "division_value (division h) \<in> {0..255}" and "division_value (division k) \<in> {0..255}"
  shows "h = k"
proof -
  have "word_of_int (division_value (division h)) = (word_of_int (division_value (division k)) :: u8)"
    and rest: "payload_size h = payload_size k" "ack h = ack k" "request_id h = request_id k"
      "block_number h = block_number k" "req_command h = req_command k"
      "req_instance h = req_instance k" "req_attribute h = req_attribute k"
      "req_service h = req_service k"
    using assms(1) by (auto simp: header_image_def magic_def le_bytes_inject)
  have "take_bit 8 (division_value (division h)) = take_bit 8 (division_value (division k))"
    using \<open>word_of_int _ = _\<close> by (simp add: word_of_int_eq_iff)
  moreover have "take_bit 8 (division_value (division h)) = division_value (division h)"
    "take_bit 8 (division_value (division k)) = division_value (division k)"
    using assms(2,3) by (simp_all add: take_bit_int_eq_self)
  ultimately have "division h = division k" by (simp add: Division.expand)
  with rest show ?thesis by simp
qed

section \<open>Responses\<close>

text \<open>
  The layout of a response datagram.  The decoder does not look at \<open>r1\<close>, \<open>r8\<close>, \<open>r2\<close>
  and \<open>p2\<close>: the reserved byte, the eight reserved bytes, the size of the added status with
  the byte after it, and the padding.
\<close>

definition response_bytes ::
    "ResponseHeader \<Rightarrow> u8 \<Rightarrow> bytes \<Rightarrow> bytes \<Rightarrow> bytes \<Rightarrow> bytes \<Rightarrow> bytes" where
  "response_bytes h r1 r8 r2 p2 payload =
     magic @ le_bytes (32 :: u16) @ le_bytes (payload_size h)
     @ [r1, of_int (division_value (division h)), 1, request_id h] @ le_bytes (block_number h)
     @ r8 @ [resp_service h, status h] @ r2 @ le_bytes (extra_status h) @ p2 @ payload"

text \<open>What a decoded header promises about itself.\<close>

definition response_header_ok :: "ResponseHeader \<Rightarrow> bool" where
  "response_header_ok h \<longleftrightarrow>
     ack h \<and> division_value (division h) \<in> {0..255} \<and> unat (payload_size h) \<le> max_payload_size"

text \<open>
  Every datagram is decoded without leaving it; a datagram is either refused with an error
  or has the layout of \<open>response_bytes\<close>, and the view is left at the payload.
\<close>

definition response_decoded :: "bytes \<Rightarrow> ResponseHeader result \<times> bytes \<Rightarrow> bool" where
  "response_decoded data = (\<lambda>(r, rest).
     case r of Inl e \<Rightarrow> code e = make_error_code malformed_response
     | Inr h \<Rightarrow> response_header_ok h \<and> length rest = unat (payload_size h)
         \<and> (\<exists>r1 r8 r2 p2. length r8 = 8 \<and> length r2 = 2 \<and> length p2 = 2
             \<and> data = response_bytes h r1 r8 r2 p2 rest))"

lemma response_decoded_Inl [simp]:
  "response_decoded data (Inl e, rest) \<longleftrightarrow> code e = make_error_code malformed_response"
  by (simp add: response_decoded_def)

lemma uint_le_int: "uint w \<le> int n \<longleftrightarrow> unat w \<le> n"
  by (simp only: uint_nat of_nat_le_iff)

lemma uint_word_eq: "uint (w :: 'a::len word) = uint v \<longleftrightarrow> w = v"
  by (metis word_of_int_uint)

lemma response_decoded_Inr:
  assumes "length p = 4" "take 4 (p @ x) = magic" "uint (hs :: u16) = 32"
    "uint ps \<le> 479" "length r1 = 1" "uint (av :: u8) = 1" "length r8 = 8" "length r2 = 2"
    "length p2 = 2" "length rest = unat ps"
    and data: "data = p @ le_bytes hs @ le_bytes ps @ r1 @ le_bytes dv @ le_bytes av
      @ le_bytes rid @ le_bytes blk @ r8 @ le_bytes sv @ le_bytes st @ r2 @ le_bytes ex @ p2 @ rest"
  shows "response_decoded data
    (Inr \<lparr>payload_size = ps, division = Division (uint (dv :: u8)), ack = True, request_id = rid,
       block_number = blk, resp_service = sv, status = st, extra_status = ex\<rparr>, rest)"
proof -
  have p: "p = magic" using assms(1,2) by simp
  have hs: "hs = 32" and av: "av = 1"
    using assms(3,6) uint_word_eq [of hs 32] uint_word_eq [of av 1] by simp_all
  obtain r where r: "r1 = [r]" using assms(5) by (auto simp: length_Suc_conv)
  have "uint dv < 2 ^ LENGTH(8)" by (rule unsigned_less)
  then have "uint dv \<le> 255" by simp
  moreover have "unat ps \<le> 479" using assms(4) unfolding uint_nat by linarith
  moreover define h where "h = \<lparr>payload_size = ps, division = Division (uint dv), ack = True,
    request_id = rid, block_number = blk, resp_service = sv, status = st, extra_status = ex\<rparr>"
  ultimately have "response_header_ok h" and l: "length rest = unat (payload_size h)"
    using assms(10) by (simp_all add: response_header_ok_def max_payload_size_def)
  moreover have "data = response_bytes h r r8 r2 p2 rest"
    by (simp add: response_bytes_def data p hs av r h_def)
  ultimately show ?thesis
    using assms(7-9) unfolding response_decoded_def h_def [symmetric] prod.case sum.case by blast
qed

lemma decodeResponseHeader_holds: "holds (response_decoded data) (decodeResponseHeader data)"
  unfolding decodeResponseHeader_def Let_def
  apply (intro holds_rules)
  apply (simp_all add: code_expect header_size_def max_payload_size_def)[29]
  apply (rule response_decoded_Inr)
  apply (auto simp: header_size_def max_payload_size_def)
  done

text \<open>Conversely every datagram of that layout is accepted.\<close>

lemma length_magic [simp, codec_len]: "length magic = 4"
  by (simp add: magic_def)

lemma take_magic: "take 4 (magic @ data) = magic"
  by (simp add: magic_def)

lemma remove_magic [codec_simps]: "remove_prefix 4 (magic @ data) = Some data"
  by (simp add: remove_prefix_def magic_def)

lemma length_response_bytes [codec_len]:
  "length r8 = 8 \<Longrightarrow> length r2 = 2 \<Longrightarrow> length p2 = 2 \<Longrightarrow>
   length (response_bytes h r1 r8 r2 p2 payload) = header_size + length payload"
  by (simp add: response_bytes_def header_size_def)

lemma division_of_byte:
  "division_value d \<in> {0..255} \<Longrightarrow>
   Division (uint (word_of_int (division_value d) :: u8)) = d"
  by (cases d) (simp add: uint_word_of_int take_bit_int_eq_self)

lemma decodeResponseHeader_complete:
  assumes len: "length r8 = 8" "length r2 = 2" "length p2 = 2"
    and h: "response_header_ok h" and pl: "length payload = unat (payload_size h)"
  shows "decodeResponseHeader (response_bytes h r1 r8 r2 p2 payload) = Some (Inr h, payload)"
proof -
  let ?data = "response_bytes h r1 r8 r2 p2 payload"
  have l: "length ?data = header_size + unat (payload_size h)"
    using length_response_bytes [OF len] pl by simp
  have e: "\<not> int max_payload_size < uint (payload_size h)"
    using h by (simp add: not_less uint_le_int response_header_ok_def)
  have d: "Division (uint (word_of_int (division_value (division h)) :: u8)) = division h"
    using h by (intro division_of_byte) (simp add: response_header_ok_def)
  have a: "ack h" using h by (simp add: response_header_ok_def)
  have r: "\<lparr>payload_size = payload_size h, division = division h, ack = True,
      request_id = request_id h, block_number = block_number h, resp_service = resp_service h,
      status = status h, extra_status = extra_status h\<rparr> = h"
    using a by simp
  have m: "take 4 ?data = magic" unfolding response_bytes_def by (rule take_magic)
  show ?thesis
    unfolding decodeResponseHeader_def Let_def l m
    by (simp add: response_bytes_def codec_simps header_size_def e d len r)
qed

lemma decodeResponseHeader_iff:
  "decodeResponseHeader data = Some (Inr h, rest) \<longleftrightarrow>
     response_header_ok h \<and> length rest = unat (payload_size h)
     \<and> (\<exists>r1 r8 r2 p2. length r8 = 8 \<and> length r2 = 2 \<and> length p2 = 2
         \<and> data = response_bytes h r1 r8 r2 p2 rest)"
  using holdsD [OF decodeResponseHeader_holds, of data "(Inr h, rest)"] decodeResponseHeader_complete
  by (auto simp: response_decoded_def)

lemma decodeResponseHeader_error:
  "decodeResponseHeader data = Some (Inl e, rest) \<Longrightarrow> code e = make_error_code malformed_response"
  using holdsD [OF decodeResponseHeader_holds, of data "(Inl e, rest)"] by simp

section \<open>Properties\<close>

text \<open>
  C20: A response header is accepted exactly when the datagram has the layout of a response:
  magic bytes, header size 32, a payload size of at most 479 that is the number of bytes
  behind the header, and the acknowledge byte 1. The decoded fields are those of the datagram,
  the view is left at the payload, and every other datagram is refused with a malformed
  response error without being read outside.
\<close>

theorem response_header_accepted_exactly:
  "(decodeResponseHeader data = Some (Inr h, rest) \<longleftrightarrow>
     response_header_ok h \<and> length rest = unat (payload_size h)
     \<and> (\<exists>r1 r8 r2 p2. length r8 = 8 \<and> length r2 = 2 \<and> length p2 = 2
         \<and> data = response_bytes h r1 r8 r2 p2 rest))
   \<and> (\<exists>r rest'. decodeResponseHeader data = Some (r, rest')
      \<and> (case r of Inl e \<Rightarrow> code e = make_error_code malformed_response | Inr _ \<Rightarrow> True))"
proof
  show "decodeResponseHeader data = Some (Inr h, rest) \<longleftrightarrow>
     response_header_ok h \<and> length rest = unat (payload_size h)
     \<and> (\<exists>r1 r8 r2 p2. length r8 = 8 \<and> length r2 = 2 \<and> length p2 = 2
         \<and> data = response_bytes h r1 r8 r2 p2 rest)"
    by (rule decodeResponseHeader_iff)
  show "\<exists>r rest'. decodeResponseHeader data = Some (r, rest')
      \<and> (case r of Inl e \<Rightarrow> code e = make_error_code malformed_response | Inr _ \<Rightarrow> True)"
    using decodeResponseHeader_holds [of data]
    by (auto simp: holds_def response_decoded_def split: sum.splits)
qed

text \<open>
  A request header is sent as 32 bytes from which every field can be recovered: two robot
  requests with the same bytes have the same payload size, command, instance, attribute,
  service and request id, and no robot request has the bytes of a file request.
\<close>

theorem request_header_determines_fields:
  "length (encode_RequestHeader [] (makeRobotRequestHeader n c i a s r)) = header_size
   \<and> (encode_RequestHeader [] (makeRobotRequestHeader n c i a s r)
        = encode_RequestHeader [] (makeRobotRequestHeader n' c' i' a' s' r')
      \<longleftrightarrow> n = n' \<and> c = c' \<and> i = i' \<and> a = a' \<and> s = s' \<and> r = r')
   \<and> encode_RequestHeader [] (makeRobotRequestHeader n c i a s r)
        \<noteq> encode_RequestHeader [] (makeFileRequestHeader n' s' r' b k)"
  using header_image_inject [of "makeRobotRequestHeader n c i a s r" "makeRobotRequestHeader n' c' i' a' s' r'"]
    header_image_inject [of "makeRobotRequestHeader n c i a s r" "makeFileRequestHeader n' s' r' b k"]
  by (auto simp: encode_RequestHeader_eq makeRobotRequestHeader_def makeFileRequestHeader_def)

end
