(* ===== verification/Codec.thy ===== *)
theory Codec
  imports Little_Endian
begin

text \<open>
  The interface between the encodings of single values (\<open>src/udp/encode.cpp\<close>,
  \<open>src/udp/decode.cpp\<close>) and the templates of \<open>src/udp/protocol.cpp\<close> that send and receive
  one or many of them.  The templates are instantiated with an \<open>encode\<close>, a \<open>decode\<close> and an
  \<open>encoded_size\<close>; what they rely on is stated by three locales: an encoder that appends
  exactly \<open>sz\<close> bytes, a decoder that stays inside \<open>sz\<close> bytes and removes them, and a codec
  whose decoder inverts its encoder on the values \<open>valid\<close> describes.
\<close>

section \<open>The loops over values\<close>

fun encode_all :: "(bytes \<Rightarrow> 'a \<Rightarrow> bytes outcome) \<Rightarrow> bytes \<Rightarrow> 'a list \<Rightarrow> bytes outcome" where
  "encode_all enc out [] = Returns out"
| "encode_all enc out (v # vs) = obind (enc out v) (\<lambda>out. encode_all enc out vs)"

fun decode_loop ::
    "(bytes \<Rightarrow> ('a result \<times> bytes) option) \<Rightarrow> nat \<Rightarrow> bytes \<Rightarrow> 'a list
     \<Rightarrow> ('a list result \<times> bytes) option" where
  "decode_loop dec 0 message result = Some (Inr result, message)"
| "decode_loop dec (Suc n) message result =
     do { (decoded, message) \<leftarrow> dec message;
          case decoded of
            Inl e \<Rightarrow> Some (Inl e, message)
          | Inr v \<Rightarrow> decode_loop dec n message (result @ [v]) }"

section \<open>Encoders\<close>

locale value_encoder =
  fixes enc :: "bytes \<Rightarrow> 'a \<Rightarrow> bytes outcome" and sz :: nat
  assumes enc_append: "enc out v = obind (enc [] v) (\<lambda>bs. Returns (out @ bs))"
    and enc_size: "enc [] v = Returns bs \<Longrightarrow> length bs = sz"
begin

lemma enc_out:
  "enc [] v = Returns b \<Longrightarrow> enc out v = Returns (out @ b)"
  "enc [] v = Throws e \<Longrightarrow> enc out v = Throws e"
  "enc [] v = Undefined \<Longrightarrow> enc out v = Undefined"
  "enc [] v = Diverges \<Longrightarrow> enc out v = Diverges"
  using enc_append [of out v] by simp_all

lemma encode_all_append:
  "encode_all enc out vs = obind (encode_all enc [] vs) (\<lambda>bs. Returns (out @ bs))"
proof (induction vs arbitrary: out)
  case Nil
  then show ?case by simp
next
  case (Cons v vs)
  show ?case
  proof (cases "enc [] v")
    case (Returns b)
    then show ?thesis
      using Cons.IH [of "out @ b"] Cons.IH [of b] enc_out(1) [OF Returns, of out]
      by (cases "encode_all enc [] vs") simp_all
  next
    case (Throws e)
    then show ?thesis using enc_out(2) [OF Throws, of out] by simp
  next
    case Undefined
    then show ?thesis using enc_out(3) [OF Undefined, of out] by simp
  next
    case Diverges
    then show ?thesis using enc_out(4) [OF Diverges, of out] by simp
  qed
qed

lemma encode_all_Cons:
  "encode_all enc [] (v # vs) = Returns bs \<longleftrightarrow>
     (\<exists>b cs. enc [] v = Returns b \<and> encode_all enc [] vs = Returns cs \<and> bs = b @ cs)"
proof (cases "enc [] v")
  case (Returns b)
  then show ?thesis using encode_all_append [of b vs] by auto
qed simp_all

lemma encode_all_size: "encode_all enc [] vs = Returns bs \<Longrightarrow> length bs = length vs * sz"
  by (induction vs arbitrary: bs) (auto simp: encode_all_Cons enc_size simp del: encode_all.simps(2))

end

section \<open>Decoders\<close>

text \<open>A decode step: refused, or a value and the view moved on by \<open>sz\<close> bytes.\<close>

definition decodes_to :: "nat \<Rightarrow> bytes \<Rightarrow> 'a result \<times> bytes \<Rightarrow> bool" where
  "decodes_to sz data = (\<lambda>(r, rest).
     case r of Inl e \<Rightarrow> code e = make_error_code malformed_response
     | Inr v \<Rightarrow> rest = drop sz data)"

lemma decodes_to_simps [simp]:
  "decodes_to sz data (Inl e, rest) \<longleftrightarrow> code e = make_error_code malformed_response"
  "decodes_to sz data (Inr v, rest) \<longleftrightarrow> rest = drop sz data"
  by (simp_all add: decodes_to_def)

locale value_decoder =
  fixes dec :: "bytes \<Rightarrow> ('a result \<times> bytes) option" and sz :: nat
  assumes dec_holds: "sz \<le> length data \<Longrightarrow> holds (decodes_to sz data) (dec data)"
begin

lemma decode_loop_holds:
  "n * sz \<le> length data \<Longrightarrow>
   holds (\<lambda>(r, rest). decodes_to (n * sz) data (r, rest)
            \<and> (\<forall>vs. r = Inr vs \<longrightarrow> length vs = length acc + n))
     (decode_loop dec n data acc)"
proof (induction n arbitrary: data acc)
  case 0
  then show ?case by simp
next
  case (Suc n)
  then have "sz \<le> length data" by simp
  from dec_holds [OF this] obtain r rest
    where d: "dec data = Some (r, rest)" and r: "decodes_to sz data (r, rest)"
    by (auto simp: holds_def)
  show ?case
  proof (cases r)
    case (Inl e)
    with d r show ?thesis by simp
  next
    case (Inr v)
    with r have rest: "rest = drop sz data" by simp
    with Suc.prems have "n * sz \<le> length rest" by simp
    from Suc.IH [OF this, of "acc @ [v]"] show ?thesis
      by (auto simp: d Inr rest ac_simps decodes_to_def elim!: holds_mono split: sum.splits)
  qed
qed

end

section \<open>Codecs\<close>

locale value_codec = value_encoder enc sz + value_decoder dec sz
  for enc :: "bytes \<Rightarrow> 'a \<Rightarrow> bytes outcome" and sz :: nat
    and dec :: "bytes \<Rightarrow> ('a result \<times> bytes) option" +
  fixes valid :: "'a \<Rightarrow> bool"
  assumes enc_valid: "valid v \<Longrightarrow> \<exists>bs. enc [] v = Returns bs"
    and dec_enc: "valid v \<Longrightarrow> enc [] v = Returns bs \<Longrightarrow> dec (bs @ rest) = Some (Inr v, rest)"
begin

lemma encode_all_valid: "\<forall>v \<in> set vs. valid v \<Longrightarrow> \<exists>bs. encode_all enc [] vs = Returns bs"
proof (induction vs)
  case Nil
  then show ?case by simp
next
  case (Cons v vs)
  then show ?case using enc_valid [of v]
    by (fastforce simp: encode_all_Cons simp del: encode_all.simps(2))
qed

lemma decode_loop_encode_all:
  "\<forall>v \<in> set vs. valid v \<Longrightarrow> encode_all enc [] vs = Returns bs \<Longrightarrow>
   decode_loop dec (length vs) (bs @ rest) acc = Some (Inr (acc @ vs), rest)"
proof (induction vs arbitrary: bs acc)
  case Nil
  then show ?case by simp
next
  case (Cons v vs)
  then obtain b cs where b: "enc [] v = Returns b" and cs: "encode_all enc [] vs = Returns cs"
    and bs: "bs = b @ cs"
    by (auto simp: encode_all_Cons simp del: encode_all.simps(2))
  have "dec (b @ cs @ rest) = Some (Inr v, cs @ rest)"
    by (rule dec_enc) (use Cons.prems(1) b in auto)
  moreover have "decode_loop dec (length vs) (cs @ rest) (acc @ [v]) = Some (Inr (acc @ v # vs), rest)"
    using Cons.IH [OF _ cs, of "acc @ [v]"] Cons.prems(1) by simp
  ultimately show ?case by (simp add: bs)
qed

end

end
