(* ===== verification/Values.thy ===== *)
theory Values
  imports Codec Types
begin

text \<open>
  The encodings of single values: the \<open>encode\<close> overloads of \<open>src/udp/encode.cpp\<close> and the
  \<open>decode\<close> specialisations of \<open>src/udp/decode.cpp\<close> for the B, I, D, R and P variables
  (\<open>std::uint8_t\<close>, \<open>std::int16_t\<close>, \<open>std::int32_t\<close>, \<open>float\<close> and \<open>Position\<close>).
  A \<open>float\<close> is its 32 bits, which is all the two functions look at.
  The four scalar types and complete pulse positions are codecs; a Cartesian coordinate comes
  back within one unit of the wire.
\<close>

section \<open>Scalars\<close>

datatype float32 = Float32 (float_bits: u32)

definition encode_uint8 :: "bytes \<Rightarrow> u8 \<Rightarrow> bytes outcome" where
  "encode_uint8 out val = Returns (writeLittleEndian out val)"

definition encode_int16 :: "bytes \<Rightarrow> i16 \<Rightarrow> bytes outcome" where
  "encode_int16 out val = Returns (writeLittleEndian_signed out val)"

definition encode_int32 :: "bytes \<Rightarrow> i32 \<Rightarrow> bytes outcome" where
  "encode_int32 out val = Returns (writeLittleEndian_signed out val)"

definition encode_float :: "bytes \<Rightarrow> float32 \<Rightarrow> bytes outcome" where
  "encode_float out val = Returns (writeLittleEndian out (float_bits val))"

definition decode_uint8 :: "bytes \<Rightarrow> (u8 result \<times> bytes) option" where
  "decode_uint8 data = do { (v, data) \<leftarrow> readLittleEndian data; Some (Inr v, data) }"

definition decode_int16 :: "bytes \<Rightarrow> (i16 result \<times> bytes) option" where
  "decode_int16 data = do { (v, data) \<leftarrow> readLittleEndian data; Some (Inr v, data) }"

definition decode_int32 :: "bytes \<Rightarrow> (i32 result \<times> bytes) option" where
  "decode_int32 data = do { (v, data) \<leftarrow> readLittleEndian data; Some (Inr v, data) }"

definition decode_float :: "bytes \<Rightarrow> (float32 result \<times> bytes) option" where
  "decode_float data =
     do { (integral, data) \<leftarrow> readLittleEndian data; Some (Inr (Float32 integral), data) }"

section \<open>Encoding positions\<close>

definition encodeFrameType :: "CoordinateSystem \<Rightarrow> u32 outcome" where
  "encodeFrameType frame =
     (if isUserCoordinateSystem frame then Returns 19
      else if frame = CS_base then Returns 16
      else if frame = CS_robot then Returns 17
      else if frame = CS_tool then Returns 18
      else Throws (Logic_error
        (''unknown coordinate system type: '' @ to_string (cs_value frame))))"

definition encode_PulsePosition :: "bytes \<Rightarrow> PulsePosition \<Rightarrow> bytes outcome" where
  "encode_PulsePosition out position =
     (let out = writeLittleEndian out (0 :: u32);
          out = writeLittleEndian out (0 :: u32);
          out = writeLittleEndian out (pp_tool position);
          out = writeLittleEndian out (0 :: u32);
          out = writeLittleEndian out (0 :: u32)
      in obind (of_read (joints position)) (\<lambda>js.
         let out = foldl writeLittleEndian_signed out js
         in Returns (foldl (\<lambda>out i. writeLittleEndian_signed out (0 :: i32)) out
              [length js..<8])))"

text \<open>A coordinate is scaled, converted to \<open>std::int32_t\<close> and written.\<close>

definition encode_coordinate :: "bytes \<Rightarrow> double \<Rightarrow> rat \<Rightarrow> bytes outcome" where
  "encode_coordinate out coord scale =
     obind (of_read (double_to_int32 (dmul coord (Finite scale))))
       (\<lambda>v. Returns (writeLittleEndian_signed out v))"

definition encode_CartesianPosition :: "bytes \<Rightarrow> CartesianPosition \<Rightarrow> bytes outcome" where
  "encode_CartesianPosition out position =
     obind (encodeFrameType (cp_frame position)) (\<lambda>frame_type.
       let out = writeLittleEndian out frame_type;
           out = writeLittleEndian out (ucast (PoseConfiguration_to_u8 (cp_type position)) :: u32);
           out = writeLittleEndian out (cp_tool position);
           out = writeLittleEndian out (word_of_int (userCoordinateNumber (cp_frame position)) :: u32);
           out = writeLittleEndian out (0 :: u32)
       in obind (encode_coordinate out (cp_x position) 1000) (\<lambda>out.
          obind (encode_coordinate out (cp_y position) 1000) (\<lambda>out.
          obind (encode_coordinate out (cp_z position) 1000) (\<lambda>out.
          obind (encode_coordinate out (cp_rx position) 10000) (\<lambda>out.
          obind (encode_coordinate out (cp_ry position) 10000) (\<lambda>out.
          obind (encode_coordinate out (cp_rz position) 10000) (\<lambda>out.
            let out = writeLittleEndian_signed out (0 :: i32);
                out = writeLittleEndian_signed out (0 :: i32)
            in Returns out)))))))"

primrec encode_Position :: "bytes \<Rightarrow> Position \<Rightarrow> bytes outcome" where
  "encode_Position out (Pulse p) = encode_PulsePosition out p"
| "encode_Position out (Cartesian p) = encode_CartesianPosition out p"

section \<open>Decoding positions\<close>

definition decodeCartesianFrame :: "int \<Rightarrow> int \<Rightarrow> CoordinateSystem result" where
  "decodeCartesianFrame type user_frame =
     (if type = 16 then Inr CS_base
      else if type = 17 then Inr CS_robot
      else if type = 18 then Inr CS_tool
      else if type = 19
      then (let e = expectValueMax ''user frame'' user_frame 15
            in if is_error e then Inl e else Inr (userCoordinateSystem user_frame))
      else Inl (malformedResponse
        (''unknown position type ('' @ to_string type @ ''), expected 16, 17, 18 or 19'')))"

fun decode_joints :: "nat list \<Rightarrow> PulsePosition \<Rightarrow> bytes \<Rightarrow> (PulsePosition \<times> bytes) option" where
  "decode_joints [] result data = Some (result, data)"
| "decode_joints (i # is) result data =
     do { (v, data) \<leftarrow> readLittleEndian data; decode_joints is (set_joint result i v) data }"

definition int32_over :: "i32 \<Rightarrow> rat \<Rightarrow> double" where
  "int32_over v divisor = ddiv_const (double_of_int (sint v)) divisor"

definition decode_Position :: "bytes \<Rightarrow> (Position result \<times> bytes) option" where
  "decode_Position data =
     do { (type :: u32, data) \<leftarrow> readLittleEndian data;
          (configuration32 :: u32, data) \<leftarrow> readLittleEndian data;
          (tool :: u32, data) \<leftarrow> readLittleEndian data;
          (user_frame :: u32, data) \<leftarrow> readLittleEndian data;
          (extended_configuration :: u32, data) \<leftarrow> readLittleEndian data;
          if type = 0 then do {
            (result, data) \<leftarrow> decode_joints [0..<8] (PulsePosition_of_size 8 tool) data;
            Some (Inr (Pulse result), data)
          }
          else case decodeCartesianFrame (sint type) (sint user_frame) of
            Inl e \<Rightarrow> Some (Inl e, data)
          | Inr frame \<Rightarrow> do {
              (x :: i32, data) \<leftarrow> readLittleEndian data;
              (y :: i32, data) \<leftarrow> readLittleEndian data;
              (z :: i32, data) \<leftarrow> readLittleEndian data;
              (rx :: i32, data) \<leftarrow> readLittleEndian data;
              (ry :: i32, data) \<leftarrow> readLittleEndian data;
              (rz :: i32, data) \<leftarrow> readLittleEndian data;
              data \<leftarrow> remove_prefix 8 data;
              Some (Inr (Cartesian
                \<lparr>cp_x = int32_over x 1000, cp_y = int32_over y 1000, cp_z = int32_over z 1000,
                 cp_rx = int32_over rx 10000, cp_ry = int32_over ry 10000,
                 cp_rz = int32_over rz 10000, cp_frame = frame,
                 cp_type = PoseConfiguration_of_u8 (ucast configuration32),
                 cp_tool = tool\<rparr>), data)
            } }"

section \<open>The scalar codecs\<close>

interpretation uint8: value_codec encode_uint8 1 decode_uint8 "\<lambda>_. True"
  by unfold_locales
    (auto simp: encode_uint8_def decode_uint8_def writeLittleEndian_eq codec_simps read_defined)

interpretation int16: value_codec encode_int16 2 decode_int16 "\<lambda>_. True"
  by unfold_locales
    (auto simp: encode_int16_def decode_int16_def writeLittleEndian_signed_eq codec_simps read_defined)

interpretation int32: value_codec encode_int32 4 decode_int32 "\<lambda>_. True"
  by unfold_locales
    (auto simp: encode_int32_def decode_int32_def writeLittleEndian_signed_eq codec_simps read_defined)

interpretation float: value_codec encode_float 4 decode_float "\<lambda>_. True"
  by unfold_locales
    (auto simp: encode_float_def decode_float_def writeLittleEndian_eq codec_simps read_defined)

section \<open>Encoded positions\<close>

definition pulse_image :: "i32 \<Rightarrow> i32 list \<Rightarrow> bytes" where
  "pulse_image tool js =
     le_bytes (0 :: u32) @ le_bytes (0 :: u32) @ le_bytes tool @ le_bytes (0 :: u32)
     @ le_bytes (0 :: u32) @ concat (map le_bytes (js @ replicate (8 - length js) 0))"

definition cartesian_image :: "u32 \<Rightarrow> u32 \<Rightarrow> i32 \<Rightarrow> u32 \<Rightarrow> i32 list \<Rightarrow> bytes" where
  "cartesian_image frame_type conf tool user coords =
     le_bytes frame_type @ le_bytes conf @ le_bytes tool @ le_bytes user @ le_bytes (0 :: u32)
     @ concat (map le_bytes coords) @ le_bytes (0 :: i32) @ le_bytes (0 :: i32)"

lemma foldl_write: "foldl writeLittleEndian_signed out js = out @ concat (map le_bytes js)"
  by (induction js arbitrary: out) (auto simp: writeLittleEndian_signed_eq)

lemma foldl_write_const:
  "foldl (\<lambda>out i. writeLittleEndian_signed out v) out xs
   = out @ concat (map le_bytes (replicate (length xs) v))"
  by (induction xs arbitrary: out) (auto simp: writeLittleEndian_signed_eq)

lemma encode_PulsePosition_eq:
  "encode_PulsePosition out p =
     obind (of_read (joints p)) (\<lambda>js. Returns (out @ pulse_image (pp_tool p) js))"
  by (simp add: encode_PulsePosition_def writeLittleEndian_eq foldl_write foldl_write_const
      pulse_image_def Let_def)

text \<open>The integer a coordinate is sent as.\<close>

definition wire_coordinate :: "double \<Rightarrow> rat \<Rightarrow> i32 outcome" where
  "wire_coordinate coord scale = of_read (double_to_int32 (dmul coord (Finite scale)))"

lemma encode_coordinate_eq:
  "encode_coordinate out coord scale =
     obind (wire_coordinate coord scale) (\<lambda>v. Returns (out @ le_bytes v))"
  by (simp add: encode_coordinate_def wire_coordinate_def writeLittleEndian_signed_eq)

lemma encode_CartesianPosition_eq:
  "encode_CartesianPosition out p =
     obind (encodeFrameType (cp_frame p)) (\<lambda>ft.
     obind (wire_coordinate (cp_x p) 1000) (\<lambda>x.
     obind (wire_coordinate (cp_y p) 1000) (\<lambda>y.
     obind (wire_coordinate (cp_z p) 1000) (\<lambda>z.
     obind (wire_coordinate (cp_rx p) 10000) (\<lambda>rx.
     obind (wire_coordinate (cp_ry p) 10000) (\<lambda>ry.
     obind (wire_coordinate (cp_rz p) 10000) (\<lambda>rz.
       Returns (out @ cartesian_image ft (ucast (PoseConfiguration_to_u8 (cp_type p))) (cp_tool p)
         (word_of_int (userCoordinateNumber (cp_frame p))) [x, y, z, rx, ry, rz]))))))))"
  by (simp add: encode_CartesianPosition_def writeLittleEndian_eq writeLittleEndian_signed_eq
      encode_coordinate_eq obind_assoc cartesian_image_def)

lemma length_concat_le_bytes: "length (concat (map le_bytes (js :: i32 list))) = 4 * length js"
  by (induction js) auto

lemma length_pulse_image: "length js \<le> 8 \<Longrightarrow> length (pulse_image tool js) = 52"
  by (simp add: pulse_image_def length_concat_le_bytes del: map_append concat_append map_replicate)

lemma length_cartesian_image: "length cs = 6 \<Longrightarrow> length (cartesian_image ft c t u cs) = 52"
  by (simp add: cartesian_image_def length_concat_le_bytes)

lemma joints_length: "joints p = Some js \<Longrightarrow> length js \<le> 8"
proof -
  assume a: "joints p = Some js"
  have "i < 8" if "i < pp_size p" for i
  proof (rule ccontr)
    assume "\<not> i < 8"
    then have "None \<in> set (map (joint_at p) [0..<pp_size p])"
      using that by (auto simp: joint_at_def image_iff intro!: bexI [of _ i])
    then have "those (map (joint_at p) [0..<pp_size p]) = None"
      by (rule those_None)
    with a show False by (simp add: joints_def)
  qed
  from this [of "length js - 1"] show ?thesis
    using those_length [OF a [unfolded joints_def]] by (cases "length js") auto
qed

text \<open>Every position that can be encoded takes 52 bytes.\<close>

interpretation position_encoder: value_encoder encode_Position 52
proof unfold_locales
  fix out :: bytes and v :: Position
  show "encode_Position out v = obind (encode_Position [] v) (\<lambda>bs. Returns (out @ bs))"
    by (cases v)
      (simp_all add: encode_PulsePosition_eq encode_CartesianPosition_eq obind_assoc)
next
  fix v :: Position and bs :: bytes
  show "encode_Position [] v = Returns bs \<Longrightarrow> length bs = 52"
    by (cases v)
      (auto simp: encode_PulsePosition_eq encode_CartesianPosition_eq length_cartesian_image
        of_read_def joints_length length_pulse_image split: option.splits)
qed

section \<open>Decoded positions\<close>

text \<open>The joint loop writes the next eight values from the buffer to the next eight joints.\<close>

lemma decode_joints_holds:
  "4 * length is \<le> length data \<Longrightarrow>
   holds (\<lambda>(p, rest). rest = drop (4 * length is) data) (decode_joints is result data)"
proof (induction "is" arbitrary: result data)
  case Nil
  then show ?case by simp
next
  case (Cons i "is")
  from Cons.IH [of "drop 4 data"] Cons.prems
  show ?case by (simp add: read_defined ac_simps)
qed

lemma decode_joints_values:
  "length vs = length is \<Longrightarrow>
   decode_joints is result (concat (map le_bytes vs) @ rest)
   = Some (foldl (\<lambda>p (i, v). set_joint p i v) result (zip is vs), rest)"
  by (induction vs "is" arbitrary: result rest rule: list_induct2) (simp_all add: codec_simps)

lemma decode_joints_position:
  assumes "length js = 8"
  shows "foldl (\<lambda>p (i, v). set_joint p i v) (PulsePosition_of_size 8 tool) (zip [0..<8] js)
    = PulsePosition_of_array js tool"
proof -
  obtain a b c d e f g h where "js = [a, b, c, d, e, f, g, h]"
    using assms by (auto simp: eval_nat_numeral length_Suc_conv)
  then show ?thesis
    by (simp add: eval_nat_numeral upt_rec set_joint_def PulsePosition_of_size_def
        PulsePosition_of_array_def)
qed

lemma decodeCartesianFrame_error:
  "decodeCartesianFrame t u = Inl e \<Longrightarrow> code e = make_error_code malformed_response"
  by (auto simp: decodeCartesianFrame_def Let_def code_expect split: if_splits)

lemma decodes_to_full: "length data = n \<Longrightarrow> decodes_to n (data @ d) (Inr v, d)"
  by simp

interpretation position_decoder: value_decoder decode_Position 52
proof unfold_locales
  fix data :: bytes
  assume l: "52 \<le> length data"
  show "holds (decodes_to 52 data) (decode_Position data)"
    unfolding decode_Position_def
    apply (rule holds_read, simp, use l in simp)+
    apply (rule holds_if)
     apply (rule holds_bind [OF decode_joints_holds])
    using l apply simp
    using l apply auto[1]
    apply (split sum.split, intro conjI allI impI)
     apply (rule holds_SomeI, simp add: decodeCartesianFrame_error)
    apply (rule holds_read, simp, use l in simp)+
    apply (rule holds_remove_prefix, use l in simp)
    apply (rule holds_SomeI)
    apply simp
    done
qed

text \<open>The position of a response, field by field.\<close>

lemma decode_pulse_image:
  "length js \<le> 8 \<Longrightarrow>
   decode_Position (pulse_image tool js @ rest)
   = Some (Inr (Pulse (PulsePosition_of_array (js @ replicate (8 - length js) 0) tool)), rest)"
  by (simp add: decode_Position_def pulse_image_def codec_simps decode_joints_values
      decode_joints_position del: map_append concat_append map_replicate)

text \<open>A pulse position is sent with eight joints, so it comes back as it is when it has eight.\<close>

definition is_full_pulse :: "Position \<Rightarrow> bool" where
  "is_full_pulse p \<longleftrightarrow> (\<exists>js tool. length js = 8 \<and> p = Pulse (PulsePosition_of_array js tool))"

interpretation full_pulse: value_codec encode_Position 52 decode_Position is_full_pulse
proof unfold_locales
  fix v bs rest
  assume "is_full_pulse v"
  then obtain js tool where v: "v = Pulse (PulsePosition_of_array js tool)" "length js = 8"
    by (auto simp: is_full_pulse_def)
  then have "encode_Position [] v = Returns (pulse_image tool js)"
    by (simp add: encode_PulsePosition_eq joints_of_array of_read_def)
       (simp add: PulsePosition_of_array_def)
  then show "\<exists>bs. encode_Position [] v = Returns bs"
    and "encode_Position [] v = Returns bs \<Longrightarrow> decode_Position (bs @ rest) = Some (Inr v, rest)"
    using v decode_pulse_image [of js tool rest] by auto
qed

section \<open>Cartesian positions there and back\<close>

text \<open>
  The wire's own view of a frame: a frame type and a user coordinate number.  The encoder
  only produces these for the frames it knows; \<open>user16\<close> is the one the decoder refuses.
\<close>

definition wire_frame :: "u32 \<Rightarrow> u32 \<Rightarrow> bool" where
  "wire_frame ft user \<longleftrightarrow> (ft \<in> {16, 17, 18} \<and> user = 0) \<or> (ft = 19 \<and> 1 \<le> user \<and> user \<le> 15)"

definition near :: "i32 \<Rightarrow> i32 \<Rightarrow> bool" where
  "near m c \<longleftrightarrow> m = c \<or> sint m = sint c - sgn (sint c)"

lemma wire_coordinate_int32_over:
  "wire_coordinate (int32_over v (of_int c)) (of_int c) = of_read (rescale c (sint v))"
  by (simp add: wire_coordinate_def int32_over_def rescale_def)

lemma wire_coordinate_near:
  assumes "0 < c" "c \<le> 2 ^ 20"
  shows "\<exists>m. wire_coordinate (int32_over v (of_int c)) (of_int c) = Returns m \<and> near m v"
proof -
  have b: "- (2 ^ 31) \<le> sint v" "sint v < 2 ^ 31"
    using sint_ge [of v] sint_less [of v] by simp_all
  then obtain m where m: "rescale c (sint v) = Some (word_of_int m)"
    and m': "m = sint v \<or> m = sint v - sgn (sint v)"
    using rescale_within_one [OF b assms] by blast
  have "- (2 ^ 31) \<le> m \<and> m < 2 ^ 31" using b m' by (auto simp: sgn_if)
  then have "sint (word_of_int m :: i32) = m" by (simp add: int_word_sint)
  with m' have "near (word_of_int m) v"
    by (cases "m = sint v") (simp_all add: near_def)
  with m show ?thesis by (auto simp: wire_coordinate_int32_over of_read_def)
qed

lemmas coordinate_near =
  wire_coordinate_near [where c = 1000, simplified] wire_coordinate_near [where c = 10000, simplified]

lemma user_number_cases:
  assumes "1 \<le> (user :: u32)" "user \<le> 15"
  obtains n where "user = of_nat n" "n \<in> {1, 2, 3, 4, 5, 6, 7, 8, 9, 10, 11, 12, 13, 14, 15}"
proof
  show "user = of_nat (unat user)" by simp
  have "1 \<le> unat user" "unat user \<le> 15"
    using assms by (simp_all add: word_le_nat_alt)
  then show "unat user \<in> {1, 2, 3, 4, 5, 6, 7, 8, 9, 10, 11, 12, 13, 14, 15}"
    by simp presburger
qed

lemma decodeCartesianFrame_wire:
  assumes "wire_frame ft user"
  shows "\<exists>f. decodeCartesianFrame (sint ft) (sint user) = Inr f \<and> encodeFrameType f = Returns ft
    \<and> word_of_int (userCoordinateNumber f) = user"
proof (cases "ft = 19")
  case True
  with assms have "1 \<le> user" "user \<le> 15" by (auto simp: wire_frame_def)
  then show ?thesis
    by (rule user_number_cases)
      (auto simp: True decodeCartesianFrame_def encodeFrameType_def userCoordinateNumber_def
        isUserCoordinateSystem_def userCoordinateSystem_def less_eq_CoordinateSystem_def)
next
  case False
  with assms show ?thesis
    by (auto simp: wire_frame_def decodeCartesianFrame_def encodeFrameType_def
        userCoordinateNumber_def isUserCoordinateSystem_def less_eq_CoordinateSystem_def)
qed

lemma pose_of_wire:
  assumes "conf < 64"
  shows "ucast (PoseConfiguration_to_u8 (PoseConfiguration_of_u8 (ucast conf))) = (conf :: u32)"
proof (rule bit_word_eqI)
  fix n
  have "uint conf < 2 ^ 6" using assms by (simp add: word_less_def)
  then have "take_bit 6 (uint conf) = uint conf" by (simp add: take_bit_int_eq_self_iff)
  then have "bit (uint conf) n \<longleftrightarrow> n < 6 \<and> bit (uint conf) n" by (metis bit_take_bit_iff)
  then show "bit (ucast (PoseConfiguration_to_u8 (PoseConfiguration_of_u8 (ucast conf))) :: u32) n
      \<longleftrightarrow> bit conf n"
    by (auto simp: PoseConfiguration_to_u8_def PoseConfiguration_of_u8_def bit_simps)
qed

lemma decode_cartesian_image:
  assumes "decodeCartesianFrame (sint ft) (sint user) = Inr frame" and "ft \<noteq> 0"
  shows "decode_Position (cartesian_image ft conf tool user [x, y, z, rx, ry, rz] @ rest)
    = Some (Inr (Cartesian
        \<lparr>cp_x = int32_over x 1000, cp_y = int32_over y 1000, cp_z = int32_over z 1000,
         cp_rx = int32_over rx 10000, cp_ry = int32_over ry 10000, cp_rz = int32_over rz 10000,
         cp_frame = frame, cp_type = PoseConfiguration_of_u8 (ucast conf), cp_tool = tool\<rparr>), rest)"
  using assms by (simp add: decode_Position_def cartesian_image_def codec_simps remove_prefix_def)

section \<open>Properties\<close>

text \<open>
  A pulse position of up to eight joints is sent as 52 bytes, whatever follows them in
  the datagram, and the receiver's decoder reads the same joints and tool back, with the
  joints that were not there as zeros, and stops exactly behind the 52 bytes.
\<close>

theorem pulse_position_roundtrip:
  assumes "length js \<le> 8"
  shows "\<exists>bs. encode_Position [] (Pulse (PulsePosition_of_array js tool)) = Returns bs
    \<and> length bs = 52
    \<and> decode_Position (bs @ rest) =
        Some (Inr (Pulse (PulsePosition_of_array (js @ replicate (8 - length js) 0) tool)), rest)"
proof -
  have "encode_Position [] (Pulse (PulsePosition_of_array js tool)) = Returns (pulse_image tool js)"
    using assms by (simp add: encode_PulsePosition_eq joints_of_array of_read_def)
      (simp add: PulsePosition_of_array_def)
  with assms decode_pulse_image [of js tool rest] show ?thesis
    by (auto simp: length_pulse_image)
qed

lemma pulse_position_roundtrip_witness:
  "length [1, - 2, 3 :: i32] \<le> 8
   \<and> (\<exists>bs. encode_Position [] (Pulse (PulsePosition_of_array [1, - 2, 3] 7)) = Returns bs
    \<and> length bs = 52
    \<and> decode_Position (bs @ [9]) =
        Some (Inr (Pulse (PulsePosition_of_array [1, - 2, 3, 0, 0, 0, 0, 0] 7)), [9]))"
  using pulse_position_roundtrip [of "[1, - 2, 3]" 7 "[9]"] by (simp add: eval_nat_numeral)

text \<open>
  C21: A Cartesian position received from the controller, with a frame it may name and a pose
  configuration of six bits, can be sent back: the 52 bytes have the same frame, configuration
  and tool, and each coordinate is the received one or one unit closer to zero (the encoder
  truncates the product with the scale, it does not round it).
\<close>

theorem cartesian_reencoded:
  assumes frame: "wire_frame ft user" and conf: "conf < 64"
  shows "\<exists>p x' y' z' rx' ry' rz'.
    decode_Position (cartesian_image ft conf tool user [x, y, z, rx, ry, rz] @ rest)
      = Some (Inr (Cartesian p), rest)
    \<and> encode_Position [] (Cartesian p)
      = Returns (cartesian_image ft conf tool user [x', y', z', rx', ry', rz'])
    \<and> list_all2 near [x', y', z', rx', ry', rz'] [x, y, z, rx, ry, rz]"
proof -
  from decodeCartesianFrame_wire [OF frame] obtain f
    where f: "decodeCartesianFrame (sint ft) (sint user) = Inr f" "encodeFrameType f = Returns ft"
      "word_of_int (userCoordinateNumber f) = user" by blast
  have ft: "ft \<noteq> 0" using frame by (auto simp: wire_frame_def)
  have conf': "ucast (PoseConfiguration_to_u8 (PoseConfiguration_of_u8 (ucast conf))) = conf"
    using conf by (rule pose_of_wire)
  obtain x' y' z' where xyz: "wire_coordinate (int32_over x 1000) 1000 = Returns x'" "near x' x"
    "wire_coordinate (int32_over y 1000) 1000 = Returns y'" "near y' y"
    "wire_coordinate (int32_over z 1000) 1000 = Returns z'" "near z' z"
    using coordinate_near(1) by blast
  obtain rx' ry' rz' where r: "wire_coordinate (int32_over rx 10000) 10000 = Returns rx'" "near rx' rx"
    "wire_coordinate (int32_over ry 10000) 10000 = Returns ry'" "near ry' ry"
    "wire_coordinate (int32_over rz 10000) 10000 = Returns rz'" "near rz' rz"
    using coordinate_near(2) by blast
  let ?p = "\<lparr>cp_x = int32_over x 1000, cp_y = int32_over y 1000, cp_z = int32_over z 1000,
    cp_rx = int32_over rx 10000, cp_ry = int32_over ry 10000, cp_rz = int32_over rz 10000,
    cp_frame = f, cp_type = PoseConfiguration_of_u8 (ucast conf), cp_tool = tool\<rparr>"
  have "encode_Position [] (Cartesian ?p)
      = Returns (cartesian_image ft conf tool user [x', y', z', rx', ry', rz'])"
    by (simp add: encode_CartesianPosition_eq f conf' xyz r)
  moreover have "list_all2 near [x', y', z', rx', ry', rz'] [x, y, z, rx, ry, rz]"
    using xyz(2,4,6) r(2,4,6) by simp
  ultimately show ?thesis using decode_cartesian_image [OF f(1) ft] by blast
qed

lemma cartesian_reencoded_witness:
  "wire_frame 19 3 \<and> (5 :: u32) < 64
   \<and> (\<exists>p x' y' z' rx' ry' rz'.
    decode_Position (cartesian_image 19 5 1 3 [1001, -7, 0, 300, 1, -1] @ [])
      = Some (Inr (Cartesian p), [])
    \<and> encode_Position [] (Cartesian p)
      = Returns (cartesian_image 19 5 1 3 [x', y', z', rx', ry', rz'])
    \<and> list_all2 near [x', y', z', rx', ry', rz'] [1001, -7, 0, 300, 1, -1])"
  using cartesian_reencoded [of 19 3 5 1 1001 "-7" 0 300 1 "-1" "[]"]
  by (simp add: wire_frame_def)

text \<open>
  The decoder refuses what the encoder sends for the frame \<open>user16\<close>: the
  number 16 of the last user frame is above the limit of 15 the decoder checks, so a position
  in that frame is answered with a malformed response error although the library itself can
  send it.
\<close>

theorem user16_position_refused:
  assumes "cp_frame p = CS_user16" and "encode_Position [] (Cartesian p) = Returns bs"
  shows "\<exists>e rest'. decode_Position (bs @ rest) = Some (Inl e, rest')
    \<and> code e = make_error_code malformed_response"
proof -
  have ft: "encodeFrameType CS_user16 = Returns 19" "userCoordinateNumber CS_user16 = 16"
    by (simp_all add: encodeFrameType_def userCoordinateNumber_def isUserCoordinateSystem_def
        less_eq_CoordinateSystem_def)
  obtain e where e: "decodeCartesianFrame 19 16 = Inl e" by (simp add: decodeCartesianFrame_def)
  from assms(2) show ?thesis
    by (auto simp: encode_CartesianPosition_eq assms(1) ft cartesian_image_def decode_Position_def
        codec_simps e decodeCartesianFrame_error [OF e])
qed

definition user16_example :: CartesianPosition where
  "user16_example =
     \<lparr>cp_x = Finite 1, cp_y = Finite 0, cp_z = Finite 0, cp_rx = Finite 0, cp_ry = Finite 0,
      cp_rz = Finite 0, cp_frame = CS_user16, cp_type = 0, cp_tool = 0\<rparr>"

lemma user16_position_refused_witness:
  "\<exists>bs e rest'. encode_Position [] (Cartesian user16_example) = Returns bs
    \<and> decode_Position (bs @ [0]) = Some (Inl e, rest')
    \<and> code e = make_error_code malformed_response"
proof -
  have "wire_coordinate (Finite 1) 1000 = Returns 1000" "wire_coordinate (Finite 0) 1000 = Returns 0"
    "wire_coordinate (Finite 0) 10000 = Returns 0" "encodeFrameType CS_user16 = Returns 19"
    by code_simp+
  then have "\<exists>bs. encode_Position [] (Cartesian user16_example) = Returns bs"
    by (simp add: encode_CartesianPosition_eq user16_example_def)
  then obtain bs where "encode_Position [] (Cartesian user16_example) = Returns bs" ..
  with user16_position_refused [OF _ this, of "[0]"] show ?thesis
    by (auto simp: user16_example_def)
qed

text \<open>
  A coordinate received from the controller and sent back unchanged can lose a unit: 1001
  micrometers are decoded to 1.001 millimeters, which is sent as 1000 micrometers, because the
  product 1.001 * 1000 is below 1001 in double precision and the encoder truncates it.
\<close>

theorem coordinate_loses_a_unit:
  "wire_coordinate (int32_over 1001 1000) 1000 = Returns 1000
   \<and> encode_coordinate [] (int32_over 1001 1000) 1000 = Returns (le_bytes (1000 :: i32))"
proof -
  have "wire_coordinate (int32_over 1001 1000) 1000 = Returns 1000" by code_simp
  then show ?thesis by (simp add: encode_coordinate_eq)
qed

end
