(* ===== verification/Commands.thy ===== *)
theory Commands
  imports Values Message
begin

text \<open>
  The commands of \<open>include/yaskawa_ethernet/commands.hpp\<close>, their traits
  (\<open>udp/command_traits.hpp\<close>) and their encoders and decoders (\<open>src/udp/protocol.cpp\<close>).
  The templates over the type of a variable take the traits of that type as an argument; the
  instances are the five types the code instantiates them at.  \<open>command\<close> collects every
  command with one constructor each, so that the sessions can be stated once for all of them;
  \<open>encode_command\<close> and \<open>decode_command\<close> are the overload sets of \<open>protocol.hpp\<close>.
\<close>

section \<open>Commands\<close>

record ReadCurrentPosition =
  rcp_control_group :: i32
  rcp_coordinate_system :: CoordinateSystemType

record MoveL =
  ml_control_group :: i32
  ml_target :: CartesianPosition
  ml_speed :: Speed

record ReadVar =
  rv_index :: u8

record ReadVars =
  rvs_index :: u8
  rvs_count :: u8

record 'a WriteVar =
  wv_index :: u8
  wv_value :: 'a

record 'a WriteVars =
  wvs_index :: u8
  wvs_values :: "'a list"

record ReadFileList =
  rfl_type :: bytes

record ReadFile =
  rf_name :: bytes

record WriteFile =
  wf_name :: bytes
  wf_data :: bytes

record DeleteFile =
  df_name :: bytes

section \<open>Traits\<close>

record 'a var_traits =
  encoded_size :: nat
  udp_command_single :: robot_command
  udp_command_multi :: robot_command
  encode_value :: "bytes \<Rightarrow> 'a \<Rightarrow> bytes outcome"
  decode_value :: "bytes \<Rightarrow> ('a result \<times> bytes) option"

definition uint8_traits :: "u8 var_traits" where
  "uint8_traits = \<lparr>encoded_size = 1, udp_command_single = readwrite_int8_variable,
     udp_command_multi = readwrite_multiple_int8, encode_value = encode_uint8,
     decode_value = decode_uint8\<rparr>"

definition int16_traits :: "i16 var_traits" where
  "int16_traits = \<lparr>encoded_size = 2, udp_command_single = readwrite_int16_variable,
     udp_command_multi = readwrite_multiple_int16, encode_value = encode_int16,
     decode_value = decode_int16\<rparr>"

definition int32_traits :: "i32 var_traits" where
  "int32_traits = \<lparr>encoded_size = 4, udp_command_single = readwrite_int32_variable,
     udp_command_multi = readwrite_multiple_int32, encode_value = encode_int32,
     decode_value = decode_int32\<rparr>"

definition float_traits :: "float32 var_traits" where
  "float_traits = \<lparr>encoded_size = 4, udp_command_single = readwrite_float_variable,
     udp_command_multi = readwrite_multiple_float, encode_value = encode_float,
     decode_value = decode_float\<rparr>"

definition Position_traits :: "Position var_traits" where
  "Position_traits = \<lparr>encoded_size = 13 * 4,
     udp_command_single = readwrite_robot_position_variable,
     udp_command_multi = readwrite_multiple_robot_position, encode_value = encode_Position,
     decode_value = decode_Position\<rparr>"

lemmas traits_defs =
  uint8_traits_def int16_traits_def int32_traits_def float_traits_def Position_traits_def

section \<open>Variables\<close>

definition encodeReadVar :: "'a var_traits \<Rightarrow> bytes \<Rightarrow> u8 \<Rightarrow> ReadVar \<Rightarrow> bytes" where
  "encodeReadVar t out rid cmd =
     encode_RequestHeader out
       (makeRobotRequestHeader 0 (robot_command_code (udp_command_single t))
         (ucast (rv_index cmd)) 0 (service_value get_all) rid)"

definition encodeReadVars :: "'a var_traits \<Rightarrow> bytes \<Rightarrow> u8 \<Rightarrow> ReadVars \<Rightarrow> bytes" where
  "encodeReadVars t out rid cmd =
     (if rvs_count cmd = 1
      then encodeReadVar t out rid \<lparr>rv_index = rvs_index cmd\<rparr>
      else
        (let out = encode_RequestHeader out
               (makeRobotRequestHeader 4 (robot_command_code (udp_command_multi t))
                 (ucast (rvs_index cmd)) 0 (service_value read_multiple) rid)
         in writeLittleEndian out (ucast (rvs_count cmd) :: u32)))"

definition decodeReadVar ::
    "'a var_traits \<Rightarrow> bytes \<Rightarrow> ReadVar \<Rightarrow> ('a result \<times> bytes) option" where
  "decodeReadVar t msg cmd =
     (let e = expectSize ''response data'' (length msg) (encoded_size t)
      in if is_error e then Some (Inl e, msg) else decode_value t msg)"

definition decodeReadVars ::
    "'a var_traits \<Rightarrow> bytes \<Rightarrow> ReadVars \<Rightarrow> ('a list result \<times> bytes) option" where
  "decodeReadVars t msg cmd =
     (if rvs_count cmd = 1
      then do {
        (res, msg) \<leftarrow> decodeReadVar t msg \<lparr>rv_index = rvs_index cmd\<rparr>;
        case res of Inl e \<Rightarrow> Some (Inl e, msg) | Inr v \<Rightarrow> Some (Inr [v], msg)
      }
      else
        (let e = expectSize ''response data'' (length msg)
               (4 + unat (rvs_count cmd) * encoded_size t)
         in if is_error e then Some (Inl e, msg)
         else do {
           (count :: u32, msg) \<leftarrow> readLittleEndian msg;
           let e = expectValue ''value count'' (sint count) (uint (rvs_count cmd));
           if is_error e then Some (Inl e, msg)
           else decode_loop (decode_value t) (unat (rvs_count cmd)) msg []
         }))"

definition encodeWriteVar :: "'a var_traits \<Rightarrow> bytes \<Rightarrow> u8 \<Rightarrow> 'a WriteVar \<Rightarrow> bytes outcome" where
  "encodeWriteVar t out rid cmd =
     (let out = encode_RequestHeader out
            (makeRobotRequestHeader (of_nat (encoded_size t))
              (robot_command_code (udp_command_single t)) (ucast (wv_index cmd)) 0
              (service_value set_all) rid)
      in encode_value t out (wv_value cmd))"

definition encodeWriteVars :: "'a var_traits \<Rightarrow> bytes \<Rightarrow> u8 \<Rightarrow> 'a WriteVars \<Rightarrow> bytes outcome" where
  "encodeWriteVars t out rid cmd =
     (if length (wvs_values cmd) = 1
      then
        (let out = encode_RequestHeader out
               (makeRobotRequestHeader (of_nat (encoded_size t))
                 (robot_command_code (udp_command_single t)) (ucast (wvs_index cmd)) 0
                 (service_value set_all) rid)
         in encode_value t out (wvs_values cmd ! 0))
      else
        (let data_size = (of_nat (4 + length (wvs_values cmd) * encoded_size t) :: u32);
             out = encode_RequestHeader out
               (makeRobotRequestHeader (ucast data_size) (robot_command_code (udp_command_multi t))
                 (ucast (wvs_index cmd)) 0 (service_value write_multiple) rid);
             out = writeLittleEndian out (of_nat (length (wvs_values cmd)) :: u32)
         in encode_all (encode_value t) out (wvs_values cmd)))"

text \<open>The responses without data: the check the write, move and delete commands share.\<close>

definition decode_no_data :: "bytes \<Rightarrow> (unit result \<times> bytes) option" where
  "decode_no_data data =
     (let e = expectSize ''response data'' (length data) 0
      in if is_error e then Some (Inl e, data) else Some (Inr (), data))"

definition decodeWriteVar :: "bytes \<Rightarrow> 'a WriteVar \<Rightarrow> (unit result \<times> bytes) option" where
  "decodeWriteVar data cmd = decode_no_data data"

definition decodeWriteVars :: "bytes \<Rightarrow> 'a WriteVars \<Rightarrow> (unit result \<times> bytes) option" where
  "decodeWriteVars data cmd = decode_no_data data"

section \<open>Status\<close>

definition encode_ReadStatus :: "bytes \<Rightarrow> u8 \<Rightarrow> bytes" where
  "encode_ReadStatus out rid =
     encode_RequestHeader out
       (makeRobotRequestHeader 0 (robot_command_code read_status_information) 1 0
         (service_value get_all) rid)"

definition decode_ReadStatus :: "bytes \<Rightarrow> (Status result \<times> bytes) option" where
  "decode_ReadStatus data =
     (let e = expectSize ''status data'' (length data) 8
      in if is_error e then Some (Inl e, data)
      else Some (Inr
        \<lparr>step = bit (data ! 0) 0, one_cycle = bit (data ! 0) 1, continuous = bit (data ! 0) 2,
         running = bit (data ! 0) 3, speed_limited = bit (data ! 0) 4, teach = bit (data ! 0) 5,
         play = bit (data ! 0) 6, remote = bit (data ! 0) 7,
         teach_pendant_hold = bit (data ! 4) 1, external_hold = bit (data ! 4) 2,
         command_hold = bit (data ! 4) 3, alarm = bit (data ! 4) 4,
         status_error = bit (data ! 4) 5, servo_on = bit (data ! 4) 6\<rparr>, data))"

section \<open>The current position\<close>

primrec instance_offset :: "CoordinateSystemType \<Rightarrow> int" where
  "instance_offset robot_pulse = 1"
| "instance_offset base_pulse = 11"
| "instance_offset station_pulse = 21"
| "instance_offset robot_cartesian = 101"

text \<open>An addition of two \<open>int\<close>s, undefined when it overflows.\<close>

definition add_int :: "i32 \<Rightarrow> int \<Rightarrow> i32 outcome" where
  "add_int a b =
     (if - (2 ^ 31) \<le> sint a + b \<and> sint a + b < 2 ^ 31
      then Returns (word_of_int (sint a + b)) else Undefined)"

definition encode_ReadCurrentPosition ::
    "bytes \<Rightarrow> u8 \<Rightarrow> ReadCurrentPosition \<Rightarrow> bytes outcome" where
  "encode_ReadCurrentPosition out rid cmd =
     obind (add_int (rcp_control_group cmd) (instance_offset (rcp_coordinate_system cmd)))
       (\<lambda>inst. Returns (encode_RequestHeader out
         (makeRobotRequestHeader 0 (robot_command_code read_robot_position) (ucast inst) 0
           (service_value get_all) rid)))"

definition decode_ReadCurrentPosition :: "bytes \<Rightarrow> (Position result \<times> bytes) option" where
  "decode_ReadCurrentPosition msg =
     (let e = expectSizeMax ''position data'' (length msg) (13 * 4)
      in if is_error e then Some (Inl e, msg)
      else do {
        let padded_data = msg @ replicate (13 * 4 - length msg) 0;
        (res, _) \<leftarrow> decode_Position padded_data;
        Some (res, msg)
      })"

section \<open>Linear moves\<close>

definition systemToMoveLSystem :: "CoordinateSystem \<Rightarrow> u32 outcome" where
  "systemToMoveLSystem system =
     (if system = CS_base then Returns 16
      else if system = CS_robot then Returns 17
      else if isUserCoordinateSystem system then Returns 18
      else if system = CS_tool then Returns 19
      else Throws (Runtime_error
        (''invalid coordinate system for MoveL: '' @ to_string (cs_value system))))"

definition encode_MoveL :: "bytes \<Rightarrow> u8 \<Rightarrow> MoveL \<Rightarrow> bytes outcome" where
  "encode_MoveL out rid cmd =
     (let out = encode_RequestHeader out
            (makeRobotRequestHeader (26 * 4) (robot_command_code read_robot_position) 2 1
              (service_value get_all) rid)
      in obind (add_int (ml_control_group cmd) 1) (\<lambda>group.
         let out = writeLittleEndian out group;
             out = writeLittleEndian out (0 :: u32);
             out = writeLittleEndian out (SpeedType_value (speed_type (ml_speed cmd)));
             out = writeLittleEndian out (speed_value (ml_speed cmd))
         in obind (systemToMoveLSystem (cp_frame (ml_target cmd))) (\<lambda>sys.
         let out = writeLittleEndian out sys
         in obind (encode_coordinate out (cp_x (ml_target cmd)) 1000) (\<lambda>out.
            obind (encode_coordinate out (cp_y (ml_target cmd)) 1000) (\<lambda>out.
            obind (encode_coordinate out (cp_z (ml_target cmd)) 1000) (\<lambda>out.
            obind (encode_coordinate out (cp_rx (ml_target cmd)) 10000) (\<lambda>out.
            obind (encode_coordinate out (cp_ry (ml_target cmd)) 10000) (\<lambda>out.
            obind (encode_coordinate out (cp_rz (ml_target cmd)) 10000) (\<lambda>out.
         let out = writeLittleEndian out (0 :: u32);
             out = writeLittleEndian out (0 :: u32);
             out = writeLittleEndian out
               (ucast (PoseConfiguration_to_u8 (cp_type (ml_target cmd))) :: u32);
             out = writeLittleEndian out (0 :: u32);
             out = writeLittleEndian out (cp_tool (ml_target cmd));
             out = writeLittleEndian out
               (word_of_int (userCoordinateNumber (cp_frame (ml_target cmd))) :: u32);
             out = foldl (\<lambda>out i. writeLittleEndian out (0 :: u32)) out [18..<27]
         in Returns out)))))))))"

section \<open>File commands\<close>

definition encode_ReadFileList :: "bytes \<Rightarrow> u8 \<Rightarrow> ReadFileList \<Rightarrow> bytes" where
  "encode_ReadFileList out rid cmd =
     encode_RequestHeader out
       (makeFileRequestHeader (of_nat (length (rfl_type cmd))) (file_command_code read_file_list)
         rid 0 False) @ rfl_type cmd"

text \<open>
  The loop over the received file list.  The iterators are indices into \<open>data\<close>; constructing
  a string from a pair of iterators in the wrong order is undefined behaviour.  A loop that
  does not end is the value \<open>None\<close>, which becomes \<open>Diverges\<close>.
\<close>

partial_function (option) file_list_loop ::
    "bytes \<Rightarrow> nat \<Rightarrow> nat \<Rightarrow> bytes list \<Rightarrow> bytes list outcome option" where
  "file_list_loop data line_start finger result =
     (if finger < length data - 1
      then if data ! finger = 0x0d \<and> data ! (finger + 1) = 0x0a
        then if line_start \<le> finger
          then file_list_loop data (finger + 2) finger
                 (result @ [drop line_start (take finger data)])
          else Some Undefined
        else file_list_loop data line_start finger result
      else Some (Returns result))"

declare file_list_loop.simps [code]

definition decode_ReadFileList :: "bytes \<Rightarrow> bytes list result outcome" where
  "decode_ReadFileList data =
     (if length data = 0 then Returns (Inr [])
      else if length data = 1
      then Returns (Inl (malformedResponse ''file list consist of exactly one byte''))
      else case file_list_loop data 0 0 [] of
        None \<Rightarrow> Diverges
      | Some result \<Rightarrow> obind result (\<lambda>result. Returns (Inr result)))"

definition encode_ReadFile :: "bytes \<Rightarrow> u8 \<Rightarrow> ReadFile \<Rightarrow> bytes" where
  "encode_ReadFile out rid cmd =
     encode_RequestHeader out
       (makeFileRequestHeader (of_nat (length (rf_name cmd))) (file_command_code read_file)
         rid 0 False) @ rf_name cmd"

definition decode_ReadFile :: "bytes \<Rightarrow> bytes result" where
  "decode_ReadFile data = Inr data"

definition encode_WriteFile :: "bytes \<Rightarrow> u8 \<Rightarrow> WriteFile \<Rightarrow> bytes" where
  "encode_WriteFile out rid cmd =
     encode_RequestHeader out
       (makeFileRequestHeader (of_nat (length (wf_name cmd))) (file_command_code write_file)
         rid 0 False) @ wf_name cmd"

definition decode_WriteFile :: "bytes \<Rightarrow> (unit result \<times> bytes) option" where
  "decode_WriteFile data = decode_no_data data"

definition encode_DeleteFile :: "bytes \<Rightarrow> u8 \<Rightarrow> DeleteFile \<Rightarrow> bytes" where
  "encode_DeleteFile out rid cmd =
     encode_RequestHeader out
       (makeFileRequestHeader (of_nat (length (df_name cmd))) (file_command_code delete_file)
         rid 0 False) @ df_name cmd"

definition decode_DeleteFile :: "bytes \<Rightarrow> (unit result \<times> bytes) option" where
  "decode_DeleteFile data = decode_no_data data"

section \<open>All commands\<close>

datatype command =
    ReadStatus
  | ReadCurrentPosition ReadCurrentPosition
  | MoveL MoveL
  | ReadUint8Var ReadVar | ReadUint8Vars ReadVars
  | WriteUint8Var "u8 WriteVar" | WriteUint8Vars "u8 WriteVars"
  | ReadInt16Var ReadVar | ReadInt16Vars ReadVars
  | WriteInt16Var "i16 WriteVar" | WriteInt16Vars "i16 WriteVars"
  | ReadInt32Var ReadVar | ReadInt32Vars ReadVars
  | WriteInt32Var "i32 WriteVar" | WriteInt32Vars "i32 WriteVars"
  | ReadFloat32Var ReadVar | ReadFloat32Vars ReadVars
  | WriteFloat32Var "float32 WriteVar" | WriteFloat32Vars "float32 WriteVars"
  | ReadPositionVar ReadVar | ReadPositionVars ReadVars
  | WritePositionVar "Position WriteVar" | WritePositionVars "Position WriteVars"
  | DeleteFile DeleteFile

text \<open>
  The commands a \<open>CommandSession\<close> can carry; the file transfers have sessions of their own.
  \<open>Response\<close> of each is one of these.
\<close>

datatype (discs_sels) response =
    Void
  | Status_response Status
  | Position_response Position | Positions_response "Position list"
  | Uint8_response u8 | Uint8s_response "u8 list"
  | Int16_response i16 | Int16s_response "i16 list"
  | Int32_response i32 | Int32s_response "i32 list"
  | Float32_response float32 | Float32s_response "float32 list"

primrec encode_command :: "bytes \<Rightarrow> u8 \<Rightarrow> command \<Rightarrow> bytes outcome" where
  "encode_command out rid ReadStatus = Returns (encode_ReadStatus out rid)"
| "encode_command out rid (ReadCurrentPosition c) = encode_ReadCurrentPosition out rid c"
| "encode_command out rid (MoveL c) = encode_MoveL out rid c"
| "encode_command out rid (ReadUint8Var c) = Returns (encodeReadVar uint8_traits out rid c)"
| "encode_command out rid (ReadUint8Vars c) = Returns (encodeReadVars uint8_traits out rid c)"
| "encode_command out rid (WriteUint8Var c) = encodeWriteVar uint8_traits out rid c"
| "encode_command out rid (WriteUint8Vars c) = encodeWriteVars uint8_traits out rid c"
| "encode_command out rid (ReadInt16Var c) = Returns (encodeReadVar int16_traits out rid c)"
| "encode_command out rid (ReadInt16Vars c) = Returns (encodeReadVars int16_traits out rid c)"
| "encode_command out rid (WriteInt16Var c) = encodeWriteVar int16_traits out rid c"
| "encode_command out rid (WriteInt16Vars c) = encodeWriteVars int16_traits out rid c"
| "encode_command out rid (ReadInt32Var c) = Returns (encodeReadVar int32_traits out rid c)"
| "encode_command out rid (ReadInt32Vars c) = Returns (encodeReadVars int32_traits out rid c)"
| "encode_command out rid (WriteInt32Var c) = encodeWriteVar int32_traits out rid c"
| "encode_command out rid (WriteInt32Vars c) = encodeWriteVars int32_traits out rid c"
| "encode_command out rid (ReadFloat32Var c) = Returns (encodeReadVar float_traits out rid c)"
| "encode_command out rid (ReadFloat32Vars c) = Returns (encodeReadVars float_traits out rid c)"
| "encode_command out rid (WriteFloat32Var c) = encodeWriteVar float_traits out rid c"
| "encode_command out rid (WriteFloat32Vars c) = encodeWriteVars float_traits out rid c"
| "encode_command out rid (ReadPositionVar c) = Returns (encodeReadVar Position_traits out rid c)"
| "encode_command out rid (ReadPositionVars c) = Returns (encodeReadVars Position_traits out rid c)"
| "encode_command out rid (WritePositionVar c) = encodeWriteVar Position_traits out rid c"
| "encode_command out rid (WritePositionVars c) = encodeWriteVars Position_traits out rid c"
| "encode_command out rid (DeleteFile c) = Returns (encode_DeleteFile out rid c)"

definition respond :: "('a \<Rightarrow> response) \<Rightarrow> ('a result \<times> bytes) option \<Rightarrow> (response result \<times> bytes) option" where
  "respond f = map_option (\<lambda>(r, rest). (map_sum id f r, rest))"

primrec decode_command :: "bytes \<Rightarrow> command \<Rightarrow> (response result \<times> bytes) option" where
  "decode_command data ReadStatus = respond Status_response (decode_ReadStatus data)"
| "decode_command data (ReadCurrentPosition c) =
     respond Position_response (decode_ReadCurrentPosition data)"
| "decode_command data (MoveL c) = respond (\<lambda>_. Void) (decode_no_data data)"
| "decode_command data (ReadUint8Var c) = respond Uint8_response (decodeReadVar uint8_traits data c)"
| "decode_command data (ReadUint8Vars c) = respond Uint8s_response (decodeReadVars uint8_traits data c)"
| "decode_command data (WriteUint8Var c) = respond (\<lambda>_. Void) (decodeWriteVar data c)"
| "decode_command data (WriteUint8Vars c) = respond (\<lambda>_. Void) (decodeWriteVars data c)"
| "decode_command data (ReadInt16Var c) = respond Int16_response (decodeReadVar int16_traits data c)"
| "decode_command data (ReadInt16Vars c) = respond Int16s_response (decodeReadVars int16_traits data c)"
| "decode_command data (WriteInt16Var c) = respond (\<lambda>_. Void) (decodeWriteVar data c)"
| "decode_command data (WriteInt16Vars c) = respond (\<lambda>_. Void) (decodeWriteVars data c)"
| "decode_command data (ReadInt32Var c) = respond Int32_response (decodeReadVar int32_traits data c)"
| "decode_command data (ReadInt32Vars c) = respond Int32s_response (decodeReadVars int32_traits data c)"
| "decode_command data (WriteInt32Var c) = respond (\<lambda>_. Void) (decodeWriteVar data c)"
| "decode_command data (WriteInt32Vars c) = respond (\<lambda>_. Void) (decodeWriteVars data c)"
| "decode_command data (ReadFloat32Var c) = respond Float32_response (decodeReadVar float_traits data c)"
| "decode_command data (ReadFloat32Vars c) = respond Float32s_response (decodeReadVars float_traits data c)"
| "decode_command data (WriteFloat32Var c) = respond (\<lambda>_. Void) (decodeWriteVar data c)"
| "decode_command data (WriteFloat32Vars c) = respond (\<lambda>_. Void) (decodeWriteVars data c)"
| "decode_command data (ReadPositionVar c) = respond Position_response (decodeReadVar Position_traits data c)"
| "decode_command data (ReadPositionVars c) = respond Positions_response (decodeReadVars Position_traits data c)"
| "decode_command data (WritePositionVar c) = respond (\<lambda>_. Void) (decodeWriteVar data c)"
| "decode_command data (WritePositionVars c) = respond (\<lambda>_. Void) (decodeWriteVars data c)"
| "decode_command data (DeleteFile c) = respond (\<lambda>_. Void) (decode_DeleteFile data)"

end
