(* ===== verification/Type_Functions.thy ===== *)
theory Type_Functions
  imports Commands
begin

text \<open>
  What the program computes on types while it is compiled: the response types of the commands
  (\<open>commands.hpp\<close>), the kinds of file commands (\<open>udp/command_traits.hpp\<close>), \<open>type_traits.hpp\<close> and the
  types of \<open>MultiCommandSession\<close> made with it.  The values of the model are tagged; here is which
  tag has which type, so that the results of the sessions can be checked against their types.
\<close>

section \<open>Types\<close>

datatype cpp_type =
    T_void | T_Empty | T_Status | T_Position
  | T_uint8 | T_int16 | T_int32 | T_float | T_string
  | T_vector cpp_type
  | T_tuple "cpp_type list"

text \<open>The types of commands; the templates over the type of a variable have it as an argument.\<close>

datatype command_type =
    C_ReadStatus | C_ReadCurrentPosition | C_MoveL
  | C_ReadVar cpp_type | C_ReadVars cpp_type | C_WriteVar cpp_type | C_WriteVars cpp_type
  | C_ReadFileList | C_ReadFile | C_WriteFile | C_DeleteFile

primrec Response :: "command_type \<Rightarrow> cpp_type" where
  "Response C_ReadStatus = T_Status"
| "Response C_ReadCurrentPosition = T_Position"
| "Response C_MoveL = T_void"
| "Response (C_ReadVar T) = T"
| "Response (C_ReadVars T) = T_vector T"
| "Response (C_WriteVar T) = T_void"
| "Response (C_WriteVars T) = T_void"
| "Response C_ReadFileList = T_vector T_string"
| "Response C_ReadFile = T_string"
| "Response C_WriteFile = T_void"
| "Response C_DeleteFile = T_void"

primrec type_of_command :: "command \<Rightarrow> command_type" where
  "type_of_command ReadStatus = C_ReadStatus"
| "type_of_command (ReadCurrentPosition c) = C_ReadCurrentPosition"
| "type_of_command (MoveL c) = C_MoveL"
| "type_of_command (ReadUint8Var c) = C_ReadVar T_uint8"
| "type_of_command (ReadUint8Vars c) = C_ReadVars T_uint8"
| "type_of_command (WriteUint8Var c) = C_WriteVar T_uint8"
| "type_of_command (WriteUint8Vars c) = C_WriteVars T_uint8"
| "type_of_command (ReadInt16Var c) = C_ReadVar T_int16"
| "type_of_command (ReadInt16Vars c) = C_ReadVars T_int16"
| "type_of_command (WriteInt16Var c) = C_WriteVar T_int16"
| "type_of_command (WriteInt16Vars c) = C_WriteVars T_int16"
| "type_of_command (ReadInt32Var c) = C_ReadVar T_int32"
| "type_of_command (ReadInt32Vars c) = C_ReadVars T_int32"
| "type_of_command (WriteInt32Var c) = C_WriteVar T_int32"
| "type_of_command (WriteInt32Vars c) = C_WriteVars T_int32"
| "type_of_command (ReadFloat32Var c) = C_ReadVar T_float"
| "type_of_command (ReadFloat32Vars c) = C_ReadVars T_float"
| "type_of_command (WriteFloat32Var c) = C_WriteVar T_float"
| "type_of_command (WriteFloat32Vars c) = C_WriteVars T_float"
| "type_of_command (ReadPositionVar c) = C_ReadVar T_Position"
| "type_of_command (ReadPositionVars c) = C_ReadVars T_Position"
| "type_of_command (WritePositionVar c) = C_WriteVar T_Position"
| "type_of_command (WritePositionVars c) = C_WriteVars T_Position"
| "type_of_command (DeleteFile c) = C_DeleteFile"

primrec value_type :: "response \<Rightarrow> cpp_type" where
  "value_type Void = T_void"
| "value_type (Status_response v) = T_Status"
| "value_type (Position_response v) = T_Position"
| "value_type (Positions_response vs) = T_vector T_Position"
| "value_type (Uint8_response v) = T_uint8"
| "value_type (Uint8s_response vs) = T_vector T_uint8"
| "value_type (Int16_response v) = T_int16"
| "value_type (Int16s_response vs) = T_vector T_int16"
| "value_type (Int32_response v) = T_int32"
| "value_type (Int32s_response vs) = T_vector T_int32"
| "value_type (Float32_response v) = T_float"
| "value_type (Float32s_response vs) = T_vector T_float"

section \<open>Functions on types\<close>

definition map_type_t :: "cpp_type \<Rightarrow> cpp_type \<Rightarrow> cpp_type \<Rightarrow> cpp_type" where
  "map_type_t T From To = (if T = From then To else T)"

definition map_tuple_t :: "'a list \<Rightarrow> ('a \<Rightarrow> cpp_type) \<Rightarrow> cpp_type" where
  "map_tuple_t Tuple Converter = T_tuple (map Converter Tuple)"

definition response_tuple_element :: "command_type \<Rightarrow> cpp_type" where
  "response_tuple_element Command = map_type_t (Response Command) T_void T_Empty"

definition response_type :: "command_type list \<Rightarrow> cpp_type" where
  "response_type Commands = map_tuple_t Commands response_tuple_element"

text \<open>
  The type of an element of the result tuple: the callback of a command without a response leaves
  the \<open>Empty\<close> value in its place.
\<close>

definition element_type :: "response \<Rightarrow> cpp_type" where
  "element_type v = (if v = Void then T_Empty else value_type v)"

lemma value_type_void [simp]: "value_type v = T_void \<longleftrightarrow> v = Void"
  by (cases v) simp_all

lemma element_type_eq: "element_type v = map_type_t (value_type v) T_void T_Empty"
  by (simp add: element_type_def map_type_t_def)

section \<open>File commands\<close>

text \<open>
  The specialisation for \<open>WriteFile\<close> is one of \<open>is_file_read_command\<close>, and
  \<open>is_file_write_command\<close> has none.
\<close>

definition is_file_read_command :: "command_type \<Rightarrow> bool" where
  "is_file_read_command Command \<longleftrightarrow> Command \<in> {C_ReadFileList, C_ReadFile, C_WriteFile}"

definition is_file_write_command :: "command_type \<Rightarrow> bool" where
  "is_file_write_command Command \<longleftrightarrow> False"

definition is_file_command :: "command_type \<Rightarrow> bool" where
  "is_file_command Command \<longleftrightarrow>
     False \<or> is_file_read_command Command \<or> is_file_write_command Command"

lemma write_file_is_read_command:
  "is_file_read_command C_WriteFile" "\<not> is_file_write_command C_WriteFile"
  by (simp_all add: is_file_read_command_def is_file_write_command_def)

text \<open>The transfers in blocks are file commands, and no command of a \<open>CommandSession\<close> is one.\<close>

lemma is_file_command_transfers:
  "is_file_command Command \<longleftrightarrow> Command \<in> {C_ReadFileList, C_ReadFile, C_WriteFile}"
  by (simp add: is_file_command_def is_file_read_command_def is_file_write_command_def)

lemma command_is_no_transfer: "\<not> is_file_command (type_of_command cmd)"
  by (cases cmd) (simp_all add: is_file_command_transfers)

end
