(* ===== verification/Command_Facts.thy ===== *)
theory Command_Facts
  imports Type_Functions
begin

text \<open>
  What \<open>src/udp/protocol.cpp\<close> guarantees: every request is one framed datagram, no decoder
  leaves the buffer it is given or returns a value of the wrong shape, the values of a write
  command are the values a read command decodes, and the behaviour of the file list loop.
  The templates over the variable type are reasoned about once, in the locales
  \<open>var_encoder\<close>, \<open>var_decoder\<close> and \<open>var_codec\<close>, which are interpreted at the five types.
\<close>

section \<open>Requests\<close>

text \<open>A datagram of one request: a header that describes what follows it.\<close>

definition framed :: "Division \<Rightarrow> u8 \<Rightarrow> bytes \<Rightarrow> bool" where
  "framed dv rid bs \<longleftrightarrow> (\<exists>h payload. bs = header_image h @ payload \<and> division h = dv
     \<and> request_id h = rid \<and> \<not> ack h \<and> block_number h = 0 \<and> payload_size h = of_nat (length payload))"

lemma framedI:
  "division h = dv \<Longrightarrow> request_id h = rid \<Longrightarrow> \<not> ack h \<Longrightarrow> block_number h = 0 \<Longrightarrow>
   payload_size h = of_nat (length payload) \<Longrightarrow> framed dv rid (header_image h @ payload)"
  by (auto simp: framed_def)

lemma framed_header_only:
  "division h = dv \<Longrightarrow> request_id h = rid \<Longrightarrow> \<not> ack h \<Longrightarrow> block_number h = 0 \<Longrightarrow> payload_size h = 0 \<Longrightarrow>
   framed dv rid (header_image h)"
  using framedI [of h dv rid "[]"] by simp

lemma makeRobotRequestHeader_fields [simp]:
  "request_id (makeRobotRequestHeader n c i a s rid) = rid"
  "ack (makeRobotRequestHeader n c i a s rid) = False"
  "block_number (makeRobotRequestHeader n c i a s rid) = 0"
  "payload_size (makeRobotRequestHeader n c i a s rid) = n"
  "division (makeRobotRequestHeader n c i a s rid) = Division_robot"
  "req_command (makeRobotRequestHeader n c i a s rid) = c"
  "req_instance (makeRobotRequestHeader n c i a s rid) = i"
  "req_attribute (makeRobotRequestHeader n c i a s rid) = a"
  "req_service (makeRobotRequestHeader n c i a s rid) = s"
  by (simp_all add: makeRobotRequestHeader_def)

lemma makeFileRequestHeader_fields [simp]:
  "request_id (makeFileRequestHeader n s rid b a) = rid"
  "ack (makeFileRequestHeader n s rid b a) = a"
  "block_number (makeFileRequestHeader n s rid b a) = b"
  "payload_size (makeFileRequestHeader n s rid b a) = n"
  "division (makeFileRequestHeader n s rid b a) = Division_file"
  "req_service (makeFileRequestHeader n s rid b a) = s"
  by (simp_all add: makeFileRequestHeader_def)

lemma encodeReadVar_framed: "framed Division_robot rid (encodeReadVar t [] rid cmd)"
  by (simp add: encodeReadVar_def encode_RequestHeader_eq framed_header_only)

lemma encodeReadVars_framed: "framed Division_robot rid (encodeReadVars t [] rid cmd)"
  by (simp add: encodeReadVars_def encodeReadVar_framed encode_RequestHeader_eq writeLittleEndian_eq
      framedI)

locale var_encoder = value_encoder "encode_value t" "encoded_size t" for t :: "'a var_traits"
begin

lemma encodeWriteVar_eq:
  "encodeWriteVar t [] rid cmd = Returns bs \<longleftrightarrow>
     (\<exists>b. encode_value t [] (wv_value cmd) = Returns b
        \<and> bs = header_image (makeRobotRequestHeader (of_nat (encoded_size t))
            (robot_command_code (udp_command_single t)) (ucast (wv_index cmd)) 0
            (service_value set_all) rid) @ b)"
  unfolding encodeWriteVar_def Let_def encode_RequestHeader_eq
  by (subst enc_append) auto

lemma encodeWriteVars_eq:
  "encodeWriteVars t [] rid cmd = Returns bs \<longleftrightarrow>
     (\<exists>b. encode_all (encode_value t) [] (wvs_values cmd) = Returns b
        \<and> bs = (if length (wvs_values cmd) = 1
            then header_image (makeRobotRequestHeader (of_nat (encoded_size t))
              (robot_command_code (udp_command_single t)) (ucast (wvs_index cmd)) 0
              (service_value set_all) rid) @ b
            else header_image (makeRobotRequestHeader
                (of_nat (4 + length (wvs_values cmd) * encoded_size t))
                (robot_command_code (udp_command_multi t)) (ucast (wvs_index cmd)) 0
                (service_value write_multiple) rid)
              @ le_bytes (of_nat (length (wvs_values cmd)) :: u32) @ b))"
proof (cases "length (wvs_values cmd) = 1")
  case True
  then obtain v where v: "wvs_values cmd = [v]" by (auto simp: length_Suc_conv)
  have "encode_all (encode_value t) [] [v] = encode_value t [] v"
    by (cases "encode_value t [] v") simp_all
  then show ?thesis
    unfolding encodeWriteVars_def Let_def encode_RequestHeader_eq v
    by (subst enc_append) auto
next
  case False
  have u: "(ucast (of_nat n :: u32) :: u16) = of_nat n" for n
    by (rule bit_word_eqI) (simp add: bit_simps)
  then show ?thesis using False
    unfolding encodeWriteVars_def Let_def encode_RequestHeader_eq writeLittleEndian_eq u
    by (subst encode_all_append) auto
qed

lemma encodeWriteVar_framed:
  "encodeWriteVar t [] rid cmd = Returns bs \<Longrightarrow> framed Division_robot rid bs"
  by (auto simp: encodeWriteVar_eq enc_size intro!: framedI)

lemma encodeWriteVars_framed:
  "encodeWriteVars t [] rid cmd = Returns bs \<Longrightarrow> framed Division_robot rid bs"
proof -
  assume "encodeWriteVars t [] rid cmd = Returns bs"
  then obtain b where b: "encode_all (encode_value t) [] (wvs_values cmd) = Returns b"
    and bs: "bs = (if length (wvs_values cmd) = 1
            then header_image (makeRobotRequestHeader (of_nat (encoded_size t))
              (robot_command_code (udp_command_single t)) (ucast (wvs_index cmd)) 0
              (service_value set_all) rid) @ b
            else header_image (makeRobotRequestHeader
                (of_nat (4 + length (wvs_values cmd) * encoded_size t))
                (robot_command_code (udp_command_multi t)) (ucast (wvs_index cmd)) 0
                (service_value write_multiple) rid)
              @ le_bytes (of_nat (length (wvs_values cmd)) :: u32) @ b)"
    by (auto simp: encodeWriteVars_eq)
  from encode_all_size [OF b] show ?thesis
    by (auto simp: bs intro!: framedI)
qed

end

interpretation uint8_var: var_encoder uint8_traits
  unfolding var_encoder_def uint8_traits_def var_traits.simps
  by (rule uint8.value_encoder_axioms)

interpretation int16_var: var_encoder int16_traits
  unfolding var_encoder_def int16_traits_def var_traits.simps
  by (rule int16.value_encoder_axioms)

interpretation int32_var: var_encoder int32_traits
  unfolding var_encoder_def int32_traits_def var_traits.simps
  by (rule int32.value_encoder_axioms)

interpretation float_var: var_encoder float_traits
  unfolding var_encoder_def float_traits_def var_traits.simps
  by (rule float.value_encoder_axioms)

interpretation Position_var: var_encoder Position_traits
  unfolding var_encoder_def Position_traits_def var_traits.simps
  using position_encoder.value_encoder_axioms by simp

lemmas var_framed =
  uint8_var.encodeWriteVar_framed int16_var.encodeWriteVar_framed int32_var.encodeWriteVar_framed
  float_var.encodeWriteVar_framed Position_var.encodeWriteVar_framed
  uint8_var.encodeWriteVars_framed int16_var.encodeWriteVars_framed
  int32_var.encodeWriteVars_framed float_var.encodeWriteVars_framed
  Position_var.encodeWriteVars_framed

lemma foldl_write_u32:
  "foldl (\<lambda>out i. writeLittleEndian out (v :: u32)) out xs
   = out @ concat (map le_bytes (replicate (length xs) v))"
  by (induction xs arbitrary: out) (auto simp: writeLittleEndian_eq)

text \<open>The 104 bytes behind the header of a move.\<close>

lemma encode_MoveL_image:
  assumes "encode_MoveL [] rid cmd = Returns bs"
  shows "\<exists>payload. length payload = 104 \<and> bs = header_image
    (makeRobotRequestHeader 104 (robot_command_code read_robot_position) 2 1
      (service_value get_all) rid) @ payload"
  using assms
  by (auto simp: encode_MoveL_def Let_def encode_RequestHeader_eq writeLittleEndian_eq
      encode_coordinate_eq foldl_write_u32 length_concat_le_bytes)

primrec command_division :: "command \<Rightarrow> Division" where
  "command_division ReadStatus = Division_robot"
| "command_division (ReadCurrentPosition c) = Division_robot"
| "command_division (MoveL c) = Division_robot"
| "command_division (ReadUint8Var c) = Division_robot"
| "command_division (ReadUint8Vars c) = Division_robot"
| "command_division (WriteUint8Var c) = Division_robot"
| "command_division (WriteUint8Vars c) = Division_robot"
| "command_division (ReadInt16Var c) = Division_robot"
| "command_division (ReadInt16Vars c) = Division_robot"
| "command_division (WriteInt16Var c) = Division_robot"
| "command_division (WriteInt16Vars c) = Division_robot"
| "command_division (ReadInt32Var c) = Division_robot"
| "command_division (ReadInt32Vars c) = Division_robot"
| "command_division (WriteInt32Var c) = Division_robot"
| "command_division (WriteInt32Vars c) = Division_robot"
| "command_division (ReadFloat32Var c) = Division_robot"
| "command_division (ReadFloat32Vars c) = Division_robot"
| "command_division (WriteFloat32Var c) = Division_robot"
| "command_division (WriteFloat32Vars c) = Division_robot"
| "command_division (ReadPositionVar c) = Division_robot"
| "command_division (ReadPositionVars c) = Division_robot"
| "command_division (WritePositionVar c) = Division_robot"
| "command_division (WritePositionVars c) = Division_robot"
| "command_division (DeleteFile c) = Division_file"

lemma encode_command_framed:
  "encode_command [] rid cmd = Returns bs \<Longrightarrow> framed (command_division cmd) rid bs"
proof (cases cmd)
  case ReadStatus
  assume "encode_command [] rid cmd = Returns bs"
  with ReadStatus show ?thesis
    by (auto simp: encode_ReadStatus_def encode_RequestHeader_eq framed_header_only)
next
  case (ReadCurrentPosition c)
  assume "encode_command [] rid cmd = Returns bs"
  with ReadCurrentPosition show ?thesis
    by (auto simp: encode_ReadCurrentPosition_def encode_RequestHeader_eq framed_header_only)
next
  case (MoveL c)
  assume "encode_command [] rid cmd = Returns bs"
  with MoveL encode_MoveL_image [of rid c bs] show ?thesis by (auto intro: framedI)
next
  case (DeleteFile c)
  assume "encode_command [] rid cmd = Returns bs"
  with DeleteFile show ?thesis
    by (auto simp: encode_DeleteFile_def encode_RequestHeader_eq framedI)
qed (auto simp: encodeReadVar_framed encodeReadVars_framed dest: var_framed)

section \<open>Responses\<close>

text \<open>
  A decoder stays inside its buffer, and answers with a malformed response error or with a
  value for which \<open>good\<close> holds.
\<close>

definition sound_result :: "('a \<Rightarrow> bool) \<Rightarrow> 'a result \<times> bytes \<Rightarrow> bool" where
  "sound_result good = (\<lambda>(r, rest).
     case r of Inl e \<Rightarrow> code e = make_error_code malformed_response | Inr v \<Rightarrow> good v)"

lemma sound_result_simps [simp]:
  "sound_result good (Inl e, rest) \<longleftrightarrow> code e = make_error_code malformed_response"
  "sound_result good (Inr v, rest) \<longleftrightarrow> good v"
  by (simp_all add: sound_result_def)

lemma sound_result_of_decodes: "decodes_to n data x \<Longrightarrow> sound_result (\<lambda>_. True) x"
  by (auto simp: decodes_to_def sound_result_def split: sum.splits)

locale var_decoder = value_decoder "decode_value t" "encoded_size t" for t :: "'a var_traits"
begin

lemma decodeReadVar_holds: "holds (sound_result (\<lambda>_. True)) (decodeReadVar t msg cmd)"
  unfolding decodeReadVar_def Let_def
  by (intro holds_rules)
    (auto simp: code_expect intro: holds_mono [OF dec_holds] sound_result_of_decodes)

lemma decodeReadVars_holds:
  "holds (sound_result (\<lambda>vs. length vs = unat (rvs_count cmd))) (decodeReadVars t msg cmd)"
proof (cases "rvs_count cmd = 1")
  case True
  show ?thesis
    unfolding decodeReadVars_def
    using True by (auto intro!: holds_bind [OF decodeReadVar_holds] split: sum.splits)
next
  case False
  let ?n = "unat (rvs_count cmd)"
  have loop: "holds (sound_result (\<lambda>vs. length vs = ?n)) (decode_loop (decode_value t) ?n data [])"
    if "?n * encoded_size t \<le> length data" for data
    using decode_loop_holds [OF that, of "[]"]
    by (rule holds_mono) (auto simp: sound_result_def decodes_to_def split: sum.splits)
  show ?thesis
    unfolding decodeReadVars_def Let_def
    using False
    by (simp only: if_False) (intro holds_rules; simp add: code_expect loop)
qed

text \<open>A successful read had exactly the bytes of the values in it, behind the right count.\<close>

lemma decodeReadVars_size:
  assumes "decodeReadVars t msg cmd = Some (Inr vs, rest)"
  shows "length msg = (if rvs_count cmd = 1 then 0 else 4) + unat (rvs_count cmd) * encoded_size t"
  using assms
  by (auto simp: decodeReadVars_def decodeReadVar_def Let_def split: if_splits sum.splits
      Option.bind_splits)

end

lemma decode_no_data_holds: "holds (sound_result (\<lambda>_. True)) (decode_no_data data)"
  unfolding decode_no_data_def Let_def by (intro holds_rules) (auto simp: code_expect)

lemma decode_ReadStatus_holds: "holds (sound_result (\<lambda>_. True)) (decode_ReadStatus data)"
  unfolding decode_ReadStatus_def Let_def by (intro holds_rules) (auto simp: code_expect)

lemma decode_ReadCurrentPosition_holds:
  "holds (sound_result (\<lambda>_. True)) (decode_ReadCurrentPosition msg)"
  unfolding decode_ReadCurrentPosition_def Let_def
  by (intro holds_if)
    (auto simp: code_expect sound_result_def decodes_to_def split: sum.splits
      intro!: holds_bind [OF position_decoder.dec_holds])

interpretation uint8_var: var_decoder uint8_traits
  unfolding var_decoder_def uint8_traits_def var_traits.simps
  by (rule uint8.value_decoder_axioms)

interpretation int16_var: var_decoder int16_traits
  unfolding var_decoder_def int16_traits_def var_traits.simps
  by (rule int16.value_decoder_axioms)

interpretation int32_var: var_decoder int32_traits
  unfolding var_decoder_def int32_traits_def var_traits.simps
  by (rule int32.value_decoder_axioms)

interpretation float_var: var_decoder float_traits
  unfolding var_decoder_def float_traits_def var_traits.simps
  by (rule float.value_decoder_axioms)

interpretation Position_var: var_decoder Position_traits
  unfolding var_decoder_def Position_traits_def var_traits.simps
  using position_decoder.value_decoder_axioms by simp

text \<open>The response a command asks for.\<close>

primrec response_fits :: "command \<Rightarrow> response \<Rightarrow> bool" where
  "response_fits ReadStatus r \<longleftrightarrow> is_Status_response r"
| "response_fits (ReadCurrentPosition c) r \<longleftrightarrow> is_Position_response r"
| "response_fits (MoveL c) r \<longleftrightarrow> r = Void"
| "response_fits (ReadUint8Var c) r \<longleftrightarrow> is_Uint8_response r"
| "response_fits (ReadUint8Vars c) r \<longleftrightarrow>
     (case r of Uint8s_response vs \<Rightarrow> length vs = unat (rvs_count c) | _ \<Rightarrow> False)"
| "response_fits (WriteUint8Var c) r \<longleftrightarrow> r = Void"
| "response_fits (WriteUint8Vars c) r \<longleftrightarrow> r = Void"
| "response_fits (ReadInt16Var c) r \<longleftrightarrow> is_Int16_response r"
| "response_fits (ReadInt16Vars c) r \<longleftrightarrow>
     (case r of Int16s_response vs \<Rightarrow> length vs = unat (rvs_count c) | _ \<Rightarrow> False)"
| "response_fits (WriteInt16Var c) r \<longleftrightarrow> r = Void"
| "response_fits (WriteInt16Vars c) r \<longleftrightarrow> r = Void"
| "response_fits (ReadInt32Var c) r \<longleftrightarrow> is_Int32_response r"
| "response_fits (ReadInt32Vars c) r \<longleftrightarrow>
     (case r of Int32s_response vs \<Rightarrow> length vs = unat (rvs_count c) | _ \<Rightarrow> False)"
| "response_fits (WriteInt32Var c) r \<longleftrightarrow> r = Void"
| "response_fits (WriteInt32Vars c) r \<longleftrightarrow> r = Void"
| "response_fits (ReadFloat32Var c) r \<longleftrightarrow> is_Float32_response r"
| "response_fits (ReadFloat32Vars c) r \<longleftrightarrow>
     (case r of Float32s_response vs \<Rightarrow> length vs = unat (rvs_count c) | _ \<Rightarrow> False)"
| "response_fits (WriteFloat32Var c) r \<longleftrightarrow> r = Void"
| "response_fits (WriteFloat32Vars c) r \<longleftrightarrow> r = Void"
| "response_fits (ReadPositionVar c) r \<longleftrightarrow> is_Position_response r"
| "response_fits (ReadPositionVars c) r \<longleftrightarrow>
     (case r of Positions_response vs \<Rightarrow> length vs = unat (rvs_count c) | _ \<Rightarrow> False)"
| "response_fits (WritePositionVar c) r \<longleftrightarrow> r = Void"
| "response_fits (WritePositionVars c) r \<longleftrightarrow> r = Void"
| "response_fits (DeleteFile c) r \<longleftrightarrow> r = Void"

lemma respond_holds:
  "holds (sound_result good) m \<Longrightarrow> (\<And>v. good v \<Longrightarrow> good' (f v)) \<Longrightarrow>
   holds (sound_result good') (respond f m)"
  unfolding holds_def respond_def
  by (elim exE, rename_tac x, case_tac x, rename_tac r rest, case_tac r) auto

lemmas decoders_hold =
  decode_no_data_holds decode_ReadStatus_holds decode_ReadCurrentPosition_holds
  uint8_var.decodeReadVar_holds int16_var.decodeReadVar_holds int32_var.decodeReadVar_holds
  float_var.decodeReadVar_holds Position_var.decodeReadVar_holds
  uint8_var.decodeReadVars_holds int16_var.decodeReadVars_holds int32_var.decodeReadVars_holds
  float_var.decodeReadVars_holds Position_var.decodeReadVars_holds

lemma decode_command_holds: "holds (sound_result (response_fits cmd)) (decode_command data cmd)"
  by (cases cmd)
    (auto simp: decodeWriteVar_def decodeWriteVars_def decode_DeleteFile_def
      intro!: respond_holds decoders_hold)

lemma response_fits_type: "response_fits cmd v \<Longrightarrow> value_type v = Response (type_of_command cmd)"
  by (cases cmd; cases v) simp_all

section \<open>Reading back what was written\<close>

locale var_codec = var_encoder t + var_decoder t
    + value_codec "encode_value t" "encoded_size t" "decode_value t" valid
  for t :: "'a var_traits" and valid :: "'a \<Rightarrow> bool"
begin

lemma write_read_single:
  assumes "valid (wv_value cmd)"
  shows "\<exists>bs. encodeWriteVar t [] rid cmd = Returns bs
    \<and> decodeReadVar t (drop header_size bs) rd = Some (Inr (wv_value cmd), [])"
proof -
  obtain b where b: "encode_value t [] (wv_value cmd) = Returns b" using enc_valid [OF assms] ..
  from dec_enc [OF assms b, of "[]"] enc_size [OF b] show ?thesis
    by (auto simp: encodeWriteVar_eq b decodeReadVar_def)
qed

lemma write_read_multiple:
  assumes valid: "\<forall>v \<in> set (wvs_values cmd). valid v" and n: "length (wvs_values cmd) < 256"
    and rd: "rvs_count rd = of_nat (length (wvs_values cmd))"
  shows "\<exists>bs. encodeWriteVars t [] rid cmd = Returns bs
    \<and> decodeReadVars t (drop header_size bs) rd = Some (Inr (wvs_values cmd), [])"
proof -
  let ?vs = "wvs_values cmd"
  obtain b where b: "encode_all (encode_value t) [] ?vs = Returns b"
    using encode_all_valid [OF valid] ..
  have u: "unat (rvs_count rd) = length ?vs" using n by (simp add: rd unsigned_of_nat take_bit_nat_eq_self)
  then have one: "rvs_count rd = 1 \<longleftrightarrow> length ?vs = 1"
    by (metis unat_1 unsigned_word_eqI)
  note loop = decode_loop_encode_all [OF valid b, of "[]" "[]"]
  show ?thesis
  proof (cases "length ?vs = 1")
    case True
    then obtain v where v: "?vs = [v]" by (auto simp: length_Suc_conv)
    have "encode_value t [] v = Returns b" using b by (simp add: v)
    moreover have "decode_value t b = Some (Inr v, [])"
      using loop by (auto simp: v split: Option.bind_splits sum.splits)
    ultimately show ?thesis
      using encode_all_size [OF b] True one
      by (auto simp: encodeWriteVars_eq b decodeReadVars_def decodeReadVar_def v)
  next
    case False
    have "sint (of_nat (length ?vs) :: u32) = int (length ?vs)"
      using n by (simp add: signed_of_nat signed_take_bit_int_eq_self)
    moreover have "uint (rvs_count rd) = int (length ?vs)" using u by (simp only: uint_nat)
    ultimately show ?thesis
      using False one encode_all_size [OF b] loop
      by (auto simp: encodeWriteVars_eq b decodeReadVars_def u codec_simps)
  qed
qed

end

interpretation uint8_var: var_codec uint8_traits "\<lambda>_. True"
  unfolding uint8_traits_def var_codec_def var_encoder_def var_decoder_def var_traits.simps
  by (intro conjI uint8.value_encoder_axioms uint8.value_decoder_axioms uint8.value_codec_axioms)

interpretation int16_var: var_codec int16_traits "\<lambda>_. True"
  unfolding int16_traits_def var_codec_def var_encoder_def var_decoder_def var_traits.simps
  by (intro conjI int16.value_encoder_axioms int16.value_decoder_axioms int16.value_codec_axioms)

interpretation int32_var: var_codec int32_traits "\<lambda>_. True"
  unfolding int32_traits_def var_codec_def var_encoder_def var_decoder_def var_traits.simps
  by (intro conjI int32.value_encoder_axioms int32.value_decoder_axioms int32.value_codec_axioms)

interpretation float_var: var_codec float_traits "\<lambda>_. True"
  unfolding float_traits_def var_codec_def var_encoder_def var_decoder_def var_traits.simps
  by (intro conjI float.value_encoder_axioms float.value_decoder_axioms float.value_codec_axioms)

interpretation Position_var: var_codec Position_traits is_full_pulse
  unfolding Position_traits_def var_codec_def var_encoder_def var_decoder_def var_traits.simps
  using full_pulse.value_codec_axioms position_encoder.value_encoder_axioms
    position_decoder.value_decoder_axioms by simp

text \<open>The command that reads back what a write command wrote, and the response to it.\<close>

primrec read_back :: "command \<Rightarrow> (command \<times> response) option" where
  "read_back ReadStatus = None"
| "read_back (ReadCurrentPosition c) = None"
| "read_back (MoveL c) = None"
| "read_back (ReadUint8Var c) = None"
| "read_back (ReadUint8Vars c) = None"
| "read_back (WriteUint8Var c) =
     Some (ReadUint8Var \<lparr>rv_index = wv_index c\<rparr>, Uint8_response (wv_value c))"
| "read_back (WriteUint8Vars c) =
     Some (ReadUint8Vars \<lparr>rvs_index = wvs_index c, rvs_count = of_nat (length (wvs_values c))\<rparr>,
       Uint8s_response (wvs_values c))"
| "read_back (ReadInt16Var c) = None"
| "read_back (ReadInt16Vars c) = None"
| "read_back (WriteInt16Var c) =
     Some (ReadInt16Var \<lparr>rv_index = wv_index c\<rparr>, Int16_response (wv_value c))"
| "read_back (WriteInt16Vars c) =
     Some (ReadInt16Vars \<lparr>rvs_index = wvs_index c, rvs_count = of_nat (length (wvs_values c))\<rparr>,
       Int16s_response (wvs_values c))"
| "read_back (ReadInt32Var c) = None"
| "read_back (ReadInt32Vars c) = None"
| "read_back (WriteInt32Var c) =
     Some (ReadInt32Var \<lparr>rv_index = wv_index c\<rparr>, Int32_response (wv_value c))"
| "read_back (WriteInt32Vars c) =
     Some (ReadInt32Vars \<lparr>rvs_index = wvs_index c, rvs_count = of_nat (length (wvs_values c))\<rparr>,
       Int32s_response (wvs_values c))"
| "read_back (ReadFloat32Var c) = None"
| "read_back (ReadFloat32Vars c) = None"
| "read_back (WriteFloat32Var c) =
     Some (ReadFloat32Var \<lparr>rv_index = wv_index c\<rparr>, Float32_response (wv_value c))"
| "read_back (WriteFloat32Vars c) =
     Some (ReadFloat32Vars \<lparr>rvs_index = wvs_index c, rvs_count = of_nat (length (wvs_values c))\<rparr>,
       Float32s_response (wvs_values c))"
| "read_back (ReadPositionVar c) = None"
| "read_back (ReadPositionVars c) = None"
| "read_back (WritePositionVar c) =
     Some (ReadPositionVar \<lparr>rv_index = wv_index c\<rparr>, Position_response (wv_value c))"
| "read_back (WritePositionVars c) =
     Some (ReadPositionVars \<lparr>rvs_index = wvs_index c, rvs_count = of_nat (length (wvs_values c))\<rparr>,
       Positions_response (wvs_values c))"
| "read_back (DeleteFile c) = None"

primrec writable :: "command \<Rightarrow> bool" where
  "writable ReadStatus = False"
| "writable (ReadCurrentPosition c) = False"
| "writable (MoveL c) = False"
| "writable (ReadUint8Var c) = False"
| "writable (ReadUint8Vars c) = False"
| "writable (WriteUint8Var c) \<longleftrightarrow> True"
| "writable (WriteUint8Vars c) \<longleftrightarrow> length (wvs_values c) < 256"
| "writable (ReadInt16Var c) = False"
| "writable (ReadInt16Vars c) = False"
| "writable (WriteInt16Var c) \<longleftrightarrow> True"
| "writable (WriteInt16Vars c) \<longleftrightarrow> length (wvs_values c) < 256"
| "writable (ReadInt32Var c) = False"
| "writable (ReadInt32Vars c) = False"
| "writable (WriteInt32Var c) \<longleftrightarrow> True"
| "writable (WriteInt32Vars c) \<longleftrightarrow> length (wvs_values c) < 256"
| "writable (ReadFloat32Var c) = False"
| "writable (ReadFloat32Vars c) = False"
| "writable (WriteFloat32Var c) \<longleftrightarrow> True"
| "writable (WriteFloat32Vars c) \<longleftrightarrow> length (wvs_values c) < 256"
| "writable (ReadPositionVar c) = False"
| "writable (ReadPositionVars c) = False"
| "writable (WritePositionVar c) \<longleftrightarrow> is_full_pulse (wv_value c)"
| "writable (WritePositionVars c) \<longleftrightarrow> length (wvs_values c) < 256 \<and> (\<forall>v \<in> set (wvs_values c). is_full_pulse v)"
| "writable (DeleteFile c) = False"

lemma of_write_read_single:
  assumes "\<exists>bs. m = Returns bs \<and> d (drop header_size bs) = Some (Inr v, [])"
  shows "\<exists>bs. m = Returns bs \<and> respond f (d (drop header_size bs)) = Some (Inr (f v), [])"
  using assms by (auto simp: respond_def)

lemmas written_is_read =
  uint8_var.write_read_single int16_var.write_read_single int32_var.write_read_single
  float_var.write_read_single Position_var.write_read_single
  uint8_var.write_read_multiple int16_var.write_read_multiple int32_var.write_read_multiple
  float_var.write_read_multiple Position_var.write_read_multiple

text \<open>
  C1: For each of the five variable types, a write command followed by a read of the same
  variables gives the values that were written: the bytes a write puts behind the header of
  its request are, as the data of a response, decoded to the same values and used up
  completely. This covers single and multiple writes, for up to 255 values; for positions, for
  pulse positions with all eight joints.
\<close>

theorem written_values_read_back:
  assumes "read_back cmd = Some (rd, r)" and "writable cmd"
  shows "\<exists>bs. encode_command [] rid cmd = Returns bs
    \<and> decode_command (drop header_size bs) rd = Some (Inr r, [])"
  using assms
  by (cases cmd) (auto intro!: of_write_read_single written_is_read)

lemma written_values_read_back_witness:
  "\<exists>bs. encode_command [] 3 (WriteInt16Vars \<lparr>wvs_index = 5, wvs_values = [- 1, 300, 7]\<rparr>) = Returns bs
    \<and> decode_command (drop header_size bs) (ReadInt16Vars \<lparr>rvs_index = 5, rvs_count = 3\<rparr>)
      = Some (Inr (Int16s_response [- 1, 300, 7]), [])"
  by (rule written_values_read_back) simp_all

text \<open>
  C19: Every command is sent as one datagram: a request header of 32 bytes, of the division of
  the command, not acknowledging anything, with block number 0 and the request id it was
  given, followed by the data. The payload size in the header is the number of bytes that
  follow whenever that number fits in its 16 bits.
\<close>

theorem request_is_one_datagram:
  assumes "encode_command [] rid cmd = Returns bs"
  shows "\<exists>h payload. bs = header_image h @ payload \<and> length bs = header_size + length payload
    \<and> division h = command_division cmd \<and> request_id h = rid \<and> \<not> ack h \<and> block_number h = 0
    \<and> (length payload < 2 ^ 16 \<longrightarrow> unat (payload_size h) = length payload)"
proof -
  from encode_command_framed [OF assms] obtain h payload
    where "bs = header_image h @ payload" "division h = command_division cmd" "request_id h = rid"
      "\<not> ack h" "block_number h = 0" "payload_size h = of_nat (length payload)"
    by (auto simp: framed_def)
  then show ?thesis
    by (intro exI [of _ h] exI [of _ payload]) (simp add: unsigned_of_nat take_bit_nat_eq_self)
qed

lemma request_is_one_datagram_witness:
  "\<exists>bs h payload. encode_command [] 7 (ReadInt32Vars \<lparr>rvs_index = 1, rvs_count = 4\<rparr>) = Returns bs
    \<and> bs = header_image h @ payload \<and> length bs = header_size + length payload
    \<and> division h = Division_robot \<and> request_id h = 7 \<and> \<not> ack h \<and> block_number h = 0
    \<and> (length payload < 2 ^ 16 \<longrightarrow> unat (payload_size h) = length payload)"
  using request_is_one_datagram [of 7 "ReadInt32Vars \<lparr>rvs_index = 1, rvs_count = 4\<rparr>"] by auto


text \<open>
  Reading several variables accepts only a response of exactly the size of the count and
  the values, whose count is the number of variables asked for; a response with any other size
  or count is refused.
\<close>

theorem read_vars_checks_response:
  assumes "decodeReadVars t msg cmd = Some (Inr vs, rest)" and "rvs_count cmd \<noteq> 1"
  shows "length msg = 4 + unat (rvs_count cmd) * encoded_size t
    \<and> take 4 msg = le_bytes (ucast (rvs_count cmd) :: u32)"
proof -
  obtain count data where c: "readLittleEndian msg = Some (count :: u32, data)"
    and l: "length msg = 4 + unat (rvs_count cmd) * encoded_size t"
    and s: "sint count = uint (rvs_count cmd)"
    using assms by (auto simp: decodeReadVars_def Let_def split: if_splits Option.bind_splits)
  have "count = word_of_int (sint count)" by simp
  also have "\<dots> = ucast (rvs_count cmd)" by (simp only: s word_of_int_uint ucast_eq)
  finally show ?thesis
    using read_inverse [OF _ c] l by simp
qed

lemma read_vars_checks_response_witness:
  "\<exists>vs rest. decodeReadVars uint8_traits [2, 0, 0, 0, 8, 9] \<lparr>rvs_index = 0, rvs_count = 2\<rparr>
      = Some (Inr vs, rest)
    \<and> take 4 [2, 0, 0, 0, 8, 9] = le_bytes (ucast (2 :: u8) :: u32)"
proof -
  have "decodeReadVars uint8_traits [2, 0, 0, 0, 8, 9] \<lparr>rvs_index = 0, rvs_count = 2\<rparr>
      = Some (Inr [8, 9], [])"
    by code_simp
  from this read_vars_checks_response [OF this] show ?thesis by simp
qed

lemma file_list_loop_stuck:
  assumes "file_list_loop data line_start finger result = Some y" and "finger < length data - 1"
  shows "data ! finger = 0x0d \<and> data ! (finger + 1) = 0x0a"
proof -
  have "finger < length data - 1 \<longrightarrow> data ! finger = 0x0d \<and> data ! (finger + 1) = 0x0a"
    by (rule file_list_loop.raw_induct [OF _ assms(1)]) (auto split: if_splits)
  with assms(2) show ?thesis by simp
qed

lemma file_list_loop_result:
  assumes "2 \<le> length data"
  shows "file_list_loop data 0 0 [] =
    (if data ! 0 = 0x0d \<and> data ! 1 = 0x0a then Some Undefined else None)"
proof (cases "data ! 0 = 0x0d \<and> data ! 1 = 0x0a")
  case True
  then show ?thesis
    using assms by (subst file_list_loop.simps, subst file_list_loop.simps) simp
next
  case False
  then show ?thesis
    using file_list_loop_stuck [of data 0 0 "[]"] assms
    by (cases "file_list_loop data 0 0 []") auto
qed

lemma decode_ReadFileList_Returns:
  "decode_ReadFileList data = Returns r \<Longrightarrow> r = Inr [] \<or> (\<exists>e. r = Inl e)"
  by (cases "2 \<le> length data")
    (auto simp: decode_ReadFileList_def file_list_loop_result not_le less_Suc_eq numeral_2_eq_2
      split: if_splits)



lemma le_bytes_zero: "le_bytes (0 :: 'a::len word) = replicate (sizeof TYPE('a)) 0"
  by (simp add: le_bytes_def map_replicate_const)

lemma zero_words: "concat (map le_bytes (replicate k (0 :: i32))) = replicate (4 * k) 0"
proof (induction k)
  case 0
  then show ?case by simp
next
  case (Suc k)
  have "concat (map le_bytes (replicate (Suc k) (0 :: i32))) = replicate 4 0 @ replicate (4 * k) 0"
    by (simp only: replicate_Suc list.map concat.simps le_bytes_zero Suc) simp
  then show ?case by (simp only: replicate_add [symmetric] mult_Suc_right)
qed

lemma pulse_image_padding:
  assumes "length js \<le> 8"
  shows "take (20 + 4 * length js) (pulse_image tool js) @ replicate (32 - 4 * length js) 0
    = pulse_image tool js"
proof -
  define A where "A = le_bytes (0 :: u32) @ le_bytes (0 :: u32) @ le_bytes tool
    @ le_bytes (0 :: u32) @ le_bytes (0 :: u32) @ concat (map le_bytes js)"
  have "pulse_image tool js = A @ replicate (4 * (8 - length js)) 0"
    by (simp add: pulse_image_def A_def zero_words del: map_replicate)
  moreover have "length A = 20 + 4 * length js"
    by (simp add: A_def length_concat_le_bytes)
  moreover have "4 * (8 - length js) = 32 - 4 * length js" by simp
  ultimately show ?thesis by simp
qed

text \<open>
  A response to a request for the current position may have fewer than eight coordinates:
  for a robot of up to eight axes in pulses, the header words and one word per axis decode to
  a pulse position with these values, and zeros for the axes that are not there.
\<close>

theorem current_position_is_padded:
  assumes "length js \<le> 8"
  shows "decode_ReadCurrentPosition (take (20 + 4 * length js) (pulse_image tool js)) =
    Some (Inr (Pulse (PulsePosition_of_array (js @ replicate (8 - length js) 0) tool)),
      take (20 + 4 * length js) (pulse_image tool js))"
proof -
  let ?msg = "take (20 + 4 * length js) (pulse_image tool js)"
  have l: "length ?msg = 20 + 4 * length js"
    using assms by (simp add: length_pulse_image)
  have "?msg @ replicate (52 - length ?msg) 0 = pulse_image tool js"
    using pulse_image_padding [OF assms, of tool] by (simp only: l) simp
  then show ?thesis
    using decode_pulse_image [OF assms, of tool "[]"] l assms
    unfolding decode_ReadCurrentPosition_def Let_def by simp
qed

lemma current_position_is_padded_witness:
  "decode_ReadCurrentPosition (take 28 (pulse_image 1 [100, - 5])) =
    Some (Inr (Pulse (PulsePosition_of_array [100, - 5, 0, 0, 0, 0, 0, 0] 1)),
      take 28 (pulse_image 1 [100, - 5]))"
  using current_position_is_padded [of "[100, - 5]" 1] by (simp add: eval_nat_numeral)

lemma nine_words: "replicate 9 b = [b, b, b, b, b, b, b, b, b]"
  by (simp add: eval_nat_numeral)

text \<open>
  C34: A linear move whose target can be encoded is sent as 26 words behind the header: the
  control group, counted from 1, the speed, the coordinate system, the six coordinates, the
  pose configuration, the tool and the user frame, with zeros for everything the library does
  not support. The header however is not that of a move: its command and its service are those
  of a request to read the robot position.
\<close>

theorem MoveL_request:
  assumes "add_int (ml_control_group cmd) 1 = Returns grp"
    and "systemToMoveLSystem (cp_frame (ml_target cmd)) = Returns sys"
    and "wire_coordinate (cp_x (ml_target cmd)) 1000 = Returns x"
    and "wire_coordinate (cp_y (ml_target cmd)) 1000 = Returns y"
    and "wire_coordinate (cp_z (ml_target cmd)) 1000 = Returns z"
    and "wire_coordinate (cp_rx (ml_target cmd)) 10000 = Returns rx"
    and "wire_coordinate (cp_ry (ml_target cmd)) 10000 = Returns ry"
    and "wire_coordinate (cp_rz (ml_target cmd)) 10000 = Returns rz"
  shows "\<exists>h. encode_command [] rid (MoveL cmd) = Returns (header_image h @ concat (map le_bytes
        ([grp, 0, SpeedType_value (speed_type (ml_speed cmd)), speed_value (ml_speed cmd), sys,
          x, y, z, rx, ry, rz, 0, 0, ucast (PoseConfiguration_to_u8 (cp_type (ml_target cmd))), 0,
          cp_tool (ml_target cmd), word_of_int (userCoordinateNumber (cp_frame (ml_target cmd)))]
         @ replicate 9 0)))
    \<and> payload_size h = 26 * 4
    \<and> req_command h = robot_command_code read_robot_position
    \<and> req_command h \<noteq> robot_command_code move_cartesian
    \<and> req_service h = service_value get_all"
  by (rule exI [of _ "makeRobotRequestHeader 104 (robot_command_code read_robot_position) 2 1
      (service_value get_all) rid"])
    (simp add: encode_MoveL_def Let_def encode_RequestHeader_eq writeLittleEndian_eq
      encode_coordinate_eq foldl_write_u32 assms nine_words)

definition MoveL_example :: MoveL where
  "MoveL_example =
     \<lparr>ml_control_group = 0,
      ml_target =
        \<lparr>cp_x = Finite 500, cp_y = Finite (1 / 2), cp_z = Finite 0, cp_rx = Finite 90,
         cp_ry = Finite 0, cp_rz = Finite 0, cp_frame = CS_robot, cp_type = 1, cp_tool = 2\<rparr>,
      ml_speed = \<lparr>speed_type = translation, speed_value = 1000\<rparr>\<rparr>"

lemma MoveL_request_witness:
  "\<exists>h. encode_command [] 9 (MoveL MoveL_example) = Returns (header_image h @ concat (map le_bytes
        ([1, 0, 1, 1000, 17, 500000, 500, 0, 900000, 0, 0, 0, 0, 1, 0, 2, 0 :: u32]
         @ replicate 9 0)))
    \<and> payload_size h = 26 * 4
    \<and> req_command h = robot_command_code read_robot_position
    \<and> req_command h \<noteq> robot_command_code move_cartesian
    \<and> req_service h = service_value get_all"
proof -
  have a: "add_int (ml_control_group MoveL_example) 1 = Returns 1"
    "systemToMoveLSystem (cp_frame (ml_target MoveL_example)) = Returns 17"
    "wire_coordinate (cp_x (ml_target MoveL_example)) 1000 = Returns 500000"
    "wire_coordinate (cp_y (ml_target MoveL_example)) 1000 = Returns 500"
    "wire_coordinate (cp_z (ml_target MoveL_example)) 1000 = Returns 0"
    "wire_coordinate (cp_rx (ml_target MoveL_example)) 10000 = Returns 900000"
    "wire_coordinate (cp_ry (ml_target MoveL_example)) 10000 = Returns 0"
    "wire_coordinate (cp_rz (ml_target MoveL_example)) 10000 = Returns 0"
    by code_simp+
  have b: "SpeedType_value (speed_type (ml_speed MoveL_example)) = 1"
    "speed_value (ml_speed MoveL_example) = 1000"
    "ucast (PoseConfiguration_to_u8 (cp_type (ml_target MoveL_example))) = (1 :: u32)"
    "cp_tool (ml_target MoveL_example) = 2"
    "word_of_int (userCoordinateNumber (cp_frame (ml_target MoveL_example))) = (0 :: u32)"
    by code_simp+
  show ?thesis using MoveL_request [OF a, of 9] unfolding b .
qed

text \<open>
  Nothing keeps a request within the 479 bytes of data a datagram may carry: a write of
  ten or more positions is encoded without complaint, with more data than the limit that the
  library itself checks on responses.
\<close>

theorem oversized_write_is_encoded:
  assumes "10 \<le> length vs" "\<forall>v \<in> set vs. is_full_pulse v"
  shows "\<exists>h payload. encode_command [] rid (WritePositionVars \<lparr>wvs_index = i, wvs_values = vs\<rparr>)
      = Returns (header_image h @ payload) \<and> length payload > max_payload_size"
proof -
  obtain b where b: "encode_all (encode_value Position_traits) [] vs = Returns b"
    using Position_var.encode_all_valid [OF assms(2)] ..
  have "length b = length vs * 52"
    using Position_var.encode_all_size [OF b] by (simp add: Position_traits_def)
  then have "length (le_bytes (of_nat (length vs) :: u32) @ b) > max_payload_size"
    using assms(1) by (simp add: max_payload_size_def)
  with assms(1) show ?thesis
    by (fastforce simp: Position_var.encodeWriteVars_eq b)
qed

lemma oversized_write_is_encoded_witness:
  "\<exists>h payload. encode_command [] 1 (WritePositionVars \<lparr>wvs_index = 0,
        wvs_values = replicate 10 (Pulse (PulsePosition_of_array (replicate 8 0) 0))\<rparr>)
      = Returns (header_image h @ payload) \<and> length payload > max_payload_size"
  by (rule oversized_write_is_encoded) (auto simp: is_full_pulse_def intro: exI [of _ "replicate 8 0"])

end
