(* ===== verification/Client.thy ===== *)
theory Client
  imports Command_Facts
begin

text \<open>
  The client: \<open>include/yaskawa_ethernet/udp/client.hpp\<close> and \<open>src/udp/client.cpp\<close>.
  Its state is the counter of request ids, the map of open requests and whether its socket is
  open.  A handler (\<open>std::function\<close>) is a value of a type of the caller's choice; the client
  only stores it and says when it is invoked.  What the client asks asio to do is a list of
  actions.  \<open>handler_registry\<close> states what the sessions rely on when they register and
  remove their handlers; it is interpreted on the client's map.
\<close>

section \<open>State\<close>

text \<open>
  A \<open>std::map\<close> iterator is valid as long as the entry it was returned for is in the map; an
  entry inserted later under the same key is another one.  So entries are numbered in the
  order of insertion, and a \<open>HandlerToken\<close> names the key and the number of its entry.
\<close>

record 'h OpenRequest =
  start_time :: int
  on_reply :: 'h
  entry_number :: nat

record HandlerToken =
  token_key :: u8
  token_entry :: nat

record 'h Client =
  client_request_id :: u8
  client_requests :: "u8 \<Rightarrow> 'h OpenRequest option"
  next_entry :: nat
  socket_open :: bool
  has_on_error :: bool

definition read_buffer_size :: nat where
  "read_buffer_size = 512"

definition new_Client :: "bool \<Rightarrow> 'h Client" where
  "new_Client handler =
     \<lparr>client_request_id = 1, client_requests = Map.empty, next_entry = 0, socket_open = False,
      has_on_error = handler\<rparr>"

section \<open>Requests\<close>

definition allocateId :: "'h Client \<Rightarrow> u8 \<times> 'h Client" where
  "allocateId client = (client_request_id client, client\<lparr>client_request_id := client_request_id client + 1\<rparr>)"

definition registerHandler ::
    "int \<Rightarrow> u8 \<Rightarrow> 'h \<Rightarrow> 'h Client \<Rightarrow> (HandlerToken \<times> 'h Client) outcome" where
  "registerHandler now rid handler client =
     (case client_requests client rid of
        Some _ \<Rightarrow> Throws (Logic_error (''request_id '' @ to_string (uint rid)
          @ '' is already taken, can not register handler''))
      | None \<Rightarrow> Returns
          (\<lparr>token_key = rid, token_entry = next_entry client\<rparr>,
           client\<lparr>client_requests := (client_requests client)(rid \<mapsto>
               \<lparr>start_time = now, on_reply = handler, entry_number = next_entry client\<rparr>),
             next_entry := next_entry client + 1\<rparr>))"

definition valid_token :: "'h Client \<Rightarrow> HandlerToken \<Rightarrow> bool" where
  "valid_token client token =
     (case client_requests client (token_key token) of
        None \<Rightarrow> False | Some r \<Rightarrow> entry_number r = token_entry token)"

text \<open>\<open>erase\<close> of an iterator that is not valid is undefined behaviour.\<close>

definition removeHandler :: "HandlerToken \<Rightarrow> 'h Client \<Rightarrow> 'h Client outcome" where
  "removeHandler token client =
     (if valid_token client token
      then Returns (client\<lparr>client_requests := (client_requests client)(token_key token := None)\<rparr>)
      else Undefined)"

section \<open>Connecting and receiving\<close>

text \<open>
  What the client does besides changing its state: calls of the callbacks it was given, and
  asynchronous operations it starts.  \<open>Receive\<close> is a call of \<open>receive\<close>, which looks at the
  socket when it is reached, that is after the callback before it in the list has run.
\<close>

datatype 'h action =
    Connect_callback error
  | Report_error error
  | Invoke 'h ResponseHeader bytes
  | Receive

definition onConnect :: "error \<Rightarrow> 'h action list" where
  "onConnect err = [Connect_callback err] @ (if \<not> is_error err then [Receive] else [])"

text \<open>Whether \<open>receive\<close> starts an \<open>async_receive\<close>, into how many bytes.\<close>

definition receive :: "'h Client \<Rightarrow> nat option" where
  "receive client = (if \<not> socket_open client then None else Some read_buffer_size)"

definition close :: "'h Client \<Rightarrow> 'h Client" where
  "close client = client\<lparr>socket_open := False\<rparr>"

definition report :: "'h Client \<Rightarrow> error \<Rightarrow> 'h action list" where
  "report client err = (if has_on_error client then [Report_error err] else [])"

text \<open>
  \<open>onReceive\<close>, called with the error code of the operation and the bytes it put into the
  buffer; \<open>None\<close> if decoding them leaves the buffer.
\<close>

definition onReceive :: "error_code \<Rightarrow> bytes \<Rightarrow> 'h Client \<Rightarrow> 'h action list option" where
  "onReceive err msg client =
     (if is_operation_canceled err then Some []
      else if ec_is_error err
      then Some (report client (Error (to_errc err) []) @ [Receive])
      else do {
        (header, msg) \<leftarrow> decodeResponseHeader msg;
        case header of
          Inl e \<Rightarrow> Some (report client e @ [Receive])
        | Inr header \<Rightarrow>
            (case client_requests client (request_id header) of
               None \<Rightarrow> Some (report client (Error (make_error_code unknown_request)
                   [''no handler for request id '' @ to_string (uint (request_id header))])
                 @ [Receive])
             | Some handler \<Rightarrow> Some [Invoke (on_reply handler) header msg, Receive])
      })"

section \<open>The registry of handlers\<close>

text \<open>
  What a session relies on: registering under a free id gives a token that is valid, and is
  the only way to get a handler into the map; a valid token can be removed, once; and what
  happens under one id does not concern the tokens of another.
\<close>

locale handler_registry =
  fixes find :: "'c \<Rightarrow> 'k \<Rightarrow> 'h option"
    and register :: "'k \<Rightarrow> 'h \<Rightarrow> 'c \<Rightarrow> ('t \<times> 'c) outcome"
    and remove :: "'t \<Rightarrow> 'c \<Rightarrow> 'c outcome"
    and valid :: "'c \<Rightarrow> 't \<Rightarrow> bool"
    and key :: "'t \<Rightarrow> 'k"
    and inv :: "'c \<Rightarrow> bool"
  assumes register_free: "inv c \<Longrightarrow> find c k = None \<Longrightarrow> \<exists>t c'. register k h c = Returns (t, c')"
    and register_taken: "find c k \<noteq> None \<Longrightarrow> \<exists>e. register k h c = Throws e"
    and register_find: "register k h c = Returns (t, c') \<Longrightarrow> find c' = (find c)(k \<mapsto> h)"
    and register_valid: "inv c \<Longrightarrow> register k h c = Returns (t, c') \<Longrightarrow>
      key t = k \<and> valid c' t \<and> inv c'"
    and register_keeps: "inv c \<Longrightarrow> register k h c = Returns (t, c') \<Longrightarrow> valid c s \<Longrightarrow> valid c' s"
    and remove_valid: "inv c \<Longrightarrow> valid c t \<Longrightarrow>
      \<exists>c'. remove t c = Returns c' \<and> inv c' \<and> find c' = (find c)(key t := None)"
    and remove_invalid: "\<not> valid c t \<Longrightarrow> remove t c = Undefined"
    and remove_keeps: "inv c \<Longrightarrow> remove t c = Returns c' \<Longrightarrow> valid c s \<Longrightarrow> key s \<noteq> key t \<Longrightarrow> valid c' s"
    and valid_find: "valid c t \<Longrightarrow> find c (key t) \<noteq> None"
begin

text \<open>A registered handler is found until it is removed, and not afterwards.\<close>

lemma registered_is_found: "register k h c = Returns (t, c') \<Longrightarrow> find c' k = Some h"
  by (simp add: register_find)

lemma removed_is_not_found:
  assumes "inv c" "valid c t" "remove t c = Returns c'"
  shows "find c' (key t) = None" and "\<not> valid c' t"
proof -
  show f: "find c' (key t) = None" using remove_valid [OF assms(1,2)] assms(3) by auto
  then show "\<not> valid c' t" using valid_find by blast
qed

text \<open>Removing a handler twice is undefined behaviour.\<close>

lemma remove_twice:
  assumes "inv c" "remove t c = Returns c'"
  shows "remove t c' = Undefined"
proof -
  have "valid c t" using assms(2) remove_invalid by fastforce
  from removed_is_not_found(2) [OF assms(1) this assms(2)] show ?thesis by (rule remove_invalid)
qed

text \<open>Registering and removing leaves the map as it was.\<close>

lemma register_remove:
  assumes "inv c" "register k h c = Returns (t, c')"
  shows "\<exists>c''. remove t c' = Returns c'' \<and> inv c'' \<and> find c'' = find c"
proof -
  have free: "find c k = None" using assms(2) register_taken [of c k h] by fastforce
  note v = register_valid [OF assms]
  from remove_valid [of c' t] v obtain c'' where "remove t c' = Returns c''" "inv c''"
    "find c'' = (find c')(key t := None)" by blast
  moreover have "(find c')(key t := None) = find c"
    using v free register_find [OF assms(2)] by (auto simp: fun_eq_iff)
  ultimately show ?thesis by auto
qed

end

text \<open>The numbers of the entries are fresh.\<close>

definition client_inv :: "'h Client \<Rightarrow> bool" where
  "client_inv c \<longleftrightarrow> (\<forall>k r. client_requests c k = Some r \<longrightarrow> entry_number r < next_entry c)"

definition find_handler :: "'h Client \<Rightarrow> u8 \<Rightarrow> 'h option" where
  "find_handler c k = map_option on_reply (client_requests c k)"

interpretation registry:
  handler_registry find_handler "registerHandler now" removeHandler valid_token token_key client_inv
proof (unfold_locales, goal_cases)
  case (1 c k h)
  then show ?case by (simp add: find_handler_def registerHandler_def)
next
  case (2 c k h)
  then show ?case by (auto simp: find_handler_def registerHandler_def)
next
  case (3 k h c t c')
  then show ?case
    by (auto simp: find_handler_def registerHandler_def fun_eq_iff split: option.splits)
next
  case (4 c k h t c')
  then show ?case
    by (auto simp: client_inv_def registerHandler_def valid_token_def less_Suc_eq
        split: option.splits if_splits)
next
  case (5 c k h t c' s)
  then show ?case
    by (auto simp: registerHandler_def valid_token_def split: option.splits if_splits)
next
  case (6 c t)
  then show ?case
    by (auto simp: removeHandler_def client_inv_def find_handler_def fun_eq_iff)
next
  case (7 c t)
  then show ?case by (simp add: removeHandler_def)
next
  case (8 c t c' s)
  then show ?case by (auto simp: removeHandler_def valid_token_def split: if_splits)
next
  case (9 c t)
  then show ?case by (auto simp: valid_token_def find_handler_def split: option.splits)
qed

text \<open>The exception of \<open>registerHandler\<close>.\<close>

definition request_id_taken :: "u8 \<Rightarrow> exn" where
  "request_id_taken rid = Logic_error (''request_id '' @ to_string (uint rid)
     @ '' is already taken, can not register handler'')"

lemma registerHandler_taken:
  "find_handler c rid \<noteq> None \<Longrightarrow> registerHandler now rid h c = Throws (request_id_taken rid)"
  by (auto simp: find_handler_def registerHandler_def request_id_taken_def)

text \<open>
  C18: The open requests of a client are a partial map from request ids to handlers:
  registering extends the map under a free id and throws for one that is taken, and the token
  it returns stays valid whatever is registered besides; removing takes exactly the id of a
  valid token out of the map, and is undefined behaviour for any other token.
\<close>

theorem open_requests_refine_map:
  assumes "client_inv c"
  shows "(case registerHandler now k h c of
        Returns (t, c') \<Rightarrow> find_handler c k = None \<and> find_handler c' = (find_handler c)(k \<mapsto> h)
          \<and> client_inv c' \<and> token_key t = k \<and> valid_token c' t
          \<and> (\<forall>s. valid_token c s \<longrightarrow> valid_token c' s)
      | Throws e \<Rightarrow> find_handler c k \<noteq> None
      | _ \<Rightarrow> False)
    \<and> (case removeHandler t c of
        Returns c' \<Rightarrow> valid_token c t \<and> find_handler c' = (find_handler c)(token_key t := None)
          \<and> client_inv c' \<and> (\<forall>s. valid_token c s \<and> token_key s \<noteq> token_key t \<longrightarrow> valid_token c' s)
      | Undefined \<Rightarrow> \<not> valid_token c t
      | _ \<Rightarrow> False)"
proof
  show "case registerHandler now k h c of
        Returns (t, c') \<Rightarrow> find_handler c k = None \<and> find_handler c' = (find_handler c)(k \<mapsto> h)
          \<and> client_inv c' \<and> token_key t = k \<and> valid_token c' t
          \<and> (\<forall>s. valid_token c s \<longrightarrow> valid_token c' s)
      | Throws e \<Rightarrow> find_handler c k \<noteq> None
      | _ \<Rightarrow> False"
  proof (cases "find_handler c k = None")
    case True
    then obtain t c' where r: "registerHandler now k h c = Returns (t, c')"
      using registry.register_free [OF assms] by blast
    with True registry.register_find [OF r] registry.register_valid [OF assms r]
      registry.register_keeps [OF assms r] show ?thesis by simp
  next
    case False
    with registry.register_taken [of c k now h] show ?thesis by auto
  qed
  show "case removeHandler t c of
        Returns c' \<Rightarrow> valid_token c t \<and> find_handler c' = (find_handler c)(token_key t := None)
          \<and> client_inv c' \<and> (\<forall>s. valid_token c s \<and> token_key s \<noteq> token_key t \<longrightarrow> valid_token c' s)
      | Undefined \<Rightarrow> \<not> valid_token c t
      | _ \<Rightarrow> False"
  proof (cases "valid_token c t")
    case True
    then obtain c' where r: "removeHandler t c = Returns c'" "client_inv c'"
      "find_handler c' = (find_handler c)(token_key t := None)"
      using registry.remove_valid [OF assms] by blast
    with True registry.remove_keeps [OF assms r(1)] show ?thesis by auto
  next
    case False
    with registry.remove_invalid [of c t] show ?thesis by simp
  qed
qed

lemma open_requests_refine_map_witness:
  "\<exists>t c'. registerHandler 0 5 ''h'' (new_Client True) = Returns (t, c')
    \<and> find_handler c' = [5 \<mapsto> ''h''] \<and> valid_token c' t
    \<and> removeHandler t (new_Client True :: string Client) = Undefined"
proof -
  have inv: "client_inv (new_Client True :: string Client)" and free: "find_handler (new_Client True) k = None"
    for k by (simp_all add: client_inv_def new_Client_def find_handler_def)
  have f: "find_handler (new_Client True :: string Client) = Map.empty" by (simp add: fun_eq_iff free)
  have v: "\<not> valid_token (new_Client True :: string Client) t" for t
    by (simp add: valid_token_def new_Client_def)
  obtain token c' where r: "registerHandler 0 5 ''h'' (new_Client True) = Returns (token, c')"
    by (simp add: registerHandler_def new_Client_def)
  note m = open_requests_refine_map [OF inv, where now = 0 and k = 5 and h = "''h''" and t = token]
  have "find_handler c' = [5 \<mapsto> ''h'']" "valid_token c' token" using m by (simp_all add: r f)
  moreover have "removeHandler token (new_Client True :: string Client) = Undefined"
    using m by (cases "removeHandler token (new_Client True :: string Client)") (simp_all add: v)
  ultimately show ?thesis using r by blast
qed

section \<open>Facts on received datagrams\<close>

lemma onReceive_cases:
  assumes "\<not> is_operation_canceled err" "\<not> ec_is_error err"
  shows "\<exists>r rest. decodeResponseHeader msg = Some (r, rest) \<and> response_decoded msg (r, rest)"
  using decodeResponseHeader_holds [of msg] by (auto simp: holds_def)

lemma receive_returns: "\<exists>as. onReceive err msg client = Some as"
proof (cases "is_operation_canceled err \<or> ec_is_error err")
  case False
  then obtain r rest where "decodeResponseHeader msg = Some (r, rest)" using onReceive_cases by blast
  with False show ?thesis by (auto simp: onReceive_def split: sum.splits option.splits)
qed (auto simp: onReceive_def)

lemma invoked_layout:
  assumes "onReceive err msg client = Some acts" "Invoke h header data \<in> set acts"
  shows "decodeResponseHeader msg = Some (Inr header, data)
    \<and> find_handler client (request_id header) = Some h \<and> acts = [Invoke h header data, Receive]
    \<and> \<not> ec_is_error err"
  using assms
  by (auto simp: onReceive_def report_def find_handler_def split: if_splits Option.bind_splits
      sum.splits option.splits)

fun allocate_ids :: "nat \<Rightarrow> 'h Client \<Rightarrow> u8 list" where
  "allocate_ids 0 client = []"
| "allocate_ids (Suc n) client =
     (let (rid, client) = allocateId client in rid # allocate_ids n client)"

lemma length_allocate_ids [simp]: "length (allocate_ids n client) = n"
  by (induction n arbitrary: client) (simp_all add: allocateId_def)

lemma nth_allocate_ids:
  "i < n \<Longrightarrow> allocate_ids n client ! i = client_request_id client + of_nat i"
  by (induction n arbitrary: client i) (auto simp: allocateId_def nth_Cons split: nat.split)

lemma of_nat_inj_u8: "i < 256 \<Longrightarrow> j < 256 \<Longrightarrow> (of_nat i :: u8) = of_nat j \<longleftrightarrow> i = j"
  by (simp add: word_of_nat_eq_iff take_bit_nat_eq_self)

section \<open>Properties\<close>


text \<open>
  A response reaches the handler of its request: a datagram with the layout of a response
  to an open request, whatever its reserved bytes are, is handed to the handler registered for
  that request id with the header fields and the data it was built from.
\<close>

theorem response_reaches_its_handler:
  assumes "response_header_ok h" "length payload = unat (payload_size h)"
    and "length r8 = 8" "length r2 = 2" "length p2 = 2"
    and "registerHandler now (request_id h) handler client = Returns (token, client')"
  shows "onReceive ec_success (response_bytes h r1 r8 r2 p2 payload) client'
    = Some [Invoke handler h payload, Receive]"
proof -
  have "find_handler client' (request_id h) = Some handler"
    using assms(6) by (rule registry.registered_is_found)
  then show ?thesis
    by (auto simp: onReceive_def find_handler_def ec_success_def is_operation_canceled_def
        ec_is_error_def decodeResponseHeader_complete [OF assms(3-5,1,2)])
qed

definition example_response :: ResponseHeader where
  "example_response =
     \<lparr>payload_size = 2, division = Division_robot, ack = True, request_id = 5, block_number = 0,
      resp_service = 0x81, status = 0, extra_status = 0\<rparr>"

lemma response_reaches_its_handler_witness:
  "\<exists>token client'. registerHandler 0 5 ''handler'' (new_Client True) = Returns (token, client')
    \<and> onReceive ec_success
        (response_bytes example_response 3 (replicate 8 0x39) [0, 0] [0, 0] [7, 8]) client'
      = Some [Invoke ''handler'' example_response [7, 8], Receive]"
proof -
  obtain token client'
    where r: "registerHandler 0 5 ''handler'' (new_Client True) = Returns (token, client')"
    by (simp add: registerHandler_def new_Client_def)
  then have "onReceive ec_success
      (response_bytes example_response 3 (replicate 8 0x39) [0, 0] [0, 0] [7, 8]) client'
    = Some [Invoke ''handler'' example_response [7, 8], Receive]"
    by (intro response_reaches_its_handler)
      (simp_all add: example_response_def response_header_ok_def max_payload_size_def)
  with r show ?thesis by blast
qed

text \<open>
  The receive buffer is large enough: a response that reaches a handler is at most 511
  bytes long, so it was not cut off by the buffer of 512; a datagram that fills the buffer is
  never handed on.
\<close>

theorem dispatched_response_fits_buffer:
  assumes "onReceive err msg client = Some acts" and "Invoke h header data \<in> set acts"
  shows "length msg < read_buffer_size"
proof -
  have "decodeResponseHeader msg = Some (Inr header, data)"
    using invoked_layout [OF assms] by simp
  then obtain r1 r8 r2 p2 where ok: "response_header_ok header"
      and "length r8 = 8" "length r2 = 2" "length p2 = 2"
      and "msg = response_bytes header r1 r8 r2 p2 data"
      and "length data = unat (payload_size header)"
    by (auto simp: decodeResponseHeader_iff)
  then show ?thesis
    by (auto simp: length_response_bytes header_size_def read_buffer_size_def
        response_header_ok_def max_payload_size_def)
qed

lemma dispatched_response_fits_buffer_witness:
  "\<exists>acts. onReceive ec_success
      (response_bytes example_response 3 (replicate 8 0x39) [0, 0] [0, 0] [7, 8])
      (new_Client True\<lparr>client_requests := [5 \<mapsto>
        \<lparr>start_time = 0, on_reply = ''h'', entry_number = 0\<rparr>]\<rparr>) = Some acts
    \<and> Invoke ''h'' example_response [7, 8] \<in> set acts
    \<and> length (response_bytes example_response 3 (replicate 8 0x39) [0, 0] [0, 0] [7, 8])
      < read_buffer_size"
proof -
  let ?msg = "response_bytes example_response 3 (replicate 8 0x39) [0, 0] [0, 0] [7, 8]"
  let ?client = "new_Client True\<lparr>client_requests := [5 \<mapsto>
        \<lparr>start_time = 0, on_reply = ''h'', entry_number = 0\<rparr>]\<rparr>"
  have "decodeResponseHeader ?msg = Some (Inr example_response, [7, 8])"
    by (rule decodeResponseHeader_complete)
      (simp_all add: example_response_def response_header_ok_def max_payload_size_def)
  then have a: "onReceive ec_success ?msg ?client = Some [Invoke ''h'' example_response [7, 8], Receive]"
    by (simp add: onReceive_def ec_success_def is_operation_canceled_def ec_is_error_def
        example_response_def)
  from dispatched_response_fits_buffer [OF a, of "''h''" example_response "[7, 8]"]
  have "length ?msg < read_buffer_size" by simp
  with a show ?thesis by simp
qed

text \<open>
  Request ids wrap: 256 ids allocated in a row are all different, and the next one is the
  first again. Registering a handler for an id that is still open throws instead of replacing
  the handler that is there.
\<close>

theorem request_ids_wrap:
  "distinct (allocate_ids 256 client)
   \<and> allocate_ids 257 client ! 256 = allocate_ids 257 client ! 0
   \<and> (find_handler client rid \<noteq> None \<longrightarrow> (\<exists>e. registerHandler now rid h client = Throws (Logic_error e)))"
proof -
  have "distinct (allocate_ids 256 client)"
  proof (rule distinct_conv_nth [THEN iffD2], intro allI impI)
    fix i j :: nat
    assume "i < length (allocate_ids 256 client)" "j < length (allocate_ids 256 client)" "i \<noteq> j"
    then show "allocate_ids 256 client ! i \<noteq> allocate_ids 256 client ! j"
      by (simp add: nth_allocate_ids of_nat_inj_u8)
  qed
  moreover have "allocate_ids 257 client ! 256 = allocate_ids 257 client ! 0"
    by (simp add: nth_allocate_ids)
  ultimately show ?thesis
    by (auto simp: find_handler_def registerHandler_def)
qed

lemma request_ids_wrap_witness:
  "\<exists>e. registerHandler 1 5 ''b'' (new_Client True\<lparr>client_requests := [5 \<mapsto>
        \<lparr>start_time = 0, on_reply = ''a'', entry_number = 0\<rparr>]\<rparr>) = Throws (Logic_error e)"
  using request_ids_wrap [of "new_Client True\<lparr>client_requests := [5 \<mapsto>
        \<lparr>start_time = 0, on_reply = ''a'', entry_number = 0\<rparr>]\<rparr>" 5 1 "''b''"]
  by (simp add: find_handler_def)

end
