(* ===== verification/Session_Contract.thy ===== *)
theory Session_Contract
  imports Client "HOL-Library.Multiset"
begin

text \<open>
  What every session of the client has in common.  A session is a state and a step function
  on the events asio and the client deliver to it; what it does in return is a list of
  effects, in the order of the calls.  The locale \<open>once_machine\<close> is the contract with the
  caller: the operation completes at most once.  \<open>session\<close> adds the contract with the client:
  when a session completes it has given back every handler token it held, each exactly once.  \<open>resolvable_session\<close> is what
  \<open>DeadlineSession\<close> (\<open>udp/impl/deadline_session.hpp\<close>) needs of the session it wraps; the
  wrapped session satisfies the contract again, and is done once its deadline has passed.
\<close>

section \<open>Events and effects\<close>

text \<open>
  \<open>Remove\<close> is a call of \<open>Client::removeHandler\<close>, \<open>Complete\<close> the call of the callback with the
  result, \<open>Send\<close> the start of an \<open>async_send\<close>, \<open>Post_reset\<close> the post of the handler that
  drops the session.
\<close>

datatype 'r effect =
    Send bytes
  | Remove HandlerToken
  | Complete "'r result"
  | Received nat
  | Written nat nat
  | Start_timer int
  | Cancel_timer
  | Post_reset

fun completions :: "'r effect list \<Rightarrow> 'r result list" where
  "completions [] = []"
| "completions (Complete r # es) = r # completions es"
| "completions (e # es) = completions es"

fun removed :: "'r effect list \<Rightarrow> HandlerToken list" where
  "removed [] = []"
| "removed (Remove t # es) = t # removed es"
| "removed (e # es) = removed es"

lemma completions_append [simp]: "completions (a @ b) = completions a @ completions b"
  by (induction a rule: completions.induct) auto

lemma removed_append [simp]: "removed (a @ b) = removed a @ removed b"
  by (induction a rule: removed.induct) auto

text \<open>A reply for the request, or the end of sending it.\<close>

datatype session_event =
    Reply ResponseHeader bytes
  | Sent error_code

section \<open>The contract\<close>

locale once_machine =
  fixes step :: "'s \<Rightarrow> 'e \<Rightarrow> ('s \<times> 'o list) outcome"
    and is_done :: "'s \<Rightarrow> bool"
    and ok :: "'s \<Rightarrow> bool"
    and completed :: "'o list \<Rightarrow> 'c list"
  assumes completed_append: "completed (os @ ps) = completed os @ completed ps"
    and step_ok: "ok s \<Longrightarrow> step s e = Returns (s', os) \<Longrightarrow> ok s'"
    and step_done: "ok s \<Longrightarrow> is_done s \<Longrightarrow> step s e = Returns (s', os) \<Longrightarrow>
      is_done s' \<and> completed os = []"
    and step_once: "ok s \<Longrightarrow> \<not> is_done s \<Longrightarrow> step s e = Returns (s', os) \<Longrightarrow>
      length (completed os) = of_bool (is_done s')"
begin

lemma run_ok: "ok s \<Longrightarrow> run_machine step s evs = Returns (s', es) \<Longrightarrow> ok s'"
  using step_ok by (rule run_machine_invariant)

lemma completed_Nil: "completed [] = []"
  using completed_append [of "[]" "[]"] by simp

lemma run_done:
  "ok s \<Longrightarrow> is_done s \<Longrightarrow> run_machine step s evs = Returns (s', es) \<Longrightarrow>
   is_done s' \<and> completed es = []"
proof (induction evs arbitrary: s es)
  case Nil
  then show ?case by (simp add: completed_Nil)
next
  case (Cons ev evs)
  then obtain s1 es1 es2 where s: "step s ev = Returns (s1, es1)"
    and r: "run_machine step s1 evs = Returns (s', es2)" and es: "es = es1 @ es2" by auto
  from step_done [OF Cons.prems(1,2) s] step_ok [OF Cons.prems(1) s] Cons.IH [OF _ _ r]
  show ?case by (simp add: es completed_append)
qed

text \<open>However the events come, there is exactly one completion once the machine is done.\<close>

lemma run_once:
  "ok s \<Longrightarrow> \<not> is_done s \<Longrightarrow> run_machine step s evs = Returns (s', es) \<Longrightarrow>
   length (completed es) = of_bool (is_done s')"
proof (induction evs arbitrary: s es)
  case Nil
  then show ?case by (simp add: completed_Nil)
next
  case (Cons ev evs)
  then obtain s1 es1 es2 where s: "step s ev = Returns (s1, es1)"
    and r: "run_machine step s1 evs = Returns (s', es2)" and es: "es = es1 @ es2" by auto
  have ok1: "ok s1" using Cons.prems(1) s by (rule step_ok)
  show ?case
  proof (cases "is_done s1")
    case True
    from run_done [OF ok1 this r] step_once [OF Cons.prems(1,2) s] True show ?thesis
      by (simp add: es completed_append)
  next
    case False
    with Cons.IH [OF ok1 False r] step_once [OF Cons.prems(1,2) s] show ?thesis
      by (simp add: es completed_append)
  qed
qed

end

text \<open>A session: its completions are those of its effects, and it gives its tokens back.\<close>

locale session = once_machine step is_done ok completions
  for step :: "'s \<Rightarrow> 'e \<Rightarrow> ('s \<times> 'r effect list) outcome"
    and is_done :: "'s \<Rightarrow> bool"
    and tokens :: "'s \<Rightarrow> HandlerToken list"
    and ok :: "'s \<Rightarrow> bool" +
  assumes step_tokens: "ok s \<Longrightarrow> step s e = Returns (s', es) \<Longrightarrow>
      mset (tokens s) = mset (removed es) + mset (tokens s')"
    and done_tokens: "ok s \<Longrightarrow> is_done s \<Longrightarrow> tokens s = []"
begin

lemma run_tokens:
  "ok s \<Longrightarrow> run_machine step s evs = Returns (s', es) \<Longrightarrow>
   mset (tokens s) = mset (removed es) + mset (tokens s')"
proof (induction evs arbitrary: s es)
  case Nil
  then show ?case by simp
next
  case (Cons ev evs)
  then obtain s1 es1 es2 where s: "step s ev = Returns (s1, es1)"
    and r: "run_machine step s1 evs = Returns (s', es2)" and es: "es = es1 @ es2" by auto
  from step_tokens [OF Cons.prems(1) s] Cons.IH [OF step_ok [OF Cons.prems(1) s] r]
  show ?case by (simp add: es)
qed

text \<open>The tokens a finished session has removed are those it had, each of them once.\<close>

lemma run_releases:
  assumes "ok s" "run_machine step s evs = Returns (s', es)" "is_done s'"
  shows "mset (removed es) = mset (tokens s)"
  using run_tokens [OF assms(1,2)] done_tokens [OF run_ok [OF assms(1,2)] assms(3)] by simp

lemma run_at_most_once:
  assumes "ok s" "\<not> is_done s" "run_machine step s evs = Returns (s', es)"
  shows "length (completions es) \<le> 1 \<and> (is_done s' \<longleftrightarrow> completions es \<noteq> [])
    \<and> (is_done s' \<longrightarrow> mset (removed es) = mset (tokens s))"
  using run_once [OF assms] run_releases [OF assms(1,3)] by auto

end

text \<open>A session whose steps always return.\<close>

locale total_session = session step is_done tokens ok
  for step :: "'s \<Rightarrow> 'e \<Rightarrow> ('s \<times> 'r effect list) outcome" and is_done tokens ok +
  assumes step_returns: "ok s \<Longrightarrow> \<exists>s' es. step s e = Returns (s', es)"
begin

lemma run_returns: "ok s \<Longrightarrow> \<exists>s' es. run_machine step s evs = Returns (s', es)"
proof (induction evs arbitrary: s)
  case Nil
  then show ?case by simp
next
  case (Cons ev evs)
  from step_returns [OF Cons.prems] obtain s1 es1 where s: "step s ev = Returns (s1, es1)" by blast
  from Cons.IH [OF step_ok [OF Cons.prems s]] s show ?case by auto
qed

end

text \<open>
  A session that can also be resolved from outside, with the same obligations: what
  \<open>DeadlineSession\<close> requires of the session it wraps.
\<close>

locale resolvable_session = total_session step is_done tokens ok
  for step :: "'s \<Rightarrow> 'e \<Rightarrow> ('s \<times> 'r effect list) outcome" and is_done tokens ok +
  fixes resolve :: "error \<Rightarrow> 's \<Rightarrow> ('s \<times> 'r effect list) outcome"
  assumes resolve_returns: "ok s \<Longrightarrow> is_error r \<Longrightarrow> \<exists>s' es. resolve r s = Returns (s', es)"
    and resolve_ok: "ok s \<Longrightarrow> is_error r \<Longrightarrow> resolve r s = Returns (s', es) \<Longrightarrow> ok s'"
    and resolve_done: "ok s \<Longrightarrow> is_done s \<Longrightarrow> resolve r s = Returns (s', es) \<Longrightarrow>
      is_done s' \<and> completions es = []"
    and resolve_once: "ok s \<Longrightarrow> is_error r \<Longrightarrow> \<not> is_done s \<Longrightarrow> resolve r s = Returns (s', es) \<Longrightarrow>
      is_done s' \<and> completions es = [Inl r]"
    and resolve_tokens: "ok s \<Longrightarrow> is_error r \<Longrightarrow> resolve r s = Returns (s', es) \<Longrightarrow>
      mset (tokens s) = mset (removed es) + mset (tokens s')"

section \<open>Deadlines\<close>

text \<open>
  \<open>DeadlineSession<Session>\<close>: the events of the session it wraps, and the end of the wait on
  its timer.
\<close>

datatype 'e deadline_event = Work 'e | Timer error_code

definition deadline_timer ::
    "(error \<Rightarrow> 's \<Rightarrow> ('s \<times> 'r effect list) outcome) \<Rightarrow> error_code \<Rightarrow> 's \<Rightarrow> ('s \<times> 'r effect list) outcome" where
  "deadline_timer resolve err s =
     (if err = operation_aborted then Returns (s, [])
      else
        obind (if ec_is_error err then resolve (Error err [''waiting for timeout'']) s
               else Returns (s, [])) (\<lambda>(s, es).
        obind (resolve (Error asio_timed_out []) s) (\<lambda>(s, fs). Returns (s, es @ fs))))"

text \<open>
  \<open>start\<close>: the session starts its work, then the timer is set to expire at the deadline, or a
  timeout from now.
\<close>

definition DeadlineSession_start ::
    "int \<Rightarrow> ('s \<times> 'r effect list) outcome \<Rightarrow> ('s \<times> 'r effect list) outcome" where
  "DeadlineSession_start deadline work =
     obind work (\<lambda>(s, es). Returns (s, es @ [Start_timer deadline]))"

definition DeadlineSession_start_timeout ::
    "int \<Rightarrow> int \<Rightarrow> ('s \<times> 'r effect list) outcome \<Rightarrow> ('s \<times> 'r effect list) outcome" where
  "DeadlineSession_start_timeout now timeout work = DeadlineSession_start (now + timeout) work"

text \<open>
  The callback \<open>sendCommand\<close> and \<open>sendMultipleCommands\<close> give to the session: cancel the timer,
  call the user's callback, post the handler that drops the session.
\<close>

fun with_callback :: "'r effect list \<Rightarrow> 'r effect list" where
  "with_callback [] = []"
| "with_callback (Complete r # es) = Cancel_timer # Complete r # Post_reset # with_callback es"
| "with_callback (e # es) = e # with_callback es"

fun deadline_step ::
    "('s \<Rightarrow> 'e \<Rightarrow> ('s \<times> 'r effect list) outcome) \<Rightarrow> (error \<Rightarrow> 's \<Rightarrow> ('s \<times> 'r effect list) outcome)
     \<Rightarrow> 's \<Rightarrow> 'e deadline_event \<Rightarrow> ('s \<times> 'r effect list) outcome" where
  "deadline_step work resolve s (Work e) =
     obind (work s e) (\<lambda>(s, es). Returns (s, with_callback es))"
| "deadline_step work resolve s (Timer err) =
     obind (deadline_timer resolve err s) (\<lambda>(s, es). Returns (s, with_callback es))"

lemma completions_with_callback [simp]: "completions (with_callback es) = completions es"
  by (induction es rule: with_callback.induct) auto

lemma removed_with_callback [simp]: "removed (with_callback es) = removed es"
  by (induction es rule: with_callback.induct) auto

lemma is_error_timed_out [simp]: "is_error (Error asio_timed_out ds)"
  by (simp add: is_error_def asio_timed_out_def ec_is_error_def)

context resolvable_session
begin

lemma timer_returns: "ok s \<Longrightarrow> \<exists>s' es. deadline_timer resolve err s = Returns (s', es)"
proof -
  assume ok: "ok s"
  show ?thesis
  proof (cases "ec_is_error err")
    case True
    then have e: "is_error (Error err [''waiting for timeout''])" by (simp add: is_error_def)
    obtain s1 es where r: "resolve (Error err [''waiting for timeout'']) s = Returns (s1, es)"
      using resolve_returns [OF ok e] by blast
    from resolve_returns [OF resolve_ok [OF ok e r], of "Error asio_timed_out []"] r True
    show ?thesis by (auto simp: deadline_timer_def)
  next
    case False
    with resolve_returns [OF ok, of "Error asio_timed_out []"] show ?thesis
      by (auto simp: deadline_timer_def)
  qed
qed

text \<open>A timer that was not cancelled leaves the session done.\<close>

lemma timer_laws:
  assumes ok: "ok s" and t: "deadline_timer resolve err s = Returns (s', es)"
  shows "ok s'" and "is_done s \<Longrightarrow> is_done s' \<and> completions es = []"
    and "\<not> is_done s \<Longrightarrow> length (completions es) = of_bool (is_done s')"
    and "mset (tokens s) = mset (removed es) + mset (tokens s')"
    and "err \<noteq> operation_aborted \<Longrightarrow> is_done s'"
proof -
  have "ok s' \<and> (is_done s \<longrightarrow> is_done s' \<and> completions es = [])
    \<and> (\<not> is_done s \<longrightarrow> length (completions es) = of_bool (is_done s'))
    \<and> mset (tokens s) = mset (removed es) + mset (tokens s')
    \<and> (err \<noteq> operation_aborted \<longrightarrow> is_done s')"
  proof (cases "err = operation_aborted")
    case True
    with ok t show ?thesis by (simp add: deadline_timer_def)
  next
    case False
    obtain s1 es1 es2 where
      a: "(if ec_is_error err then resolve (Error err [''waiting for timeout'']) s
           else Returns (s, [])) = Returns (s1, es1)"
      and b: "resolve (Error asio_timed_out []) s1 = Returns (s', es2)" and es: "es = es1 @ es2"
      using t False by (auto simp: deadline_timer_def)
    have s1: "ok s1 \<and> (is_done s \<longrightarrow> is_done s1 \<and> completions es1 = [])
      \<and> (\<not> is_done s \<longrightarrow> length (completions es1) = of_bool (is_done s1))
      \<and> mset (tokens s) = mset (removed es1) + mset (tokens s1)"
    proof (cases "ec_is_error err")
      case True
      then have e: "is_error (Error err [''waiting for timeout''])" by (simp add: is_error_def)
      have r: "resolve (Error err [''waiting for timeout'']) s = Returns (s1, es1)"
        using a True by simp
      from resolve_ok [OF ok e r] resolve_done [OF ok _ r] resolve_once [OF ok e _ r]
        resolve_tokens [OF ok e r] show ?thesis by auto
    next
      case False
      with a ok show ?thesis by simp
    qed
    then have ok1: "ok s1" by simp
    from resolve_ok [OF ok1 _ b] resolve_done [OF ok1 _ b] resolve_once [OF ok1 _ _ b]
      resolve_tokens [OF ok1 _ b] s1
    show ?thesis by (cases "is_done s1") (auto simp: es)
  qed
  then show "ok s'" and "is_done s \<Longrightarrow> is_done s' \<and> completions es = []"
    and "\<not> is_done s \<Longrightarrow> length (completions es) = of_bool (is_done s')"
    and "mset (tokens s) = mset (removed es) + mset (tokens s')"
    and "err \<noteq> operation_aborted \<Longrightarrow> is_done s'" by simp_all
qed

end

sublocale resolvable_session \<subseteq> deadline: total_session "deadline_step step resolve" is_done tokens ok
proof (unfold_locales, goal_cases)
  case (1 os ps)
  show ?case by simp
next
  case (2 s e s' es)
  then show ?case by (cases e) (auto intro: step_ok timer_laws(1))
next
  case (3 s e s' es)
  then show ?case by (cases e) (auto dest: step_done timer_laws(2))
next
  case (4 s e s' es)
  then show ?case by (cases e) (auto dest: step_once timer_laws(3))
next
  case (5 s e s' es)
  then show ?case by (cases e) (auto dest: step_tokens timer_laws(4))
next
  case (6 s)
  then show ?case by (rule done_tokens)
next
  case (7 s e)
  show ?case
  proof (cases e)
    case (Work x)
    with step_returns [OF 7, of x] show ?thesis by auto
  next
    case (Timer err)
    with timer_returns [OF 7, of err] show ?thesis by auto
  qed
qed

context resolvable_session
begin

text \<open>Whatever else happens, the session is done once its deadline has passed.\<close>

lemma deadline_reached:
  assumes "ok s" "run_machine (deadline_step step resolve) s evs = Returns (s', es)"
    and "Timer err \<in> set evs" "err \<noteq> operation_aborted"
  shows "is_done s'"
  using assms(1-3)
proof (induction evs arbitrary: s es)
  case Nil
  then show ?case by simp
next
  case (Cons ev evs)
  then obtain s1 es1 es2 where st: "deadline_step step resolve s ev = Returns (s1, es1)"
    and r: "run_machine (deadline_step step resolve) s1 evs = Returns (s', es2)" by auto
  have ok1: "ok s1" using Cons.prems(1) st by (rule deadline.step_ok)
  show ?case
  proof (cases "ev = Timer err")
    case True
    with st timer_laws(5) [OF Cons.prems(1) _ assms(4)] have "is_done s1" by auto
    with deadline.run_done [OF ok1 _ r] show ?thesis by simp
  next
    case False
    with Cons.prems(3) Cons.IH [OF ok1 r] show ?thesis by auto
  qed
qed

end

end
