(* ===== verification/Command_Session.thy ===== *)
theory Command_Session
  imports Session_Contract
begin

text \<open>
  The session of one command: \<open>CommandSession\<close> and \<open>sendCommand\<close> of
  \<open>include/yaskawa_ethernet/udp/impl/send_command.hpp\<close>.
\<close>

section \<open>One command\<close>

record CommandSession =
  cs_request_id :: u8
  cs_command :: command
  cs_handler :: "HandlerToken option"
  cs_write_buffer :: bytes
  cs_started :: bool
  cs_done :: bool

text \<open>
  The constructor allocates the request id and encodes the command.  (When the encoder
  throws, the id is used up all the same.)
\<close>

definition CommandSession_new :: "command \<Rightarrow> 'h Client \<Rightarrow> (CommandSession \<times> 'h Client) outcome" where
  "CommandSession_new cmd client =
     (let (rid, client) = allocateId client
      in obind (encode_command [] rid cmd) (\<lambda>buffer.
        Returns (\<lparr>cs_request_id = rid, cs_command = cmd, cs_handler = None,
          cs_write_buffer = buffer, cs_started = False, cs_done = False\<rparr>, client)))"

definition CommandSession_start ::
    "int \<Rightarrow> 'h \<Rightarrow> CommandSession \<Rightarrow> 'h Client
     \<Rightarrow> ((CommandSession \<times> 'h Client) \<times> response effect list) outcome" where
  "CommandSession_start now handler s client =
     (if cs_started s
      then Throws (Logic_error ''CommandSession::start: session already started'')
      else
        (let s = s\<lparr>cs_started := True\<rparr>
         in obind (registerHandler now (cs_request_id s) handler client) (\<lambda>(token, client).
           Returns ((s\<lparr>cs_handler := Some token\<rparr>, client), [Send (cs_write_buffer s)]))))"

definition CommandSession_resolve ::
    "response result \<Rightarrow> CommandSession \<Rightarrow> (CommandSession \<times> response effect list) outcome" where
  "CommandSession_resolve result s =
     (if cs_done s then Returns (s, [])
      else case cs_handler s of
        None \<Rightarrow> Undefined
      | Some token \<Rightarrow> Returns (s\<lparr>cs_done := True\<rparr>, [Remove token, Complete result]))"

definition CommandSession_on_response ::
    "ResponseHeader \<Rightarrow> bytes \<Rightarrow> CommandSession \<Rightarrow> (CommandSession \<times> response effect list) outcome" where
  "CommandSession_on_response header data s =
     (if status header \<noteq> 0
      then CommandSession_resolve (Inl (commandFailed (ucast (status header)) (extra_status header))) s
      else obind (of_read (decode_command data (cs_command s)))
        (\<lambda>(result, data). CommandSession_resolve result s))"

definition CommandSession_on_sent ::
    "error_code \<Rightarrow> CommandSession \<Rightarrow> (CommandSession \<times> response effect list) outcome" where
  "CommandSession_on_sent err s =
     (if ec_is_error err
      then CommandSession_resolve (Inl (Error err
        [''writing command for request '' @ to_string (uint (cs_request_id s))])) s
      else Returns (s, []))"

fun CommandSession_step ::
    "CommandSession \<Rightarrow> session_event \<Rightarrow> (CommandSession \<times> response effect list) outcome" where
  "CommandSession_step s (Reply header data) = CommandSession_on_response header data s"
| "CommandSession_step s (Sent err) = CommandSession_on_sent err s"

lemmas CommandSession_defs [step_simps] =
  CommandSession_resolve_def CommandSession_on_response_def CommandSession_on_sent_def

definition CommandSession_ok :: "CommandSession \<Rightarrow> bool" where
  "CommandSession_ok s \<longleftrightarrow> cs_handler s \<noteq> None"

definition CommandSession_tokens :: "CommandSession \<Rightarrow> HandlerToken list" where
  "CommandSession_tokens s = (if cs_done s then [] else [the (cs_handler s)])"

text \<open>A step of a command session does nothing or resolves it.\<close>

lemma CommandSession_step_cases:
  assumes "CommandSession_step s ev = Returns (s', es)"
  shows "(s' = s \<and> es = []) \<or> (\<exists>r. CommandSession_resolve r s = Returns (s', es))"
  using assms
  by (cases ev)
    (auto simp: CommandSession_on_response_def CommandSession_on_sent_def split: if_splits)

lemma CommandSession_resolve_laws:
  assumes "CommandSession_ok s" "CommandSession_resolve r s = Returns (s', es)"
  shows "CommandSession_ok s'"
    and "cs_done s \<Longrightarrow> cs_done s' \<and> completions es = []"
    and "\<not> cs_done s \<Longrightarrow> length (completions es) = of_bool (cs_done s')"
    and "mset (CommandSession_tokens s) = mset (removed es) + mset (CommandSession_tokens s')"
  using assms
  by (auto simp: CommandSession_resolve_def CommandSession_ok_def CommandSession_tokens_def
      split: if_splits option.splits)

interpretation command_session:
  session CommandSession_step cs_done CommandSession_tokens CommandSession_ok
proof (unfold_locales, goal_cases)
  case (1 os ps)
  show ?case by simp
next
  case (2 s e s' es)
  then show ?case
    using CommandSession_step_cases [of s e s' es] CommandSession_resolve_laws(1) by blast
next
  case (3 s e s' es)
  then show ?case
    using CommandSession_step_cases [of s e s' es] CommandSession_resolve_laws(2) by fastforce
next
  case (4 s e s' es)
  then show ?case
    using CommandSession_step_cases [of s e s' es] CommandSession_resolve_laws(3) by fastforce
next
  case (5 s e s' es)
  then show ?case
    using CommandSession_step_cases [of s e s' es] CommandSession_resolve_laws(4) by fastforce
next
  case (6 s)
  then show ?case by (simp add: CommandSession_tokens_def)
qed

lemma CommandSession_resolve_returns:
  "CommandSession_ok s \<Longrightarrow> \<exists>s' es. CommandSession_resolve r s = Returns (s', es)"
  by (auto simp: CommandSession_resolve_def CommandSession_ok_def)

lemma CommandSession_step_returns:
  assumes "CommandSession_ok s"
  shows "\<exists>s' es. CommandSession_step s ev = Returns (s', es)"
proof (cases ev)
  case (Reply header data)
  obtain r rest where "decode_command data (cs_command s) = Some (r, rest)"
    using decode_command_holds [of "cs_command s" data] by (auto simp: holds_def)
  with Reply CommandSession_resolve_returns [OF assms] show ?thesis
    by (simp add: CommandSession_on_response_def of_read_def)
next
  case (Sent err)
  with CommandSession_resolve_returns [OF assms] show ?thesis
    by (simp add: CommandSession_on_sent_def)
qed

interpretation command_session:
  resolvable_session CommandSession_step cs_done CommandSession_tokens CommandSession_ok
    "\<lambda>e. CommandSession_resolve (Inl e)"
proof (unfold_locales, goal_cases)
  case (1 s e)
  then show ?case by (rule CommandSession_step_returns)
next
  case (2 s r)
  then show ?case by (blast intro: CommandSession_resolve_returns)
next
  case (3 s r s' es)
  then show ?case by (blast intro: CommandSession_resolve_laws(1))
next
  case (4 s r s' es)
  then show ?case using CommandSession_resolve_laws(2) by blast
next
  case (5 s r s' es)
  then show ?case
    by (auto simp: CommandSession_resolve_def CommandSession_ok_def)
next
  case (6 s r s' es)
  then show ?case by (blast intro: CommandSession_resolve_laws(4))
qed

text \<open>A result of a command is an error or a response of the right type.\<close>

definition sound_answer :: "command \<Rightarrow> response result \<Rightarrow> bool" where
  "sound_answer cmd r \<longleftrightarrow>
     (case r of Inl e \<Rightarrow> is_error e | Inr v \<Rightarrow> response_fits cmd v)"

lemma CommandSession_step_shape:
  assumes "CommandSession_ok s" "CommandSession_step s ev = Returns (s', es)"
  shows "(s' = s \<and> es = []) \<or> (\<exists>token r. \<not> cs_done s \<and> cs_handler s = Some token
    \<and> s' = s\<lparr>cs_done := True\<rparr> \<and> es = [Remove token, Complete r]
    \<and> sound_answer (cs_command s) r)"
proof (cases ev)
  case (Reply header data)
  obtain r rest where d: "decode_command data (cs_command s) = Some (r, rest)"
    and r: "sound_result (response_fits (cs_command s)) (r, rest)"
    using decode_command_holds [of "cs_command s" data] by (auto simp: holds_def)
  have "sound_answer (cs_command s) r"
  proof (cases r)
    case (Inl e)
    then have "code e = make_error_code malformed_response" using r by simp
    with Inl show ?thesis by (cases e) (simp add: sound_answer_def)
  qed (use r in \<open>simp add: sound_answer_def\<close>)
  with Reply d assms show ?thesis
    by (auto simp: step_simps of_read_def CommandSession_ok_def sound_answer_def split: if_splits)
next
  case (Sent err)
  with assms show ?thesis
    by (auto simp: step_simps CommandSession_ok_def is_error_def sound_answer_def split: if_splits)
qed

lemma CommandSession_deadline_shape:
  assumes "CommandSession_ok s" "\<not> cs_done s"
    and "deadline_step CommandSession_step (\<lambda>e. CommandSession_resolve (Inl e)) s ev = Returns (s', es)"
  shows "(s' = s \<and> es = []) \<or> (\<exists>token r. cs_handler s = Some token \<and> s' = s\<lparr>cs_done := True\<rparr>
    \<and> es = [Remove token, Cancel_timer, Complete r, Post_reset] \<and> sound_answer (cs_command s) r)"
proof (cases ev)
  case (Work e)
  then obtain fs where "CommandSession_step s e = Returns (s', fs)" "es = with_callback fs"
    using assms(3) by auto
  with CommandSession_step_shape [OF assms(1), of e s' fs] show ?thesis by auto
next
  case (Timer err)
  have "is_error (Error err ds) = ec_is_error err" for ds by (simp add: is_error_def)
  with Timer assms show ?thesis
    by (auto simp: deadline_timer_def CommandSession_resolve_def CommandSession_ok_def sound_answer_def
        split: if_splits)
qed

lemma CommandSession_deadline_cases:
  assumes "CommandSession_ok s"
    and "deadline_step CommandSession_step (\<lambda>e. CommandSession_resolve (Inl e)) s ev = Returns (s', es)"
  shows "(s' = s \<and> es = []) \<or> (\<exists>token r. \<not> cs_done s \<and> cs_handler s = Some token
    \<and> s' = s\<lparr>cs_done := True\<rparr> \<and> es = [Remove token, Cancel_timer, Complete r, Post_reset]
    \<and> sound_answer (cs_command s) r)"
proof (cases "cs_done s")
  case True
  show ?thesis
  proof (cases ev)
    case (Work e)
    then obtain fs where "CommandSession_step s e = Returns (s', fs)" "es = with_callback fs"
      using assms(2) by auto
    with CommandSession_step_shape [OF assms(1), of e s' fs] True show ?thesis by auto
  next
    case (Timer err)
    with assms(2) True show ?thesis by (simp add: deadline_timer_def CommandSession_resolve_def split: if_splits)
  qed
next
  case False
  with CommandSession_deadline_shape [OF assms(1) _ assms(2)] show ?thesis by blast
qed

section \<open>Sending commands\<close>

text \<open>\<open>sendCommand\<close>: a session with a deadline is made and started; \<open>h\<close> is the handler.\<close>

definition sendCommand ::
    "int \<Rightarrow> int \<Rightarrow> 'h \<Rightarrow> command \<Rightarrow> 'h Client
     \<Rightarrow> ((CommandSession \<times> 'h Client) \<times> response effect list) outcome" where
  "sendCommand now deadline h cmd client =
     obind (CommandSession_new cmd client) (\<lambda>(s, client).
       DeadlineSession_start deadline (CommandSession_start now h s client))"

text \<open>The member functions of the client, with a deadline and with a timeout.\<close>

definition Client_sendCommand ::
    "int \<Rightarrow> int \<Rightarrow> 'h \<Rightarrow> command \<Rightarrow> 'h Client
     \<Rightarrow> ((CommandSession \<times> 'h Client) \<times> response effect list) outcome" where
  "Client_sendCommand now deadline h cmd client = sendCommand now deadline h cmd client"

definition Client_sendCommand_timeout ::
    "int \<Rightarrow> int \<Rightarrow> 'h \<Rightarrow> command \<Rightarrow> 'h Client
     \<Rightarrow> ((CommandSession \<times> 'h Client) \<times> response effect list) outcome" where
  "Client_sendCommand_timeout now timeout h cmd client =
     Client_sendCommand now (now + timeout) h cmd client"

lemmas client_send_defs [simp] = Client_sendCommand_def Client_sendCommand_timeout_def

text \<open>\<open>Client::deleteFile\<close> of \<open>src/udp/client.cpp\<close>, a command like any other.\<close>

definition deleteFile ::
    "int \<Rightarrow> 'h \<Rightarrow> bytes \<Rightarrow> int \<Rightarrow> 'h Client
     \<Rightarrow> ((CommandSession \<times> 'h Client) \<times> response effect list) outcome" where
  "deleteFile now h name timeout client =
     Client_sendCommand_timeout now timeout h (DeleteFile \<lparr>df_name = name\<rparr>) client"

abbreviation "command_run \<equiv>
  run_machine (deadline_step CommandSession_step (\<lambda>e. CommandSession_resolve (Inl e)))"

lemma sendCommand_session:
  assumes "sendCommand now deadline h cmd client = Returns ((s, client'), es)" and "client_inv client"
  shows "CommandSession_ok s" "\<not> cs_done s" "client_inv client'"
    "CommandSession_tokens s = [the (cs_handler s)]" "valid_token client' (the (cs_handler s))"
    "token_key (the (cs_handler s)) = cs_request_id s"
    "cs_request_id s = client_request_id client" "cs_command s = cmd"
proof -
  obtain buffer token where
    r: "registerHandler now (client_request_id client) h
      (client\<lparr>client_request_id := client_request_id client + 1\<rparr>) = Returns (token, client')"
    and s: "s = \<lparr>cs_request_id = client_request_id client, cs_command = cmd,
      cs_handler = Some token, cs_write_buffer = buffer, cs_started = True, cs_done = False\<rparr>"
    using assms(1)
    by (auto simp: sendCommand_def DeadlineSession_start_def CommandSession_new_def CommandSession_start_def allocateId_def)
  have "client_inv (client\<lparr>client_request_id := client_request_id client + 1\<rparr>)"
    using assms(2) by (simp add: client_inv_def)
  from registry.register_valid [OF this r]
  show "CommandSession_ok s" "\<not> cs_done s" "client_inv client'"
    "CommandSession_tokens s = [the (cs_handler s)]" "valid_token client' (the (cs_handler s))"
    "token_key (the (cs_handler s)) = cs_request_id s"
    "cs_request_id s = client_request_id client" "cs_command s = cmd"
    by (simp_all add: s CommandSession_ok_def CommandSession_tokens_def)
qed

text \<open>
  C3: A command that was sent completes at most once, whatever the order of replies, ends of
  the send and ends of the wait on the timer: every run of its session returns; the user's
  callback is called at most once, and has been called exactly when the session is done; then
  the handler of the request, which was valid when the command was sent, has been removed
  exactly once; and the session is done as soon as its deadline has passed.
\<close>

theorem sendCommand_completes_once:
  assumes "sendCommand now deadline h cmd client = Returns ((s, client'), es0)" and "client_inv client"
  shows "valid_token client' (the (cs_handler s)) \<and>
    (\<exists>s' es. command_run s evs = Returns (s', es)
      \<and> length (completions es) \<le> 1 \<and> (cs_done s' \<longleftrightarrow> completions es \<noteq> [])
      \<and> removed es = (if cs_done s' then [the (cs_handler s)] else [])
      \<and> ((\<exists>err. Timer err \<in> set evs \<and> err \<noteq> operation_aborted) \<longrightarrow> cs_done s'))"
proof -
  note s = sendCommand_session [OF assms]
  obtain s' es where r: "command_run s evs = Returns (s', es)"
    using command_session.deadline.run_returns [OF s(1)] by blast
  have m: "length (completions es) \<le> 1 \<and> (cs_done s' \<longleftrightarrow> completions es \<noteq> [])
    \<and> (cs_done s' \<longrightarrow> mset (removed es) = mset (CommandSession_tokens s))"
    by (rule command_session.deadline.run_at_most_once [OF s(1,2) r])
  have "mset (CommandSession_tokens s) = mset (removed es) + mset (CommandSession_tokens s')"
    by (rule command_session.deadline.run_tokens [OF s(1) r])
  then have "\<not> cs_done s' \<Longrightarrow> removed es = []"
    using s(4) by (auto simp: CommandSession_tokens_def)
  moreover have "cs_done s' \<Longrightarrow> removed es = [the (cs_handler s)]" using m s(4) by simp
  ultimately show ?thesis
    using r m s(5) command_session.deadline_reached [OF s(1) r] by auto
qed

lemma sendCommand_completes_once_witness:
  "\<exists>s client' es0. sendCommand 0 100 ''h'' ReadStatus (new_Client True) = Returns ((s, client'), es0) \<and>
    (\<exists>s' es. command_run s [Work (Sent ec_success), Timer ec_success, Timer operation_aborted]
        = Returns (s', es)
      \<and> length (completions es) \<le> 1 \<and> cs_done s' \<and> removed es = [the (cs_handler s)])"
proof -
  obtain s client' es0
    where s: "sendCommand 0 100 ''h'' ReadStatus (new_Client True) = Returns ((s, client'), es0)"
    by (simp add: sendCommand_def DeadlineSession_start_def CommandSession_new_def CommandSession_start_def allocateId_def
        registerHandler_def new_Client_def)
  have "ec_success \<noteq> operation_aborted" by (simp add: ec_success_def operation_aborted_def)
  with sendCommand_completes_once [OF s, of "[Work (Sent ec_success), Timer ec_success, Timer operation_aborted]"] s
  show ?thesis by (fastforce simp: client_inv_def new_Client_def)
qed

section \<open>End to end\<close>

lemma run_single:
  "f s e = Returns (s', es) \<Longrightarrow> run_machine f s [e] = Returns (s', es)"
  by simp

text \<open>
  C9: The answer to a command ends it: when the controller answers the request of a sent
  command with a well formed datagram, the client hands it to the handler that was registered
  when the command was sent, and that removes the handler, cancels the timer, calls the
  callback and posts the end of the session, in this order. The result is the failure the
  status of the response says, or for status 0 what the decoder of the command makes of the
  data.
\<close>

theorem answer_completes_command:
  assumes "sendCommand now deadline h cmd client = Returns ((s, client'), es0)" and "client_inv client"
    and "response_header_ok hdr" "request_id hdr = cs_request_id s"
    and "length data = unat (payload_size hdr)" "length r8 = 8" "length r2 = 2" "length p2 = 2"
  shows "onReceive ec_success (response_bytes hdr r1 r8 r2 p2 data) client'
      = Some [Invoke h hdr data, Receive]
    \<and> (\<exists>r s'. command_run s [Work (Reply hdr data)] = Returns (s',
          [Remove (the (cs_handler s)), Cancel_timer, Complete r, Post_reset])
        \<and> (if status hdr \<noteq> 0
           then r = Inl (commandFailed (ucast (status hdr)) (extra_status hdr))
           else \<exists>rest. decode_command data cmd = Some (r, rest)))"
proof
  obtain token client0 where reg: "registerHandler now (request_id hdr) h client0 = Returns (token, client')"
    and h: "cs_handler s = Some token" and nd: "\<not> cs_done s" and c: "cs_command s = cmd"
    using assms(1,4)
    by (auto simp: sendCommand_def DeadlineSession_start_def CommandSession_new_def CommandSession_start_def allocateId_def)
  have "find_handler client' (request_id hdr) = Some h"
    using reg by (rule registry.registered_is_found)
  then show "onReceive ec_success (response_bytes hdr r1 r8 r2 p2 data) client'
      = Some [Invoke h hdr data, Receive]"
    by (auto simp: onReceive_def find_handler_def ec_success_def is_operation_canceled_def
        ec_is_error_def decodeResponseHeader_complete [OF assms(6-8,3,5)])
  obtain r rest where d: "decode_command data cmd = Some (r, rest)"
    using decode_command_holds [of cmd data] by (auto simp: holds_def)
  show "\<exists>r s'. command_run s [Work (Reply hdr data)] = Returns (s',
          [Remove (the (cs_handler s)), Cancel_timer, Complete r, Post_reset])
        \<and> (if status hdr \<noteq> 0
           then r = Inl (commandFailed (ucast (status hdr)) (extra_status hdr))
           else \<exists>rest. decode_command data cmd = Some (r, rest))"
    using h nd c d by (cases "status hdr = 0") (auto simp: step_simps of_read_def)
qed

lemma answer_completes_command_witness:
  "\<exists>s client' es0. sendCommand 0 100 ''h'' (ReadUint8Var \<lparr>rv_index = 4\<rparr>)
      (new_Client True\<lparr>client_request_id := 5\<rparr>) = Returns ((s, client'), es0)
    \<and> onReceive ec_success
        (response_bytes (example_response\<lparr>payload_size := 1\<rparr>) 3 (replicate 8 0x39) [0, 0] [0, 0] [42])
        client' = Some [Invoke ''h'' (example_response\<lparr>payload_size := 1\<rparr>) [42], Receive]
    \<and> (\<exists>s'. command_run s [Work (Reply (example_response\<lparr>payload_size := 1\<rparr>) [42])] = Returns (s',
          [Remove (the (cs_handler s)), Cancel_timer, Complete (Inr (Uint8_response 42)), Post_reset]))"
proof -
  let ?hdr = "example_response\<lparr>payload_size := 1\<rparr>"
  obtain s client' es0 where
    s: "sendCommand 0 100 ''h'' (ReadUint8Var \<lparr>rv_index = 4\<rparr>)
      (new_Client True\<lparr>client_request_id := 5\<rparr>) = Returns ((s, client'), es0)"
    and rid: "cs_request_id s = 5"
    by (auto simp: sendCommand_def DeadlineSession_start_def CommandSession_new_def CommandSession_start_def allocateId_def
        registerHandler_def new_Client_def)
  have "decode_command [42] (ReadUint8Var \<lparr>rv_index = 4\<rparr>) = Some (Inr (Uint8_response 42), [])"
    by code_simp
  with answer_completes_command [OF s, of ?hdr "[42]" "replicate 8 0x39" "[0, 0]" "[0, 0]" 3] s rid
  show ?thesis
    by (simp add: client_inv_def new_Client_def example_response_def response_header_ok_def
        max_payload_size_def)
qed

end
