(* ===== verification/Deadlines.thy ===== *)
theory Deadlines
  imports Command_Session
begin

text \<open>
  What a command session does, as a function of what happens to it and when: the result is that of
  the first event that decides it.  Events and results carry the time at which they happen.
\<close>

section \<open>The specification\<close>

text \<open>The result an event gives a command with request id \<open>rid\<close>, if it decides it.\<close>

fun verdict :: "command \<Rightarrow> u8 \<Rightarrow> session_event deadline_event \<Rightarrow> response result option" where
  "verdict cmd rid (Work (Reply header data)) =
     (if status header \<noteq> 0
      then Some (Inl (commandFailed (ucast (status header)) (extra_status header)))
      else map_option fst (decode_command data cmd))"
| "verdict cmd rid (Work (Sent err)) =
     (if ec_is_error err
      then Some (Inl (Error err [''writing command for request '' @ to_string (uint rid)])) else None)"
| "verdict cmd rid (Timer err) =
     (if err = operation_aborted then None
      else if ec_is_error err then Some (Inl (Error err [''waiting for timeout'']))
      else Some (Inl (Error asio_timed_out [])))"

fun first_verdict ::
    "command \<Rightarrow> u8 \<Rightarrow> (int \<times> session_event deadline_event) list \<Rightarrow> (int \<times> response result) list" where
  "first_verdict cmd rid [] = []"
| "first_verdict cmd rid ((t, ev) # evs) =
     (case verdict cmd rid ev of Some r \<Rightarrow> [(t, r)] | None \<Rightarrow> first_verdict cmd rid evs)"

text \<open>
  What asio promises of a timer: a wait ends without \<open>operation_aborted\<close> only when its time has
  come.
\<close>

definition timer_law :: "int \<Rightarrow> (int \<times> session_event deadline_event) list \<Rightarrow> bool" where
  "timer_law deadline evs \<longleftrightarrow>
     (\<forall>(t, ev) \<in> set evs. \<forall>err. ev = Timer err \<and> err \<noteq> operation_aborted \<longrightarrow> deadline \<le> t)"

section \<open>The session with its times\<close>

definition timed_step ::
    "CommandSession \<Rightarrow> int \<times> session_event deadline_event
     \<Rightarrow> (CommandSession \<times> (int \<times> response effect) list) outcome" where
  "timed_step s = (\<lambda>(t, ev).
     obind (deadline_step CommandSession_step (\<lambda>e. CommandSession_resolve (Inl e)) s ev) (\<lambda>(s', es).
       Returns (s', map (Pair t) es)))"

fun results :: "(int \<times> 'r effect) list \<Rightarrow> (int \<times> 'r result) list" where
  "results [] = []"
| "results ((t, Complete r) # es) = (t, r) # results es"
| "results ((t, e) # es) = results es"

lemma results_append [simp]: "results (es @ fs) = results es @ results fs"
  by (induction es rule: results.induct) auto

lemma verdict_step:
  assumes "cs_handler s = Some token" "\<not> cs_done s"
  shows "deadline_step CommandSession_step (\<lambda>e. CommandSession_resolve (Inl e)) s ev =
    (case verdict (cs_command s) (cs_request_id s) ev of
       None \<Rightarrow> Returns (s, [])
     | Some r \<Rightarrow> Returns (s\<lparr>cs_done := True\<rparr>, [Remove token, Cancel_timer, Complete r, Post_reset]))"
proof (cases ev)
  case (Work e)
  show ?thesis
  proof (cases e)
    case (Reply header data)
    obtain r rest where "decode_command data (cs_command s) = Some (r, rest)"
      using decode_command_holds [of "cs_command s" data] by (auto simp: holds_def)
    with Work Reply assms show ?thesis by (simp add: step_simps of_read_def)
  qed (use Work assms in \<open>simp add: step_simps\<close>)
qed (use assms in \<open>simp add: deadline_timer_def CommandSession_resolve_def\<close>)

lemma done_step:
  assumes "CommandSession_ok s" "cs_done s"
  shows "\<exists>s' out. timed_step s (t, ev) = Returns (s', out) \<and> CommandSession_ok s' \<and> cs_done s' \<and> results out = []"
proof -
  from command_session.deadline.step_returns [OF assms(1)] obtain s' es where
    st: "deadline_step CommandSession_step (\<lambda>e. CommandSession_resolve (Inl e)) s ev = Returns (s', es)" by blast
  with CommandSession_deadline_cases [OF assms(1) st] assms show ?thesis by (auto simp: timed_step_def)
qed

lemma done_run:
  "CommandSession_ok s \<Longrightarrow> cs_done s \<Longrightarrow> \<exists>s' out. run_machine timed_step s evs = Returns (s', out) \<and> results out = []"
proof (induction evs arbitrary: s)
  case Nil
  then show ?case by simp
next
  case (Cons e evs)
  from done_step [OF Cons.prems, of "fst e" "snd e"] obtain s1 out1 where
    "timed_step s e = Returns (s1, out1)" "CommandSession_ok s1" "cs_done s1" "results out1 = []" by auto
  with Cons.IH [of s1] show ?case by auto
qed

lemma open_run:
  "CommandSession_ok s \<Longrightarrow> \<not> cs_done s \<Longrightarrow> \<exists>s' out. run_machine timed_step s evs = Returns (s', out)
    \<and> results out = first_verdict (cs_command s) (cs_request_id s) evs"
proof (induction evs)
  case Nil
  then show ?case by simp
next
  case (Cons e evs)
  obtain t ev where e: "e = (t, ev)" by (cases e)
  obtain token where token: "cs_handler s = Some token" using Cons.prems by (auto simp: CommandSession_ok_def)
  show ?case
  proof (cases "verdict (cs_command s) (cs_request_id s) ev")
    case None
    with Cons verdict_step [OF token Cons.prems(2), of ev] show ?thesis by (simp add: e timed_step_def)
  next
    case (Some r)
    have "CommandSession_ok (s\<lparr>cs_done := True\<rparr>)" using Cons.prems by (simp add: CommandSession_ok_def)
    moreover have "timed_step s (t, ev) = Returns (s\<lparr>cs_done := True\<rparr>,
        [(t, Remove token), (t, Cancel_timer), (t, Complete r), (t, Post_reset)])"
      using Some verdict_step [OF token Cons.prems(2), of ev] by (simp add: timed_step_def)
    ultimately show ?thesis using Some done_run [of "s\<lparr>cs_done := True\<rparr>" evs] by (auto simp: e)
  qed
qed

lemma timed_out_verdict:
  assumes "(t, Inl (Error asio_timed_out [])) \<in> set (first_verdict cmd rid evs)" "timer_law deadline evs"
  shows "deadline \<le> t"
  using assms
proof (induction evs)
  case (Cons e evs)
  obtain u ev where e: "e = (u, ev)" by (cases e)
  have decoded: "map_option fst (decode_command data cmd) \<noteq> Some (Inl (Error asio_timed_out []))" for data
    using decode_command_holds [of cmd data]
    by (auto simp: holds_def asio_timed_out_def make_error_code_def)
  have failed: "commandFailed a b \<noteq> Error asio_timed_out []" for a b by (simp add: commandFailed_def)
  show ?case
  proof (cases "verdict cmd rid ev")
    case None
    with Cons e show ?thesis by (simp add: timer_law_def)
  next
    case (Some r)
    with Cons.prems(1) e have "r = Inl (Error asio_timed_out [])" "t = u" by auto
    with Some decoded failed have "\<exists>err. ev = Timer err \<and> err \<noteq> operation_aborted"
      by (cases ev; cases "\<exists>header data. ev = Work (Reply header data)")
        (auto split: if_splits elim: verdict.elims)
    with Cons.prems(2) \<open>t = u\<close> show ?thesis by (auto simp: timer_law_def e)
  qed
qed simp

section \<open>Property\<close>

text \<open>
  C5: A command that is sent with a deadline is written at once and its timer set to the
  deadline; what the user gets is the result of the first event that decides it, at the time
  of this event, and nothing more: the answer or the failure it reports, a failed write, or
  the timeout, and the timeout never before the deadline.
\<close>

theorem first_verdict_is_result:
  assumes "sendCommand now deadline h cmd client = Returns ((s, client'), es0)" and "client_inv client"
    and "timer_law deadline evs"
  shows "es0 = [Send (cs_write_buffer s), Start_timer deadline]
    \<and> (\<exists>s' out. run_machine timed_step s evs = Returns (s', out)
        \<and> results out = first_verdict cmd (client_request_id client) evs)
    \<and> (\<forall>t. (t, Inl (Error asio_timed_out [])) \<in> set (first_verdict cmd (client_request_id client) evs)
          \<longrightarrow> deadline \<le> t)"
proof (intro conjI allI impI)
  note s = sendCommand_session [OF assms(1,2)]
  show "es0 = [Send (cs_write_buffer s), Start_timer deadline]"
    using assms(1) by (auto simp: sendCommand_def DeadlineSession_start_def CommandSession_new_def
        CommandSession_start_def allocateId_def)
  from open_run [OF s(1,2), of evs] s(7,8)
  show "\<exists>s' out. run_machine timed_step s evs = Returns (s', out)
      \<and> results out = first_verdict cmd (client_request_id client) evs" by simp
qed (rule timed_out_verdict [OF _ assms(3)])

lemma first_verdict_is_result_witness:
  "\<exists>s client' es0 s' out. sendCommand 0 100 ''h'' (ReadUint8Var \<lparr>rv_index = 4\<rparr>) (new_Client True)
      = Returns ((s, client'), es0)
    \<and> run_machine timed_step s [(1, Work (Sent ec_success)), (40, Work (Reply example_response [7])),
        (100, Timer ec_success)] = Returns (s', out)
    \<and> results out = [(40, Inr (Uint8_response 7))]"
proof -
  let ?evs = "[(1, Work (Sent ec_success)), (40, Work (Reply example_response [7])), (100, Timer ec_success)]"
  obtain s client' es0 where
    s: "sendCommand 0 100 ''h'' (ReadUint8Var \<lparr>rv_index = 4\<rparr>) (new_Client True) = Returns ((s, client'), es0)"
    by (auto simp: sendCommand_def DeadlineSession_start_def CommandSession_new_def CommandSession_start_def
        allocateId_def registerHandler_def new_Client_def)
  have "decode_command [7] (ReadUint8Var \<lparr>rv_index = 4\<rparr>) = Some (Inr (Uint8_response 7), [])" by code_simp
  then have "first_verdict (ReadUint8Var \<lparr>rv_index = 4\<rparr>) rid ?evs = [(40, Inr (Uint8_response 7))]" for rid
    by (simp add: ec_success_def ec_is_error_def example_response_def)
  moreover have "timer_law 100 ?evs" by (simp add: timer_law_def)
  ultimately show ?thesis using first_verdict_is_result [OF s, of ?evs] s
    by (auto simp: client_inv_def new_Client_def)
qed

end
