(* ===== verification/Multi_Session.thy ===== *)
theory Multi_Session
  imports Command_Session
begin

text \<open>
  The session of several commands sent together: \<open>MultiCommandSession\<close> and
  \<open>sendMultipleCommands\<close> of \<open>include/yaskawa_ethernet/udp/impl/send_multiple_commands.hpp\<close>.
  The tuple of sub-sessions is a list; the heterogeneous result tuple is a list of \<open>response\<close>.
\<close>

section \<open>Several commands\<close>

text \<open>
  \<open>finished_commands_\<close> counts the sub-sessions that succeeded; an element of the result tuple
  is \<open>None\<close> until the callback of its sub-session has assigned it.
\<close>

record MultiCommandSession =
  mcs_sessions :: "CommandSession list"
  mcs_result :: "response option list"
  mcs_started :: bool
  mcs_done :: bool
  mcs_finished_commands :: nat

type_synonym multi_response = "response option list"

fun init_sessions :: "command list \<Rightarrow> 'h Client \<Rightarrow> (CommandSession list \<times> 'h Client) outcome" where
  "init_sessions [] client = Returns ([], client)"
| "init_sessions (c # cs) client =
     obind (CommandSession_new c client) (\<lambda>(s, client).
     obind (init_sessions cs client) (\<lambda>(ss, client). Returns (s # ss, client)))"

definition MultiCommandSession_new ::
    "command list \<Rightarrow> 'h Client \<Rightarrow> (MultiCommandSession \<times> 'h Client) outcome" where
  "MultiCommandSession_new cmds client =
     obind (init_sessions cmds client) (\<lambda>(ss, client).
       Returns (\<lparr>mcs_sessions = ss, mcs_result = replicate (length cmds) None,
         mcs_started = False, mcs_done = False, mcs_finished_commands = 0\<rparr>, client))"

text \<open>
  Starting the sub-sessions in order; the handler of each gets its index.  The effects of the
  sub-sessions at this point are the sends.
\<close>

fun start_sessions ::
    "int \<Rightarrow> (nat \<Rightarrow> 'h) \<Rightarrow> nat \<Rightarrow> CommandSession list \<Rightarrow> 'h Client
     \<Rightarrow> ((CommandSession list \<times> 'h Client) \<times> multi_response effect list) outcome" where
  "start_sessions now h i [] client = Returns (([], client), [])"
| "start_sessions now h i (s # ss) client =
     obind (CommandSession_start now (h i) s client) (\<lambda>((s', client), _).
     obind (start_sessions now h (i + 1) ss client) (\<lambda>((ss', client), sends).
       Returns ((s' # ss', client), Send (cs_write_buffer s) # sends)))"

definition MultiCommandSession_start ::
    "int \<Rightarrow> (nat \<Rightarrow> 'h) \<Rightarrow> MultiCommandSession \<Rightarrow> 'h Client
     \<Rightarrow> ((MultiCommandSession \<times> 'h Client) \<times> multi_response effect list) outcome" where
  "MultiCommandSession_start now h m client =
     (if mcs_started m
      then Throws (Logic_error ''CommandSession::start: session already started'')
      else
        (let m = m\<lparr>mcs_started := True\<rparr>
         in obind (start_sessions now h 0 (mcs_sessions m) client) (\<lambda>((ss, client), sends).
           Returns ((m\<lparr>mcs_sessions := ss\<rparr>, client), sends))))"

text \<open>
  \<open>stop_sessions_\<close> resolves every sub-session with the error.  The callbacks this invokes are
  those of the multi session itself, which is done already, so that its \<open>resolve\<close> returns at
  once: only the removal of the handlers is left of it.
\<close>

fun stop_sessions ::
    "error \<Rightarrow> CommandSession list \<Rightarrow> (CommandSession list \<times> multi_response effect list) outcome" where
  "stop_sessions err [] = Returns ([], [])"
| "stop_sessions err (s # ss) =
     obind (CommandSession_resolve (Inl err) s) (\<lambda>(s', es).
     obind (stop_sessions err ss) (\<lambda>(ss', fs).
       Returns (s' # ss', map Remove (removed es) @ fs)))"

definition MultiCommandSession_resolve ::
    "error \<Rightarrow> MultiCommandSession \<Rightarrow> (MultiCommandSession \<times> multi_response effect list) outcome" where
  "MultiCommandSession_resolve err m =
     (if mcs_done m then Returns (m, [])
      else
        (let m = m\<lparr>mcs_done := True\<rparr>
         in if is_error err
         then obind (stop_sessions (Error operation_aborted []) (mcs_sessions m)) (\<lambda>(ss, es).
           Returns (m\<lparr>mcs_sessions := ss\<rparr>, es @ [Complete (Inl err)]))
         else Returns (m, [Complete (Inr (mcs_result m))])))"

text \<open>The callback of sub-session \<open>i\<close>.\<close>

definition MultiCommandSession_callback ::
    "nat \<Rightarrow> response result \<Rightarrow> MultiCommandSession
     \<Rightarrow> (MultiCommandSession \<times> multi_response effect list) outcome" where
  "MultiCommandSession_callback i result m =
     (case result of
        Inl e \<Rightarrow> MultiCommandSession_resolve e m
      | Inr v \<Rightarrow>
          (let m = m\<lparr>mcs_result := (mcs_result m)[i := Some v]\<rparr>;
               m = m\<lparr>mcs_finished_commands := mcs_finished_commands m + 1\<rparr>
           in if mcs_finished_commands m = length (mcs_sessions m)
           then MultiCommandSession_resolve no_error m else Returns (m, [])))"

text \<open>
  An event for a sub-session: its handler runs, and the effects are passed on, with the
  completion of the sub-session being the call of the callback above.
\<close>

fun pass_on ::
    "nat \<Rightarrow> response effect list \<Rightarrow> MultiCommandSession
     \<Rightarrow> (MultiCommandSession \<times> multi_response effect list) outcome" where
  "pass_on i [] m = Returns (m, [])"
| "pass_on i (Complete r # es) m =
     obind (MultiCommandSession_callback i r m) (\<lambda>(m, fs).
     obind (pass_on i es m) (\<lambda>(m, gs). Returns (m, fs @ gs)))"
| "pass_on i (Remove t # es) m =
     obind (pass_on i es m) (\<lambda>(m, gs). Returns (m, Remove t # gs))"
| "pass_on i (e # es) m = pass_on i es m"

definition MultiCommandSession_step ::
    "MultiCommandSession \<Rightarrow> nat \<times> session_event
     \<Rightarrow> (MultiCommandSession \<times> multi_response effect list) outcome" where
  "MultiCommandSession_step m = (\<lambda>(i, ev).
     if i < length (mcs_sessions m)
     then obind (CommandSession_step (mcs_sessions m ! i) ev) (\<lambda>(s', es).
       pass_on i es (m\<lparr>mcs_sessions := (mcs_sessions m)[i := s']\<rparr>))
     else Returns (m, []))"

section \<open>Laws of the multi session\<close>

definition multi_tokens :: "MultiCommandSession \<Rightarrow> HandlerToken list" where
  "multi_tokens m = concat (map CommandSession_tokens (mcs_sessions m))"

definition count_done :: "CommandSession list \<Rightarrow> nat" where
  "count_done ss = length (filter cs_done ss)"

text \<open>An element of the result tuple, if it has been assigned, answers its command.\<close>

definition response_kept :: "CommandSession \<Rightarrow> response option \<Rightarrow> bool" where
  "response_kept s r \<longleftrightarrow> (\<forall>v. r = Some v \<longrightarrow> response_fits (cs_command s) v)"

definition response_given :: "CommandSession \<Rightarrow> response option \<Rightarrow> bool" where
  "response_given s r \<longleftrightarrow> (\<exists>v. r = Some v \<and> response_fits (cs_command s) v)"

definition multi_ok :: "MultiCommandSession \<Rightarrow> bool" where
  "multi_ok m \<longleftrightarrow>
     length (mcs_result m) = length (mcs_sessions m)
     \<and> list_all2 response_kept (mcs_sessions m) (mcs_result m)
     \<and> (\<forall>s \<in> set (mcs_sessions m). CommandSession_ok s)
     \<and> (if mcs_done m then \<forall>s \<in> set (mcs_sessions m). cs_done s
        else mcs_finished_commands m = count_done (mcs_sessions m)
          \<and> map (\<lambda>r. r \<noteq> None) (mcs_result m) = map cs_done (mcs_sessions m)
          \<and> (mcs_sessions m \<noteq> [] \<longrightarrow> mcs_finished_commands m < length (mcs_sessions m)))"

lemma count_done_update:
  assumes "i < length ss" "\<not> cs_done (ss ! i)" "cs_done s'"
  shows "count_done (ss[i := s']) = Suc (count_done ss)"
proof -
  have "count_done ss = count_done (take i ss @ ss ! i # drop (Suc i) ss)"
    using assms(1) by (simp add: id_take_nth_drop [symmetric])
  then show ?thesis
    using assms by (simp add: count_done_def upd_conv_take_nth_drop)
qed

lemma count_done_all: "count_done ss = length ss \<longleftrightarrow> (\<forall>s \<in> set ss. cs_done s)"
proof (induction ss)
  case Nil
  then show ?case by (simp add: count_done_def)
next
  case (Cons s ss)
  have "length (filter cs_done ss) \<noteq> Suc (length ss)"
    by (metis Suc_n_not_le_n length_filter_le)
  with Cons show ?case by (auto simp: count_done_def)
qed

lemma CommandSession_ok_done [simp]: "CommandSession_ok (s\<lparr>cs_done := d\<rparr>) = CommandSession_ok s"
  by (simp add: CommandSession_ok_def)

text \<open>Only errors resolve a sub-session with \<open>Inl\<close>.\<close>

lemma completions_Remove [simp]: "completions (map Remove ts) = []"
  by (induction ts) auto

lemma removed_Remove [simp]: "removed (map Remove ts) = ts"
  by (induction ts) auto

lemma stop_sessions_stops:
  "\<forall>s \<in> set ss. CommandSession_ok s \<Longrightarrow>
   \<exists>ss' es. stop_sessions err ss = Returns (ss', es) \<and> map cs_command ss' = map cs_command ss
     \<and> (\<forall>s \<in> set ss'. CommandSession_ok s \<and> cs_done s) \<and> completions es = []
     \<and> removed es = concat (map CommandSession_tokens ss)"
proof (induction ss)
  case Nil
  then show ?case by simp
next
  case (Cons s ss)
  then obtain ss' es where "stop_sessions err ss = Returns (ss', es)"
    "map cs_command ss' = map cs_command ss" "\<forall>s \<in> set ss'. CommandSession_ok s \<and> cs_done s"
    "completions es = []"
    "removed es = concat (map CommandSession_tokens ss)" by auto
  with Cons.prems show ?case
    by (cases "cs_done s")
      (auto simp: CommandSession_resolve_def CommandSession_ok_def CommandSession_tokens_def [of s])
qed

text \<open>The tokens of the sub-sessions when one of them has given up its own.\<close>

lemma tokens_update:
  assumes "i < length ss" "\<not> cs_done (ss ! i)" "cs_handler (ss ! i) = Some token"
  shows "mset (concat (map CommandSession_tokens ss)) =
    add_mset token (mset (concat (map CommandSession_tokens (ss[i := (ss ! i)\<lparr>cs_done := True\<rparr>]))))"
proof -
  have "mset (concat (map CommandSession_tokens ss)) =
      mset (concat (map CommandSession_tokens (take i ss @ ss ! i # drop (Suc i) ss)))"
    using assms(1) by (simp add: id_take_nth_drop [symmetric])
  then show ?thesis
    using assms by (simp add: upd_conv_take_nth_drop CommandSession_tokens_def [of "ss ! i"]
        CommandSession_tokens_def [of "(ss ! i)\<lparr>cs_done := True\<rparr>"])
qed

definition multi_law ::
    "MultiCommandSession \<Rightarrow> MultiCommandSession \<times> multi_response effect list \<Rightarrow> bool" where
  "multi_law m = (\<lambda>(m', es). multi_ok m'
     \<and> map cs_command (mcs_sessions m') = map cs_command (mcs_sessions m)
     \<and> (\<forall>rs. Inr rs \<in> set (completions es) \<longrightarrow> list_all2 response_given (mcs_sessions m) rs)
     \<and> (mcs_done m \<longrightarrow> mcs_done m' \<and> completions es = [])
     \<and> (\<not> mcs_done m \<longrightarrow> length (completions es) = of_bool (mcs_done m'))
     \<and> mset (multi_tokens m) = mset (removed es) + mset (multi_tokens m'))"

lemma multi_tokens_done: "multi_ok m \<Longrightarrow> mcs_done m \<Longrightarrow> multi_tokens m = []"
  by (auto simp: multi_ok_def multi_tokens_def CommandSession_tokens_def)

lemma list_all2_commands:
  assumes "map cs_command ss = map cs_command ss'"
  shows "list_all2 response_kept ss rs = list_all2 response_kept ss' rs"
    and "list_all2 response_given ss rs = list_all2 response_given ss' rs"
proof -
  have "length ss = length ss'" using assms map_eq_imp_length_eq by blast
  moreover have "cs_command (ss ! i) = cs_command (ss' ! i)" if "i < length ss" for i
    using assms that by (metis calculation nth_map)
  ultimately show "list_all2 response_kept ss rs = list_all2 response_kept ss' rs"
    and "list_all2 response_given ss rs = list_all2 response_given ss' rs"
    by (auto simp: list_all2_conv_all_nth response_kept_def response_given_def)
qed

lemma multi_resolve_error:
  assumes "\<forall>s \<in> set (mcs_sessions m). CommandSession_ok s"
    and kept: "list_all2 response_kept (mcs_sessions m) (mcs_result m)"
    and "\<not> mcs_done m" and "is_error e"
  shows "\<exists>m' es. MultiCommandSession_resolve e m = Returns (m', es) \<and> multi_ok m' \<and> mcs_done m'
    \<and> map cs_command (mcs_sessions m') = map cs_command (mcs_sessions m)
    \<and> completions es = [Inl e] \<and> removed es = multi_tokens m"
proof -
  from stop_sessions_stops [OF assms(1)] obtain ss' es
    where "stop_sessions (Error operation_aborted []) (mcs_sessions m) = Returns (ss', es)"
      and c: "map cs_command ss' = map cs_command (mcs_sessions m)"
      and "\<forall>s \<in> set ss'. CommandSession_ok s \<and> cs_done s"
      "completions es = []" "removed es = concat (map CommandSession_tokens (mcs_sessions m))"
    by blast
  with assms list_all2_commands(1) [OF c] list_all2_lengthD [OF kept] map_eq_imp_length_eq [OF c]
  show ?thesis
    by (simp add: MultiCommandSession_resolve_def multi_ok_def multi_tokens_def)
qed

lemma all_given:
  assumes "\<forall>s \<in> set (mcs_sessions m). cs_done s"
    and "map (\<lambda>r. r \<noteq> None) (mcs_result m) = map cs_done (mcs_sessions m)"
    and "list_all2 response_kept (mcs_sessions m) (mcs_result m)"
  shows "list_all2 response_given (mcs_sessions m) (mcs_result m)"
proof (rule list_all2_all_nthI)
  show l: "length (mcs_sessions m) = length (mcs_result m)"
    using assms(3) by (rule list_all2_lengthD)
  fix i assume i: "i < length (mcs_sessions m)"
  then have "map (\<lambda>r. r \<noteq> None) (mcs_result m) ! i" using assms(1,2) by simp
  then have "mcs_result m ! i \<noteq> None" using i l by simp
  moreover have "response_kept (mcs_sessions m ! i) (mcs_result m ! i)"
    using assms(3) i by (rule list_all2_nthD)
  ultimately show "response_given (mcs_sessions m ! i) (mcs_result m ! i)"
    by (auto simp: response_kept_def response_given_def)
qed

text \<open>The callback of a sub-session that has just finished.\<close>

lemma multi_callback_law:
  assumes ok: "multi_ok m" and nd: "\<not> mcs_done m" and i: "i < length (mcs_sessions m)"
    and sub: "\<not> cs_done (mcs_sessions m ! i)" "cs_handler (mcs_sessions m ! i) = Some token"
    and err: "sound_answer (cs_command (mcs_sessions m ! i)) r"
  defines "m1 \<equiv> m\<lparr>mcs_sessions := (mcs_sessions m)[i := (mcs_sessions m ! i)\<lparr>cs_done := True\<rparr>]\<rparr>"
  shows "\<exists>m' es. MultiCommandSession_callback i r m1 = Returns (m', es)
    \<and> multi_law m (m', Remove token # es)"
proof -
  have len: "length (mcs_sessions m1) = length (mcs_sessions m)"
    and ok1: "\<forall>s \<in> set (mcs_sessions m1). CommandSession_ok s"
    and tok: "mset (multi_tokens m) = add_mset token (mset (multi_tokens m1))"
    and cnt: "count_done (mcs_sessions m1) = Suc (mcs_finished_commands m)"
    using ok nd i sub tokens_update [OF i sub] set_update_subset_insert
    by (auto simp: m1_def multi_ok_def multi_tokens_def count_done_update
        dest!: subsetD [OF set_update_subset_insert])
  have res: "length (mcs_result m1) = length (mcs_sessions m1)"
    using ok by (simp add: m1_def multi_ok_def)
  have cmds: "map cs_command (mcs_sessions m1) = map cs_command (mcs_sessions m)"
    using i by (simp add: m1_def map_update) (metis list_update_id map_update nth_map)
  have kept1: "list_all2 response_kept (mcs_sessions m1) (mcs_result m1)"
    using ok list_all2_commands(1) [OF cmds] by (simp add: m1_def multi_ok_def)
  show ?thesis
  proof (cases r)
    case (Inl e)
    have "is_error e" using err Inl by (simp add: sound_answer_def)
    with multi_resolve_error [OF ok1 kept1, of e] nd obtain m' es
      where m': "MultiCommandSession_resolve e m1 = Returns (m', es)" "multi_ok m'" "mcs_done m'"
        "map cs_command (mcs_sessions m') = map cs_command (mcs_sessions m1)"
        "completions es = [Inl e]" "removed es = multi_tokens m1"
      by (auto simp: m1_def)
    with nd tok cmds multi_tokens_done [OF m'(2,3)] show ?thesis
      by (simp add: MultiCommandSession_callback_def Inl multi_law_def)
  next
    case (Inr v)
    define m2 where "m2 = m1\<lparr>mcs_result := (mcs_result m)[i := Some v],
      mcs_finished_commands := Suc (mcs_finished_commands m)\<rparr>"
    have f: "mcs_finished_commands m < length (mcs_sessions m)"
      using ok nd i by (auto simp: multi_ok_def)
    have kept2: "list_all2 response_kept (mcs_sessions m2) (mcs_result m2)"
      using kept1 err i
      by (auto simp: m2_def m1_def list_all2_conv_all_nth nth_list_update response_kept_def Inr
          sound_answer_def)
    have given: "map (\<lambda>r. r \<noteq> None) (mcs_result m2) = map cs_done (mcs_sessions m2)"
      using ok nd by (simp add: m2_def m1_def map_update multi_ok_def)
    have cb: "MultiCommandSession_callback i r m1 =
        (if Suc (mcs_finished_commands m) = length (mcs_sessions m)
         then MultiCommandSession_resolve no_error m2 else Returns (m2, []))"
      by (simp add: MultiCommandSession_callback_def Inr m2_def m1_def)
    show ?thesis
    proof (cases "Suc (mcs_finished_commands m) = length (mcs_sessions m)")
      case True
      then have "\<forall>s \<in> set (mcs_sessions m1). cs_done s"
        using cnt len count_done_all by metis
      moreover from this have "multi_tokens m1 = []"
        by (simp add: multi_tokens_def CommandSession_tokens_def)
      moreover have "list_all2 response_given (mcs_sessions m) (mcs_result m2)"
        using calculation(1) given kept2 all_given [of m2] list_all2_commands(2) [OF cmds]
        by (simp add: m2_def)
      ultimately have "multi_law m (m2\<lparr>mcs_done := True\<rparr>,
          [Remove token, Complete (Inr (mcs_result m2))])"
        using nd tok ok1 res cmds kept2
        by (simp add: multi_law_def m2_def m1_def multi_ok_def multi_tokens_def)
      moreover have "\<not> mcs_done m2" using nd by (simp add: m2_def m1_def)
      ultimately show ?thesis
        using True by (simp add: cb MultiCommandSession_resolve_def)
    next
      case False
      have "multi_ok m2"
        using False f ok1 res nd cnt len given kept2 by (simp add: multi_ok_def m2_def m1_def)
      then have "multi_law m (m2, [Remove token])"
        using nd tok cmds by (simp add: multi_law_def m2_def m1_def multi_tokens_def)
      with False show ?thesis by (simp add: cb)
    qed
  qed
qed

lemma multi_step_law:
  assumes ok: "multi_ok m"
  shows "\<exists>m' es. MultiCommandSession_step m ev = Returns (m', es) \<and> multi_law m (m', es)"
proof (cases ev)
  case (Pair i e)
  have same: "multi_law m (m, [])" using ok by (simp add: multi_law_def)
  show ?thesis
  proof (cases "i < length (mcs_sessions m)")
    case False
    with same Pair show ?thesis by (simp add: MultiCommandSession_step_def)
  next
    case True
    then have sok: "CommandSession_ok (mcs_sessions m ! i)" using ok by (simp add: multi_ok_def)
    from CommandSession_step_returns [OF sok] obtain s' es
      where st: "CommandSession_step (mcs_sessions m ! i) e = Returns (s', es)" by blast
    from CommandSession_step_shape [OF sok st] show ?thesis
    proof (elim disjE exE conjE)
      assume "s' = mcs_sessions m ! i" "es = []"
      with st same Pair True show ?thesis by (simp add: MultiCommandSession_step_def)
    next
      fix token r
      assume nd: "\<not> cs_done (mcs_sessions m ! i)" and h: "cs_handler (mcs_sessions m ! i) = Some token"
        and s': "s' = (mcs_sessions m ! i)\<lparr>cs_done := True\<rparr>" and es: "es = [Remove token, Complete r]"
        and err: "sound_answer (cs_command (mcs_sessions m ! i)) r"
      have "\<not> mcs_done m" using ok nd True by (auto simp: multi_ok_def)
      from multi_callback_law [OF ok this True nd h err] st s' es Pair True show ?thesis
        by (auto simp: MultiCommandSession_step_def)
    qed
  qed
qed

lemma multi_resolve_law:
  assumes "multi_ok m" "is_error e"
  shows "\<exists>m' es. MultiCommandSession_resolve e m = Returns (m', es) \<and> multi_law m (m', es)
    \<and> (\<not> mcs_done m \<longrightarrow> mcs_done m' \<and> completions es = [Inl e])"
proof (cases "mcs_done m")
  case True
  with assms show ?thesis by (simp add: MultiCommandSession_resolve_def multi_law_def)
next
  case False
  from multi_resolve_error [OF _ _ False assms(2)] assms(1) obtain m' es
    where "MultiCommandSession_resolve e m = Returns (m', es)" "multi_ok m'" "mcs_done m'"
      "map cs_command (mcs_sessions m') = map cs_command (mcs_sessions m)"
      "completions es = [Inl e]" "removed es = multi_tokens m"
    unfolding multi_ok_def by blast
  with False multi_tokens_done show ?thesis by (simp add: multi_law_def)
qed

interpretation multi_session:
  resolvable_session MultiCommandSession_step mcs_done multi_tokens multi_ok
    MultiCommandSession_resolve
proof (unfold_locales, goal_cases)
  case (1 os ps)
  show ?case by simp
next
  case (2 s e s' es)
  then show ?case using multi_step_law [of s e] by (auto simp: multi_law_def)
next
  case (3 s e s' es)
  then show ?case using multi_step_law [of s e] by (auto simp: multi_law_def)
next
  case (4 s e s' es)
  then show ?case using multi_step_law [of s e] by (auto simp: multi_law_def)
next
  case (5 s e s' es)
  then show ?case using multi_step_law [of s e] by (auto simp: multi_law_def)
next
  case (6 s)
  then show ?case by (rule multi_tokens_done)
next
  case (7 s e)
  then show ?case using multi_step_law [of s e] by blast
next
  case (8 s r)
  then show ?case using multi_resolve_law [of s r] by blast
next
  case (9 s r s' es)
  then show ?case using multi_resolve_law [of s r] by (auto simp: multi_law_def)
next
  case (10 s r s' es)
  then show ?case by (simp add: MultiCommandSession_resolve_def)
next
  case (11 s r s' es)
  then show ?case using multi_resolve_law [of s r] by auto
next
  case (12 s r s' es)
  then show ?case using multi_resolve_law [of s r] by (auto simp: multi_law_def)
qed

section \<open>Sending several commands\<close>

text \<open>The handler of sub-session \<open>i\<close> is \<open>h i\<close>.\<close>

definition sendMultipleCommands ::
    "int \<Rightarrow> int \<Rightarrow> (nat \<Rightarrow> 'h) \<Rightarrow> command list \<Rightarrow> 'h Client
     \<Rightarrow> ((MultiCommandSession \<times> 'h Client) \<times> multi_response effect list) outcome" where
  "sendMultipleCommands now deadline h cmds client =
     obind (MultiCommandSession_new cmds client) (\<lambda>(m, client).
       DeadlineSession_start deadline (MultiCommandSession_start now h m client))"

text \<open>The member functions of the client, with a deadline and with a timeout.\<close>

definition Client_sendCommands ::
    "int \<Rightarrow> int \<Rightarrow> (nat \<Rightarrow> 'h) \<Rightarrow> command list \<Rightarrow> 'h Client
     \<Rightarrow> ((MultiCommandSession \<times> 'h Client) \<times> multi_response effect list) outcome" where
  "Client_sendCommands now deadline h cmds client = sendMultipleCommands now deadline h cmds client"

definition Client_sendCommands_timeout ::
    "int \<Rightarrow> int \<Rightarrow> (nat \<Rightarrow> 'h) \<Rightarrow> command list \<Rightarrow> 'h Client
     \<Rightarrow> ((MultiCommandSession \<times> 'h Client) \<times> multi_response effect list) outcome" where
  "Client_sendCommands_timeout now timeout h cmds client =
     Client_sendCommands now (now + timeout) h cmds client"

lemmas client_sends_defs [simp] = Client_sendCommands_def Client_sendCommands_timeout_def

abbreviation "multi_run \<equiv>
  run_machine (deadline_step MultiCommandSession_step MultiCommandSession_resolve)"

section \<open>Several commands at once\<close>

lemma init_sessions_new:
  "init_sessions cmds client = Returns (ss, client') \<Longrightarrow> client_inv client \<Longrightarrow>
   map cs_command ss = cmds \<and> client_inv client' \<and> (\<forall>s \<in> set ss. \<not> cs_done s)"
proof (induction cmds arbitrary: client ss)
  case Nil
  then show ?case by simp
next
  case (Cons c cs)
  then obtain s ss' client1 where "CommandSession_new c client = Returns (s, client1)"
    and i: "init_sessions cs client1 = Returns (ss', client')" and ss: "ss = s # ss'" by auto
  then have "client_inv client1" "cs_command s = c" "\<not> cs_done s"
    using Cons.prems(2) by (auto simp: CommandSession_new_def allocateId_def client_inv_def)
  with Cons.IH [OF i] ss show ?case by simp
qed

lemma registerHandler_entry:
  "registerHandler now rid h client = Returns (token, client') \<Longrightarrow>
   token_entry token = next_entry client \<and> next_entry client' = Suc (next_entry client)"
  by (auto simp: registerHandler_def split: option.splits)

lemma start_sessions_started:
  "start_sessions now h i ss client = Returns ((ss', client'), es) \<Longrightarrow> client_inv client \<Longrightarrow>
   \<forall>s \<in> set ss. \<not> cs_done s \<Longrightarrow>
   client_inv client' \<and> map cs_command ss' = map cs_command ss
   \<and> (\<forall>s \<in> set ss'. CommandSession_ok s \<and> \<not> cs_done s \<and> valid_token client' (the (cs_handler s))
        \<and> next_entry client \<le> token_entry (the (cs_handler s)))
   \<and> distinct (map (\<lambda>s. the (cs_handler s)) ss')
   \<and> (\<forall>t. valid_token client t \<longrightarrow> valid_token client' t)"
proof (induction ss arbitrary: i client ss' es)
  case Nil
  then show ?case by simp
next
  case (Cons s ss)
  then obtain s1 client1 es1 ss1 es2 where
    st: "CommandSession_start now (h i) s client = Returns ((s1, client1), es1)"
    and r: "start_sessions now h (i + 1) ss client1 = Returns ((ss1, client'), es2)"
    and ss': "ss' = s1 # ss1" by auto
  from st obtain token where
    reg: "registerHandler now (cs_request_id s) (h i) client = Returns (token, client1)"
    and s1: "s1 = s\<lparr>cs_started := True, cs_handler := Some token\<rparr>"
    by (auto simp: CommandSession_start_def split: if_splits)
  note v = registry.register_valid [OF Cons.prems(2) reg]
  have "client_inv client1" using v by simp
  note IH = Cons.IH [OF r this]
  have "token \<noteq> t" if "next_entry client1 \<le> token_entry t" for t
    using that registerHandler_entry [OF reg] by auto
  then show ?case
    using IH v registerHandler_entry [OF reg] Cons.prems(3)
      registry.register_keeps [OF Cons.prems(2) reg]
    by (auto simp: ss' s1 CommandSession_ok_def)
qed

lemma tokens_of_started:
  "\<forall>s \<in> set ss. \<not> cs_done s \<Longrightarrow>
   concat (map CommandSession_tokens ss) = map (\<lambda>s. the (cs_handler s)) ss"
  by (induction ss) (auto simp: CommandSession_tokens_def)

lemma sendMultipleCommands_session:
  assumes "sendMultipleCommands now deadline h cmds client = Returns ((m, client'), es)" and "client_inv client"
  shows "multi_ok m" "\<not> mcs_done m" "map cs_command (mcs_sessions m) = cmds"
    "distinct (multi_tokens m)" "\<forall>t \<in> set (multi_tokens m). valid_token client' t"
proof -
  obtain ss0 client0 ss es1 where i: "init_sessions cmds client = Returns (ss0, client0)"
    and st: "start_sessions now h 0 ss0 client0 = Returns ((ss, client'), es1)"
    and m: "m = \<lparr>mcs_sessions = ss, mcs_result = replicate (length cmds) None, mcs_started = True,
      mcs_done = False, mcs_finished_commands = 0\<rparr>"
    using assms(1)
    by (auto simp: sendMultipleCommands_def DeadlineSession_start_def MultiCommandSession_new_def MultiCommandSession_start_def)
  note n = init_sessions_new [OF i assms(2)]
  then have inv0: "client_inv client0" and nd0: "\<forall>s \<in> set ss0. \<not> cs_done s" by simp_all
  note s = start_sessions_started [OF st inv0 nd0]
  have c: "map cs_command ss = cmds" using n s by simp
  then have len: "length ss = length cmds" by auto
  have zero: "count_done ss = 0" using s by (auto simp: count_done_def filter_empty_conv)
  have "map (\<lambda>r. r \<noteq> None) (replicate (length cmds) (None :: response option)) = map cs_done ss"
    using s len by (auto intro!: nth_equalityI)
  moreover have "list_all2 response_kept ss (replicate (length cmds) None)"
    using len by (simp add: list_all2_conv_all_nth response_kept_def)
  ultimately show "multi_ok m" using s len zero by (auto simp: multi_ok_def m)
  show "\<not> mcs_done m" "map cs_command (mcs_sessions m) = cmds" using c by (simp_all add: m)
  have "multi_tokens m = map (\<lambda>s. the (cs_handler s)) ss"
    using s tokens_of_started [of ss] by (simp add: multi_tokens_def m)
  with s show "distinct (multi_tokens m)" "\<forall>t \<in> set (multi_tokens m). valid_token client' t" by auto
qed

text \<open>Every success has a response to each command.\<close>

lemma multi_deadline_law:
  assumes "multi_ok m"
    and "deadline_step MultiCommandSession_step MultiCommandSession_resolve m ev = Returns (m', es)"
  shows "map cs_command (mcs_sessions m') = map cs_command (mcs_sessions m)
    \<and> (\<forall>rs. Inr rs \<in> set (completions es) \<longrightarrow> list_all2 response_given (mcs_sessions m) rs)"
proof (cases ev)
  case (Work e)
  with assms multi_step_law [OF assms(1), of e] show ?thesis by (auto simp: multi_law_def)
next
  case (Timer err)
  show ?thesis
  proof (cases "err = operation_aborted")
    case True
    with assms Timer show ?thesis by (simp add: deadline_timer_def)
  next
    case False
    obtain m1 es1 es2 where
      a: "(if ec_is_error err then MultiCommandSession_resolve (Error err [''waiting for timeout'']) m
           else Returns (m, [])) = Returns (m1, es1)"
      and b: "MultiCommandSession_resolve (Error asio_timed_out []) m1 = Returns (m', es2)"
      and es: "completions es = completions es1 @ completions es2"
      using assms Timer False by (auto simp: deadline_timer_def)
    have "multi_ok m1 \<and> map cs_command (mcs_sessions m1) = map cs_command (mcs_sessions m)
      \<and> (\<forall>rs. Inr rs \<in> set (completions es1) \<longrightarrow> list_all2 response_given (mcs_sessions m) rs)"
      using a assms(1) multi_resolve_law [OF assms(1), of "Error err [''waiting for timeout'']"]
      by (cases "ec_is_error err") (auto simp: multi_law_def is_error_def)
    moreover from this multi_resolve_law [of m1 "Error asio_timed_out []"] b
    have "map cs_command (mcs_sessions m') = map cs_command (mcs_sessions m1)"
      and "Inr rs \<notin> set (completions es2)" for rs
      by (cases "mcs_done m1"; simp add: multi_law_def)+
    ultimately show ?thesis by (simp add: es)
  qed
qed

lemma multi_run_results:
  "multi_ok m \<Longrightarrow> multi_run m evs = Returns (m', es) \<Longrightarrow> Inr rs \<in> set (completions es) \<Longrightarrow>
   list_all2 response_given (mcs_sessions m) rs"
proof (induction evs arbitrary: m es)
  case Nil
  then show ?case by simp
next
  case (Cons ev evs)
  then obtain m1 es1 es2 where
    st: "deadline_step MultiCommandSession_step MultiCommandSession_resolve m ev = Returns (m1, es1)"
    and r: "multi_run m1 evs = Returns (m', es2)" and es: "es = es1 @ es2" by auto
  note law = multi_deadline_law [OF Cons.prems(1) st]
  have ok1: "multi_ok m1" using Cons.prems(1) st by (rule multi_session.deadline.step_ok)
  from Cons.prems(3) consider "Inr rs \<in> set (completions es1)" | "Inr rs \<in> set (completions es2)"
    by (auto simp: es)
  then show ?case
  proof cases
    case 1
    with law show ?thesis by blast
  next
    case 2
    with Cons.IH [OF ok1 r] law list_all2_commands(2) show ?thesis by blast
  qed
qed

text \<open>The result tuple has the type the commands give it.\<close>

lemma given_responses:
  "list_all2 response_given ss rs \<Longrightarrow>
   \<exists>vs. rs = map Some vs \<and> list_all2 response_fits (map cs_command ss) vs
     \<and> T_tuple (map element_type vs) = response_type (map type_of_command (map cs_command ss))"
proof (induction ss rs rule: list_all2_induct)
  case Nil
  then show ?case by (simp add: response_type_def map_tuple_t_def)
next
  case (Cons s ss r rs)
  then obtain v vs where "r = Some v" "response_fits (cs_command s) v" "rs = map Some vs"
    "list_all2 response_fits (map cs_command ss) vs"
    "T_tuple (map element_type vs) = response_type (map type_of_command (map cs_command ss))"
    by (auto simp: response_given_def)
  then show ?case
    by (intro exI [of _ "v # vs"])
      (simp add: response_type_def map_tuple_t_def response_tuple_element_def element_type_eq [of v] response_fits_type)
qed

text \<open>
  C4: Several commands sent together complete at most once: whatever the order in which their
  replies, send errors and the timer come in, every run returns, the callback is called at
  most once and exactly when the session is done, and then the handlers of all commands, which
  are different and were valid, have been removed, each once. A success has a response for
  each command that is one it asks for, and their tuple has the type that the type functions
  of the session give it.
\<close>

theorem sendMultipleCommands_completes_once:
  assumes "sendMultipleCommands now deadline h cmds client = Returns ((m, client'), es0)" and "client_inv client"
  shows "distinct (multi_tokens m) \<and> (\<forall>t \<in> set (multi_tokens m). valid_token client' t) \<and>
    (\<exists>m' es. multi_run m evs = Returns (m', es)
      \<and> length (completions es) \<le> 1 \<and> (mcs_done m' \<longleftrightarrow> completions es \<noteq> [])
      \<and> (mcs_done m' \<longrightarrow> mset (removed es) = mset (multi_tokens m))
      \<and> ((\<exists>err. Timer err \<in> set evs \<and> err \<noteq> operation_aborted) \<longrightarrow> mcs_done m')
      \<and> (\<forall>rs. Inr rs \<in> set (completions es) \<longrightarrow>
           (\<exists>vs. rs = map Some vs \<and> list_all2 response_fits cmds vs
              \<and> T_tuple (map element_type vs) = response_type (map type_of_command cmds))))"
proof -
  note s = sendMultipleCommands_session [OF assms]
  obtain m' es where r: "multi_run m evs = Returns (m', es)"
    using multi_session.deadline.run_returns [OF s(1)] by blast
  have "\<exists>vs. rs = map Some vs \<and> list_all2 response_fits cmds vs
      \<and> T_tuple (map element_type vs) = response_type (map type_of_command cmds)"
    if "Inr rs \<in> set (completions es)" for rs
    using given_responses [OF multi_run_results [OF s(1) r that]] s(3) by simp
  with r multi_session.deadline.run_at_most_once [OF s(1,2) r] s(4,5)
    multi_session.deadline_reached [OF s(1) r]
  show ?thesis by auto
qed

lemma sendMultipleCommands_completes_once_witness:
  "\<exists>m client' es0. sendMultipleCommands 0 100 (\<lambda>i. (0 :: nat, i)) [ReadStatus, ReadUint8Var \<lparr>rv_index = 1\<rparr>]
      (new_Client True) = Returns ((m, client'), es0) \<and>
    (\<exists>m' es. multi_run m [Timer ec_success] = Returns (m', es)
      \<and> length (completions es) \<le> 1 \<and> mcs_done m'
      \<and> mset (removed es) = mset (multi_tokens m))"
proof -
  obtain m client' es0 where
    m: "sendMultipleCommands 0 100 (\<lambda>i. (0 :: nat, i)) [ReadStatus, ReadUint8Var \<lparr>rv_index = 1\<rparr>]
      (new_Client True) = Returns ((m, client'), es0)"
    by (simp add: sendMultipleCommands_def DeadlineSession_start_def MultiCommandSession_new_def MultiCommandSession_start_def
        CommandSession_new_def CommandSession_start_def allocateId_def registerHandler_def
        new_Client_def)
  have "ec_success \<noteq> operation_aborted" by (simp add: ec_success_def operation_aborted_def)
  with sendMultipleCommands_completes_once [OF m, of "[Timer ec_success]"] m
  show ?thesis by (fastforce simp: client_inv_def new_Client_def)
qed

end
