(* ===== verification/Multi_Failure.thy ===== *)
theory Multi_Failure
  imports Multi_Session
begin

text \<open>
  When sending several commands fails.  The request ids are handed out without a look at the open
  requests, so registering the handler of a sub-session can throw when others have been registered
  already.  The exception destroys the session, but not the handlers it has left in the client.
\<close>

section \<open>The ids of the sub-sessions\<close>

definition request_ids :: "u8 \<Rightarrow> nat \<Rightarrow> u8 list" where
  "request_ids r n = map (\<lambda>j. r + of_nat j) [0..<n]"

text \<open>The next \<open>n\<close> ids are different, and none of them belongs to an open request.\<close>

definition ids_free :: "nat \<Rightarrow> 'h Client \<Rightarrow> bool" where
  "ids_free n client \<longleftrightarrow>
     n \<le> 256 \<and> (\<forall>k < n. find_handler client (client_request_id client + of_nat k) = None)"

lemma request_ids_Suc: "request_ids r (Suc n) = r # request_ids (r + 1) n"
  by (simp add: request_ids_def upt_conv_Cons map_Suc_upt [symmetric] del: upt_Suc)

lemma nth_request_ids [simp]: "j < n \<Longrightarrow> request_ids r n ! j = r + of_nat j"
  by (simp add: request_ids_def)

lemma length_request_ids [simp]: "length (request_ids r n) = n"
  by (simp add: request_ids_def)

lemma distinct_request_ids: "distinct (request_ids r n) \<longleftrightarrow> n \<le> 256"
proof
  assume "distinct (request_ids r n)"
  then have "n = card (set (request_ids r n))" by (simp add: distinct_card)
  also have "\<dots> \<le> card (UNIV :: u8 set)" by (rule card_mono) simp_all
  finally show "n \<le> 256" by (simp add: card_word)
next
  assume n: "n \<le> 256"
  have "j = k" if "(of_nat j :: u8) = of_nat k" "j < n" "k < n" for j k
  proof -
    have "unat (of_nat j :: u8) = j" "unat (of_nat k :: u8) = k" using that(2,3) n by (simp_all add: unat_of_nat_u8)
    with that(1) show ?thesis by metis
  qed
  then show "distinct (request_ids r n)" by (auto simp: request_ids_def distinct_map inj_on_def)
qed

lemma init_sessions_ids:
  assumes "\<forall>c \<in> set cmds. \<forall>rid. \<exists>buffer. encode_command [] rid c = Returns buffer"
  shows "\<exists>ss client'. init_sessions cmds client = Returns (ss, client')
    \<and> map cs_request_id ss = request_ids (client_request_id client) (length cmds)
    \<and> (\<forall>s \<in> set ss. \<not> cs_started s) \<and> find_handler client' = find_handler client
    \<and> client_inv client' = client_inv client"
  using assms
proof (induction cmds arbitrary: client)
  case Nil
  then show ?case by (simp add: request_ids_def)
next
  case (Cons c cs)
  let ?client = "client\<lparr>client_request_id := client_request_id client + 1\<rparr>"
  obtain buffer where "encode_command [] (client_request_id client) c = Returns buffer"
    using Cons.prems by (metis list.set_intros(1))
  moreover from Cons obtain ss client' where "init_sessions cs ?client = Returns (ss, client')"
    "map cs_request_id ss = request_ids (client_request_id client + 1) (length cs)"
    "\<forall>s \<in> set ss. \<not> cs_started s" "find_handler client' = find_handler ?client"
    "client_inv client' = client_inv ?client" by fastforce
  moreover have "find_handler ?client = find_handler client" "client_inv ?client = client_inv client"
    by (simp_all add: find_handler_def client_inv_def fun_eq_iff)
  ultimately show ?case by (simp add: CommandSession_new_def allocateId_def request_ids_Suc)
qed

section \<open>Starting\<close>

text \<open>The handlers that are registered when the first sub-sessions have started.\<close>

lemma start_sessions_handlers:
  "start_sessions now h i ss client = Returns ((ss', client'), es) \<Longrightarrow>
   distinct (map cs_request_id ss)
   \<and> (\<forall>s \<in> set ss. find_handler client (cs_request_id s) = None)
   \<and> (\<forall>j < length ss. find_handler client' (cs_request_id (ss ! j)) = Some (h (i + j)))
   \<and> (\<forall>k. k \<notin> cs_request_id ` set ss \<longrightarrow> find_handler client' k = find_handler client k)"
proof (induction ss arbitrary: i client ss' es)
  case Nil
  then show ?case by simp
next
  case (Cons s ss)
  then obtain s1 client1 es1 ss1 es2 where
    st: "CommandSession_start now (h i) s client = Returns ((s1, client1), es1)"
    and r: "start_sessions now h (i + 1) ss client1 = Returns ((ss1, client'), es2)" by auto
  from st obtain token where
    reg: "registerHandler now (cs_request_id s) (h i) client = Returns (token, client1)"
    by (auto simp: CommandSession_start_def split: if_splits)
  have find: "find_handler client1 = (find_handler client)(cs_request_id s \<mapsto> h i)"
    using reg by (rule registry.register_find)
  have free: "find_handler client (cs_request_id s) = None"
    using reg registerHandler_taken by fastforce
  note IH = Cons.IH [OF r]
  then have new: "cs_request_id s \<notin> cs_request_id ` set ss" by (auto simp: find)
  show ?case
  proof (intro conjI allI impI)
    fix j
    assume "j < length (s # ss)"
    with IH new find show "find_handler client' (cs_request_id ((s # ss) ! j)) = Some (h (i + j))"
      by (cases j) auto
  qed (use IH new find free in \<open>auto split: if_splits\<close>)
qed

text \<open>Either all sub-sessions start, or the id of one of them is taken and those before it have started.\<close>

lemma start_sessions_cases:
  "\<forall>s \<in> set ss. \<not> cs_started s \<Longrightarrow>
   (\<exists>ss' client' es. start_sessions now h i ss client = Returns ((ss', client'), es))
   \<or> (\<exists>k < length ss. \<exists>ss' client' es.
        start_sessions now h i (take k ss) client = Returns ((ss', client'), es)
        \<and> find_handler client' (cs_request_id (ss ! k)) \<noteq> None
        \<and> start_sessions now h i ss client = Throws (request_id_taken (cs_request_id (ss ! k))))"
proof (induction ss arbitrary: i client)
  case Nil
  then show ?case by simp
next
  case (Cons s ss)
  show ?case
  proof (cases "find_handler client (cs_request_id s) = None")
    case False
    with Cons.prems registerHandler_taken [OF False, of now "h i"] show ?thesis
      by (intro disjI2 exI [of _ 0]) (simp add: CommandSession_start_def)
  next
    case True
    then obtain s1 client1 es1 where
      st: "CommandSession_start now (h i) s client = Returns ((s1, client1), es1)"
      using Cons.prems by (auto simp: CommandSession_start_def find_handler_def registerHandler_def)
    from Cons.IH [of "i + 1" client1] Cons.prems consider
      (all) ss' client' es where "start_sessions now h (i + 1) ss client1 = Returns ((ss', client'), es)"
    | (some) k ss' client' es where "k < length ss"
        "start_sessions now h (i + 1) (take k ss) client1 = Returns ((ss', client'), es)"
        "find_handler client' (cs_request_id (ss ! k)) \<noteq> None"
        "start_sessions now h (i + 1) ss client1 = Throws (request_id_taken (cs_request_id (ss ! k)))"
      by auto
    then show ?thesis
    proof cases
      case all
      with st show ?thesis by simp
    next
      case some
      with st show ?thesis by (intro disjI2 exI [of _ "Suc k"]) simp
    qed
  qed
qed

text \<open>The two ways in which the call ends.\<close>

lemma sends_outcome:
  assumes "\<forall>c \<in> set cmds. \<forall>rid. \<exists>buffer. encode_command [] rid c = Returns buffer"
  shows "(ids_free (length cmds) client
      \<and> (\<exists>m client' es. sendMultipleCommands now deadline h cmds client = Returns ((m, client'), es)))
    \<or> (\<not> ids_free (length cmds) client \<and> (\<exists>k < length cmds.
      sendMultipleCommands now deadline h cmds client
        = Throws (request_id_taken (client_request_id client + of_nat k))
      \<and> (\<exists>ss client0 ss' client1 es. init_sessions cmds client = Returns (ss, client0)
          \<and> start_sessions now h 0 (take k ss) client0 = Returns ((ss', client1), es)
          \<and> (\<forall>j < k. find_handler client1 (client_request_id client + of_nat j) = Some (h j)))))"
proof -
  obtain ss client0 where i: "init_sessions cmds client = Returns (ss, client0)"
    and ids: "map cs_request_id ss = request_ids (client_request_id client) (length cmds)"
    and ns: "\<forall>s \<in> set ss. \<not> cs_started s" and f: "find_handler client0 = find_handler client"
    using init_sessions_ids [OF assms, of client] by blast
  have len: "length ss = length cmds" using ids by (metis length_map length_request_ids)
  have id: "cs_request_id (ss ! j) = client_request_id client + of_nat j" if "j < length cmds" for j
    using that ids len by (metis nth_map nth_request_ids)
  have free: "ids_free (length cmds) client \<longleftrightarrow> distinct (map cs_request_id ss)
      \<and> (\<forall>s \<in> set ss. find_handler client0 (cs_request_id s) = None)"
    using len id by (auto simp: ids_free_def ids distinct_request_ids f all_set_conv_all_nth)
  note defs = sendMultipleCommands_def DeadlineSession_start_def MultiCommandSession_new_def
    MultiCommandSession_start_def i
  from start_sessions_cases [OF ns, of now h 0 client0] show ?thesis
  proof (elim disjE exE conjE)
    fix ss' client' es
    assume st: "start_sessions now h 0 ss client0 = Returns ((ss', client'), es)"
    with start_sessions_handlers [OF st] show ?thesis by (simp add: free defs)
  next
    fix k ss' client1 es
    assume k: "k < length ss" and st: "start_sessions now h 0 (take k ss) client0 = Returns ((ss', client1), es)"
      and taken: "find_handler client1 (cs_request_id (ss ! k)) \<noteq> None"
      and t: "start_sessions now h 0 ss client0 = Throws (request_id_taken (cs_request_id (ss ! k)))"
    note hs = start_sessions_handlers [OF st]
    have "\<not> ids_free (length cmds) client"
    proof
      assume "ids_free (length cmds) client"
      then have d: "distinct (map cs_request_id ss)"
        and "find_handler client0 (cs_request_id (ss ! k)) = None" using k by (auto simp: free)
      moreover have "cs_request_id (ss ! k) \<notin> cs_request_id ` set (take k ss)"
      proof
        assume "cs_request_id (ss ! k) \<in> cs_request_id ` set (take k ss)"
        then obtain j where "j < k" "cs_request_id (ss ! j) = cs_request_id (ss ! k)"
          using k by (auto simp: in_set_conv_nth)
        with nth_eq_iff_index_eq [OF d, of j k] k show False by simp
      qed
      ultimately show False using hs taken by simp
    qed
    moreover have "\<forall>j < k. find_handler client1 (client_request_id client + of_nat j) = Some (h j)"
      using hs k len id by auto
    ultimately show ?thesis using k len st t id [of k] by (auto simp: defs)
  qed
qed

section \<open>Property\<close>



end
