(* ===== verification/File_Sessions.thy ===== *)
theory File_Sessions
  imports Session_Contract
begin

text \<open>
  The sessions that transfer files: \<open>ReadFileSession\<close> (\<open>src/udp/read_file.hpp\<close>) and
  \<open>WriteFileSession\<close> (\<open>src/udp/write_file.hpp\<close>).  \<open>ReadFileSession\<close> is a template over the
  command; its model takes the decoder of that command.  Both satisfy the contract of a
  session.  The file is only ever received in one block, and only ever sent when it is empty.
\<close>

datatype file_event =
    File_reply ResponseHeader bytes
  | File_sent error_code
  | Ack_sent error_code
  | File_timer error_code

section \<open>Reading a file\<close>

record ReadFileSession =
  rfs_request_id :: u8
  rfs_handler :: "HandlerToken option"
  rfs_timeout :: int
  rfs_write_buffer :: bytes
  rfs_read_buffer :: bytes
  rfs_has_progress :: bool
  rfs_done :: bool
  rfs_blocks_received :: nat

definition ReadFileSession_new :: "u8 \<Rightarrow> bytes \<Rightarrow> int \<Rightarrow> bool \<Rightarrow> ReadFileSession" where
  "ReadFileSession_new rid buffer timeout progress =
     \<lparr>rfs_request_id = rid, rfs_handler = None, rfs_timeout = timeout, rfs_write_buffer = buffer, rfs_read_buffer = [],
      rfs_has_progress = progress, rfs_done = False, rfs_blocks_received = 0\<rparr>"

text \<open>\<open>resetTimeout\<close>, which only \<open>start\<close> calls: the time is for the whole transfer.\<close>

definition ReadFileSession_resetTimeout :: "int \<Rightarrow> ReadFileSession \<Rightarrow> 'r effect" where
  "ReadFileSession_resetTimeout now s = Start_timer (now + rfs_timeout s)"

definition ReadFileSession_start ::
    "int \<Rightarrow> 'h \<Rightarrow> ReadFileSession \<Rightarrow> 'h Client
     \<Rightarrow> ((ReadFileSession \<times> 'h Client) \<times> 'r effect list) outcome" where
  "ReadFileSession_start now h s client =
     obind (registerHandler now (rfs_request_id s) h client) (\<lambda>(token, client).
       Returns ((s\<lparr>rfs_handler := Some token\<rparr>, client), [Send (rfs_write_buffer s), ReadFileSession_resetTimeout now s]))"

definition ReadFileSession_writeAck :: "u32 \<Rightarrow> ReadFileSession \<Rightarrow> bytes" where
  "ReadFileSession_writeAck block s =
     encode_RequestHeader []
       (makeFileRequestHeader 0 (file_command_code read_file) (rfs_request_id s) block True)"

definition ReadFileSession_stopSession ::
    "'r result \<Rightarrow> ReadFileSession \<Rightarrow> (ReadFileSession \<times> 'r effect list) outcome" where
  "ReadFileSession_stopSession result s =
     (if rfs_done s then Returns (s, [])
      else case rfs_handler s of
        None \<Rightarrow> Undefined
      | Some token \<Rightarrow>
          Returns (s\<lparr>rfs_done := True\<rparr>, [Cancel_timer, Remove token, Complete result]))"

definition ReadFileSession_onResponse ::
    "(bytes \<Rightarrow> 'r result outcome) \<Rightarrow> ResponseHeader \<Rightarrow> bytes \<Rightarrow> ReadFileSession
     \<Rightarrow> (ReadFileSession \<times> 'r effect list) outcome" where
  "ReadFileSession_onResponse decode header data s =
     (if rfs_done s then Returns (s, [])
      else if status header \<noteq> 0
      then ReadFileSession_stopSession
        (Inl (commandFailed (ucast (status header)) (extra_status header))) s
      else
        (let block = block_number header AND 0x7fffffff;
             last_block = block_number header AND 0x80000000 \<noteq> 0;
             e = expectValue ''block number'' (uint block) (int (rfs_blocks_received s + 1))
         in if is_error e then ReadFileSession_stopSession (Inl e) s
         else
           (let ack = Send (ReadFileSession_writeAck block s);
                s = s\<lparr>rfs_read_buffer := rfs_read_buffer s @ data\<rparr>;
                progress =
                  (if rfs_has_progress s then [Received (length (rfs_read_buffer s))] else [])
            in if last_block
            then obind (decode (rfs_read_buffer s)) (\<lambda>result.
                 obind (ReadFileSession_stopSession result s) (\<lambda>(s, es).
                   Returns (s, [ack] @ progress @ es)))
            else Returns (s, [ack] @ progress))))"

definition ReadFileSession_sent ::
    "string \<Rightarrow> error_code \<Rightarrow> ReadFileSession \<Rightarrow> (ReadFileSession \<times> 'r effect list) outcome" where
  "ReadFileSession_sent what err s =
     (if ec_is_error err
      then ReadFileSession_stopSession (Inl (Error err
        [''writing '' @ what @ '' for request '' @ to_string (uint (rfs_request_id s))])) s
      else Returns (s, []))"

definition ReadFileSession_timeout ::
    "error_code \<Rightarrow> ReadFileSession \<Rightarrow> (ReadFileSession \<times> 'r effect list) outcome" where
  "ReadFileSession_timeout err s =
     (let what = ''waiting for reply to request '' @ to_string (uint (rfs_request_id s))
      in if err = operation_aborted then Returns (s, [])
      else if ec_is_error err then ReadFileSession_stopSession (Inl (Error err [what])) s
      else ReadFileSession_stopSession (Inl (Error errc_timed_out [what])) s)"

fun ReadFileSession_step ::
    "(bytes \<Rightarrow> 'r result outcome) \<Rightarrow> ReadFileSession \<Rightarrow> file_event
     \<Rightarrow> (ReadFileSession \<times> 'r effect list) outcome" where
  "ReadFileSession_step decode s (File_reply header data) =
     ReadFileSession_onResponse decode header data s"
| "ReadFileSession_step decode s (File_sent err) = ReadFileSession_sent ''command'' err s"
| "ReadFileSession_step decode s (Ack_sent err) = ReadFileSession_sent ''ack'' err s"
| "ReadFileSession_step decode s (File_timer err) = ReadFileSession_timeout err s"

text \<open>The function that makes a session of a command and starts it.\<close>

definition impl_readFile ::
    "int \<Rightarrow> 'h \<Rightarrow> u8 \<Rightarrow> bytes \<Rightarrow> int \<Rightarrow> bool \<Rightarrow> 'h Client
     \<Rightarrow> ((ReadFileSession \<times> 'h Client) \<times> 'r effect list) outcome" where
  "impl_readFile now h rid buffer timeout progress client =
     ReadFileSession_start now h (ReadFileSession_new rid buffer timeout progress) client"

text \<open>\<open>Client::readFile\<close> and \<open>Client::readFileList\<close>: the two commands it is used for.\<close>

definition readFile ::
    "int \<Rightarrow> 'h \<Rightarrow> bytes \<Rightarrow> int \<Rightarrow> bool \<Rightarrow> 'h Client
     \<Rightarrow> ((ReadFileSession \<times> 'h Client) \<times> bytes effect list) outcome" where
  "readFile now h name timeout progress client =
     (let (rid, client) = allocateId client;
          buffer = encode_ReadFile [] rid \<lparr>rf_name = name\<rparr>
      in impl_readFile now h rid buffer timeout progress client)"

definition readFileList ::
    "int \<Rightarrow> 'h \<Rightarrow> bytes \<Rightarrow> int \<Rightarrow> bool \<Rightarrow> 'h Client
     \<Rightarrow> ((ReadFileSession \<times> 'h Client) \<times> bytes list effect list) outcome" where
  "readFileList now h type timeout progress client =
     (let (rid, client) = allocateId client;
          buffer = encode_ReadFileList [] rid \<lparr>rfl_type = type\<rparr>
      in impl_readFile now h rid buffer timeout progress client)"

abbreviation "ReadFile_step \<equiv> ReadFileSession_step (\<lambda>data. Returns (decode_ReadFile data))"
abbreviation "ReadFileList_step \<equiv> ReadFileSession_step decode_ReadFileList"

section \<open>Writing a file\<close>

record WriteFileSession =
  wfs_request_id :: u8
  wfs_command :: WriteFile
  wfs_handler :: "HandlerToken option"
  wfs_timeout :: int
  wfs_write_buffer :: bytes
  wfs_has_progress :: bool
  wfs_done :: bool
  wfs_blocks_sent :: nat

definition WriteFileSession_new :: "u8 \<Rightarrow> WriteFile \<Rightarrow> int \<Rightarrow> bool \<Rightarrow> WriteFileSession" where
  "WriteFileSession_new rid cmd timeout progress =
     \<lparr>wfs_request_id = rid, wfs_command = cmd, wfs_handler = None, wfs_timeout = timeout, wfs_write_buffer = [],
      wfs_has_progress = progress, wfs_done = False, wfs_blocks_sent = 0\<rparr>"

definition WriteFileSession_resetTimeout :: "int \<Rightarrow> WriteFileSession \<Rightarrow> unit effect" where
  "WriteFileSession_resetTimeout now s = Start_timer (now + wfs_timeout s)"

definition WriteFileSession_start ::
    "int \<Rightarrow> 'h \<Rightarrow> WriteFileSession \<Rightarrow> 'h Client
     \<Rightarrow> ((WriteFileSession \<times> 'h Client) \<times> unit effect list) outcome" where
  "WriteFileSession_start now h s client =
     (let s = s\<lparr>wfs_write_buffer :=
          encode_WriteFile (wfs_write_buffer s) (wfs_request_id s) (wfs_command s)\<rparr>
      in obind (registerHandler now (wfs_request_id s) h client) (\<lambda>(token, client).
        Returns ((s\<lparr>wfs_handler := Some token\<rparr>, client), [Send (wfs_write_buffer s), WriteFileSession_resetTimeout now s])))"

definition WriteFileSession_bytesSent :: "WriteFileSession \<Rightarrow> nat" where
  "WriteFileSession_bytesSent s =
     min (wfs_blocks_sent s * max_payload_size) (length (wf_data (wfs_command s)))"

text \<open>
  \<open>writeNextBlock\<close>, which nothing calls.  The variable \<open>block_number\<close> is computed and not
  used.  Past the end of the data the subtraction wraps and the block is read outside it.
\<close>

definition WriteFileSession_writeNextBlock ::
    "WriteFileSession \<Rightarrow> (WriteFileSession \<times> unit effect list) outcome" where
  "WriteFileSession_writeNextBlock s =
     (let data = wf_data (wfs_command s);
          bytes_sent = wfs_blocks_sent s * max_payload_size
      in if bytes_sent > length data then Undefined
      else
        (let remaining = length data - bytes_sent;
             block_size = min remaining max_payload_size;
             buffer = encode_RequestHeader []
               (makeFileRequestHeader (of_nat block_size) (file_command_code write_file)
                 (wfs_request_id s) (of_nat (wfs_blocks_sent s + 1)) False)
         in Returns (s\<lparr>wfs_blocks_sent := wfs_blocks_sent s + 1\<rparr>,
              [Send (buffer @ take block_size (drop bytes_sent data))])))"

definition WriteFileSession_stopSession ::
    "unit result \<Rightarrow> WriteFileSession \<Rightarrow> (WriteFileSession \<times> unit effect list) outcome" where
  "WriteFileSession_stopSession result s =
     (if wfs_done s then Returns (s, [])
      else case wfs_handler s of
        None \<Rightarrow> Undefined
      | Some token \<Rightarrow>
          Returns (s\<lparr>wfs_done := True\<rparr>, [Cancel_timer, Remove token, Complete result]))"

definition WriteFileSession_onResponse ::
    "ResponseHeader \<Rightarrow> bytes \<Rightarrow> WriteFileSession \<Rightarrow> (WriteFileSession \<times> unit effect list) outcome" where
  "WriteFileSession_onResponse header data s =
     (if wfs_done s then Returns (s, [])
      else if status header \<noteq> 0
      then WriteFileSession_stopSession
        (Inl (commandFailed (ucast (status header)) (extra_status header))) s
      else
        (let e1 = expectSize ''response data'' (length data) 0;
             e2 = expectValue ''ack'' (of_bool (ack header)) (of_bool True);
             e3 = expectValue ''block number'' (sint (block_number header)) (int (wfs_blocks_sent s))
         in if is_error e1 then WriteFileSession_stopSession (Inl e1) s
         else if is_error e2 then WriteFileSession_stopSession (Inl e2) s
         else if is_error e3 then WriteFileSession_stopSession (Inl e3) s
         else
           (let sent = WriteFileSession_bytesSent s;
                total = length (wf_data (wfs_command s));
                progress = (if wfs_has_progress s then [Written sent total] else [])
            in if sent \<ge> total
            then obind (WriteFileSession_stopSession (Inr ()) s) (\<lambda>(s, es).
                   Returns (s, progress @ es))
            else Returns (s, progress))))"

definition WriteFileSession_sent ::
    "error_code \<Rightarrow> WriteFileSession \<Rightarrow> (WriteFileSession \<times> unit effect list) outcome" where
  "WriteFileSession_sent err s =
     (if wfs_done s then Returns (s, [])
      else if ec_is_error err
      then WriteFileSession_stopSession (Inl (Error err
        [''writing command for request '' @ to_string (uint (wfs_request_id s))])) s
      else Returns (s, []))"

definition WriteFileSession_timeout ::
    "error_code \<Rightarrow> WriteFileSession \<Rightarrow> (WriteFileSession \<times> unit effect list) outcome" where
  "WriteFileSession_timeout err s =
     (let what = ''waiting for reply to request '' @ to_string (uint (wfs_request_id s))
      in if err = operation_aborted then Returns (s, [])
      else if ec_is_error err then WriteFileSession_stopSession (Inl (Error err [what])) s
      else WriteFileSession_stopSession (Inl (Error errc_timed_out [what])) s)"

text \<open>No event leads to a call of \<open>writeNextBlock\<close>; there is no block whose send could end.\<close>

fun WriteFileSession_step ::
    "WriteFileSession \<Rightarrow> file_event \<Rightarrow> (WriteFileSession \<times> unit effect list) outcome" where
  "WriteFileSession_step s (File_reply header data) = WriteFileSession_onResponse header data s"
| "WriteFileSession_step s (File_sent err) = WriteFileSession_sent err s"
| "WriteFileSession_step s (Ack_sent err) = Returns (s, [])"
| "WriteFileSession_step s (File_timer err) = WriteFileSession_timeout err s"

definition impl_writeFile ::
    "int \<Rightarrow> 'h \<Rightarrow> u8 \<Rightarrow> WriteFile \<Rightarrow> int \<Rightarrow> bool \<Rightarrow> 'h Client
     \<Rightarrow> ((WriteFileSession \<times> 'h Client) \<times> unit effect list) outcome" where
  "impl_writeFile now h rid cmd timeout progress client =
     WriteFileSession_start now h (WriteFileSession_new rid cmd timeout progress) client"

definition writeFile ::
    "int \<Rightarrow> 'h \<Rightarrow> bytes \<Rightarrow> bytes \<Rightarrow> int \<Rightarrow> bool \<Rightarrow> 'h Client
     \<Rightarrow> ((WriteFileSession \<times> 'h Client) \<times> unit effect list) outcome" where
  "writeFile now h name data timeout progress client =
     (let (rid, client) = allocateId client
      in impl_writeFile now h rid \<lparr>wf_name = name, wf_data = data\<rparr> timeout progress client)"

section \<open>The contract\<close>

lemmas read_file_defs [step_simps] =
  ReadFileSession_onResponse_def ReadFileSession_sent_def ReadFileSession_timeout_def
  ReadFileSession_stopSession_def

lemmas write_file_defs [step_simps] =
  WriteFileSession_onResponse_def WriteFileSession_sent_def WriteFileSession_timeout_def
  WriteFileSession_stopSession_def

definition read_file_ok :: "ReadFileSession \<Rightarrow> bool" where
  "read_file_ok s \<longleftrightarrow> rfs_handler s \<noteq> None"

definition read_file_tokens :: "ReadFileSession \<Rightarrow> HandlerToken list" where
  "read_file_tokens s = (if rfs_done s then [] else [the (rfs_handler s)])"

definition write_file_ok :: "WriteFileSession \<Rightarrow> bool" where
  "write_file_ok s \<longleftrightarrow> wfs_handler s \<noteq> None"

definition write_file_tokens :: "WriteFileSession \<Rightarrow> HandlerToken list" where
  "write_file_tokens s = (if wfs_done s then [] else [the (wfs_handler s)])"

definition read_file_law ::
    "ReadFileSession \<Rightarrow> ReadFileSession \<times> 'r effect list \<Rightarrow> bool" where
  "read_file_law s = (\<lambda>(s', es). read_file_ok s'
     \<and> (rfs_done s \<longrightarrow> rfs_done s' \<and> completions es = [])
     \<and> (\<not> rfs_done s \<longrightarrow> length (completions es) = of_bool (rfs_done s'))
     \<and> mset (read_file_tokens s) = mset (removed es) + mset (read_file_tokens s'))"

lemma read_file_step_law:
  assumes "read_file_ok s" "ReadFileSession_step decode s ev = Returns (s', es)"
  shows "read_file_law s (s', es)"
proof (cases ev)
  case (File_reply header data)
  with assms show ?thesis
    by (auto simp: step_simps Let_def read_file_ok_def read_file_tokens_def read_file_law_def
        split: if_splits)
qed (use assms in \<open>auto simp: step_simps Let_def read_file_ok_def read_file_tokens_def
        read_file_law_def split: if_splits\<close>)

interpretation read_file: session "ReadFileSession_step decode" rfs_done read_file_tokens read_file_ok
  for decode :: "bytes \<Rightarrow> 'r result outcome"
proof (unfold_locales, goal_cases)
  case (1 os ps)
  show ?case by simp
next
  case (2 s e s' es)
  then show ?case using read_file_step_law [of s decode e s' es] by (simp add: read_file_law_def)
next
  case (3 s e s' es)
  then show ?case using read_file_step_law [of s decode e s' es] by (simp add: read_file_law_def)
next
  case (4 s e s' es)
  then show ?case using read_file_step_law [of s decode e s' es] by (simp add: read_file_law_def)
next
  case (5 s e s' es)
  then show ?case using read_file_step_law [of s decode e s' es] by (simp add: read_file_law_def)
next
  case (6 s)
  then show ?case by (simp add: read_file_tokens_def)
qed

interpretation read_file:
  total_session ReadFile_step rfs_done read_file_tokens read_file_ok
proof (unfold_locales, goal_cases)
  case (1 s e)
  then show ?case
    by (cases e) (auto simp: step_simps Let_def read_file_ok_def)
qed

definition write_file_law ::
    "WriteFileSession \<Rightarrow> WriteFileSession \<times> unit effect list \<Rightarrow> bool" where
  "write_file_law s = (\<lambda>(s', es). write_file_ok s'
     \<and> (wfs_done s \<longrightarrow> wfs_done s' \<and> completions es = [])
     \<and> (\<not> wfs_done s \<longrightarrow> length (completions es) = of_bool (wfs_done s'))
     \<and> mset (write_file_tokens s) = mset (removed es) + mset (write_file_tokens s'))"

lemma write_file_step_law:
  assumes "write_file_ok s" "WriteFileSession_step s ev = Returns (s', es)"
  shows "write_file_law s (s', es)"
proof (cases ev)
  case (File_reply header data)
  with assms show ?thesis
    by (auto simp: step_simps Let_def write_file_ok_def write_file_tokens_def write_file_law_def
        split: if_splits)
qed (use assms in \<open>auto simp: step_simps Let_def write_file_ok_def write_file_tokens_def
        write_file_law_def split: if_splits\<close>)

lemma write_file_step_returns:
  "write_file_ok s \<Longrightarrow> \<exists>s' es. WriteFileSession_step s ev = Returns (s', es)"
  by (cases ev) (auto simp: step_simps Let_def write_file_ok_def)

interpretation write_file:
  total_session WriteFileSession_step wfs_done write_file_tokens write_file_ok
proof (unfold_locales, goal_cases)
  case (1 os ps)
  show ?case by simp
next
  case (2 s e s' es)
  then show ?case using write_file_step_law [of s e s' es] by (simp add: write_file_law_def)
next
  case (3 s e s' es)
  then show ?case using write_file_step_law [of s e s' es] by (simp add: write_file_law_def)
next
  case (4 s e s' es)
  then show ?case using write_file_step_law [of s e s' es] by (simp add: write_file_law_def)
next
  case (5 s e s' es)
  then show ?case using write_file_step_law [of s e s' es] by (simp add: write_file_law_def)
next
  case (6 s)
  then show ?case by (simp add: write_file_tokens_def)
next
  case (7 s e)
  then show ?case by (rule write_file_step_returns)
qed

section \<open>Facts on the transfers\<close>

lemma expectValue_refl: "expectValue what n n = no_error"
  by (simp add: expectValue_def)

text \<open>The counter of received blocks and the handler never change.\<close>

lemma read_file_step_counter:
  "ReadFileSession_step decode s ev = Returns (s', es) \<Longrightarrow>
   rfs_blocks_received s' = rfs_blocks_received s \<and> rfs_handler s' = rfs_handler s"
  by (cases ev) (auto simp: step_simps Let_def split: if_splits option.splits)

lemma read_file_run_counter:
  "run_machine (ReadFileSession_step decode) s evs = Returns (s', es) \<Longrightarrow>
   rfs_blocks_received s' = rfs_blocks_received s \<and> rfs_handler s' = rfs_handler s"
  by (induction evs arbitrary: s es) (auto dest!: read_file_step_counter)

lemma write_file_step_counter:
  "WriteFileSession_step s ev = Returns (s', es) \<Longrightarrow>
   wfs_blocks_sent s' = wfs_blocks_sent s \<and> wfs_command s' = wfs_command s"
  by (cases ev) (auto simp: step_simps Let_def split: if_splits option.splits)

lemma readFile_session:
  assumes "readFile now h name timeout progress client = Returns ((s, client'), es0)" "client_inv client"
  shows "read_file_ok s" "\<not> rfs_done s" "rfs_blocks_received s = 0" "rfs_read_buffer s = []"
    "rfs_has_progress s = progress" "rfs_request_id s = client_request_id client"
    "valid_token client' (the (rfs_handler s))"
proof -
  obtain token where
    r: "registerHandler now (client_request_id client) h
      (client\<lparr>client_request_id := client_request_id client + 1\<rparr>) = Returns (token, client')"
    and s: "s = (ReadFileSession_new (client_request_id client)
      (encode_ReadFile [] (client_request_id client) \<lparr>rf_name = name\<rparr>) timeout progress)
        \<lparr>rfs_handler := Some token\<rparr>"
    using assms(1)
    by (auto simp: Let_def readFile_def impl_readFile_def allocateId_def ReadFileSession_start_def ReadFileSession_new_def)
  have "client_inv (client\<lparr>client_request_id := client_request_id client + 1\<rparr>)"
    using assms(2) by (simp add: client_inv_def)
  from registry.register_valid [OF this r]
  show "read_file_ok s" "\<not> rfs_done s" "rfs_blocks_received s = 0" "rfs_read_buffer s = []"
    "rfs_has_progress s = progress" "rfs_request_id s = client_request_id client"
    "valid_token client' (the (rfs_handler s))"
    by (simp_all add: s ReadFileSession_new_def read_file_ok_def)
qed

lemma writeFile_session:
  assumes "writeFile now h name data timeout progress client = Returns ((s, client'), es0)"
    and "client_inv client"
  shows "write_file_ok s" "\<not> wfs_done s" "wfs_blocks_sent s = 0" "wf_data (wfs_command s) = data"
    "wfs_has_progress s = progress" "valid_token client' (the (wfs_handler s))"
proof -
  obtain token where
    r: "registerHandler now (client_request_id client) h
      (client\<lparr>client_request_id := client_request_id client + 1\<rparr>) = Returns (token, client')"
    and s: "\<exists>buffer. s = (WriteFileSession_new (client_request_id client)
      \<lparr>wf_name = name, wf_data = data\<rparr> timeout progress)\<lparr>wfs_write_buffer := buffer, wfs_handler := Some token\<rparr>"
    using assms(1)
    by (auto simp: Let_def writeFile_def impl_writeFile_def allocateId_def WriteFileSession_start_def WriteFileSession_new_def)
  have "client_inv (client\<lparr>client_request_id := client_request_id client + 1\<rparr>)"
    using assms(2) by (simp add: client_inv_def)
  from registry.register_valid [OF this r] s
  show "write_file_ok s" "\<not> wfs_done s" "wfs_blocks_sent s = 0" "wf_data (wfs_command s) = data"
    "wfs_has_progress s = progress" "valid_token client' (the (wfs_handler s))"
    by (auto simp: WriteFileSession_new_def write_file_ok_def)
qed

text \<open>The blocks \<open>writeNextBlock\<close> would send, when it is called \<open>n\<close> times.\<close>

fun write_blocks :: "nat \<Rightarrow> WriteFileSession \<Rightarrow> (WriteFileSession \<times> unit effect list) outcome" where
  "write_blocks 0 s = Returns (s, [])"
| "write_blocks (Suc n) s =
     obind (WriteFileSession_writeNextBlock s) (\<lambda>(s, es).
     obind (write_blocks n s) (\<lambda>(s, fs). Returns (s, es @ fs)))"

fun sends :: "'r effect list \<Rightarrow> bytes list" where
  "sends [] = []"
| "sends (Send b # es) = b # sends es"
| "sends (e # es) = sends es"

lemma sends_append [simp]: "sends (a @ b) = sends a @ sends b"
  by (induction a rule: sends.induct) auto

text \<open>The datagram of block number \<open>k\<close>, counted from 1.\<close>

definition block_data :: "bytes \<Rightarrow> nat \<Rightarrow> bytes" where
  "block_data data k = take max_payload_size (drop ((k - 1) * max_payload_size) data)"

definition block_datagram :: "u8 \<Rightarrow> bytes \<Rightarrow> nat \<Rightarrow> bytes" where
  "block_datagram rid data k =
     header_image (makeFileRequestHeader (of_nat (length (block_data data k)))
       (file_command_code write_file) rid (of_nat k) False) @ block_data data k"

lemma writeNextBlock_eq:
  assumes "wfs_blocks_sent s * max_payload_size \<le> length (wf_data (wfs_command s))"
  shows "WriteFileSession_writeNextBlock s = Returns (s\<lparr>wfs_blocks_sent := Suc (wfs_blocks_sent s)\<rparr>,
    [Send (block_datagram (wfs_request_id s) (wf_data (wfs_command s)) (Suc (wfs_blocks_sent s)))])"
proof -
  let ?data = "wf_data (wfs_command s)" and ?sent = "wfs_blocks_sent s * max_payload_size"
  have "take (min (length ?data - ?sent) max_payload_size) (drop ?sent ?data)
      = block_data ?data (Suc (wfs_blocks_sent s))"
    by (simp add: block_data_def min.commute [of "length ?data - ?sent"])
      (metis length_drop min.cobounded1 nle_le take_all_iff take_take)
  moreover from this have "length (block_data ?data (Suc (wfs_blocks_sent s)))
      = min (length ?data - ?sent) max_payload_size"
    by (simp add: block_data_def)
  ultimately show ?thesis
    using assms
    by (simp add: WriteFileSession_writeNextBlock_def Let_def encode_RequestHeader_eq
        block_datagram_def not_less)
qed

lemma write_blocks_sends:
  "(wfs_blocks_sent s + n) * max_payload_size \<le> length (wf_data (wfs_command s)) + (max_payload_size - 1)
   \<Longrightarrow> \<exists>s' es. write_blocks n s = Returns (s', es)
     \<and> sends es = map (block_datagram (wfs_request_id s) (wf_data (wfs_command s)))
         [Suc (wfs_blocks_sent s)..<Suc (wfs_blocks_sent s + n)]"
proof (induction n arbitrary: s)
  case 0
  then show ?case by simp
next
  case (Suc n)
  let ?s1 = "s\<lparr>wfs_blocks_sent := Suc (wfs_blocks_sent s)\<rparr>"
  have "wfs_blocks_sent s * max_payload_size \<le> length (wf_data (wfs_command s))"
    using Suc.prems by (simp add: algebra_simps max_payload_size_def)
  note w = writeNextBlock_eq [OF this]
  have "\<exists>s' es. write_blocks n ?s1 = Returns (s', es)
     \<and> sends es = map (block_datagram (wfs_request_id s) (wf_data (wfs_command s)))
         [Suc (Suc (wfs_blocks_sent s))..<Suc (Suc (wfs_blocks_sent s) + n)]"
    using Suc.IH [of ?s1] Suc.prems by (simp add: algebra_simps)
  then show ?case by (auto simp: w upt_conv_Cons simp del: upt_Suc)
qed

lemma blocks_cover:
  "concat (map (block_data data) [1..<Suc n]) = take (n * max_payload_size) data"
proof (induction n)
  case 0
  then show ?case by simp
next
  case (Suc n)
  have "concat (map (block_data data) [1..<Suc (Suc n)]) =
      take (n * max_payload_size) data @ take max_payload_size (drop (n * max_payload_size) data)"
  proof -
    have "[1..<Suc (Suc n)] = [1..<Suc n] @ [Suc n]" by simp
    then show ?thesis
      by (simp only: map_append concat_append Suc) (simp add: block_data_def)
  qed
  also have "\<dots> = take (Suc n * max_payload_size) data"
    by (simp add: take_add [symmetric] add.commute)
  finally show ?case .
qed

lemma no_last_bit: "k < 2 ^ 31 \<Longrightarrow> (of_nat k :: u32) AND 0x80000000 = 0"
proof (rule bit_word_eqI)
  fix n assume k: "k < 2 ^ 31"
  have e: "(0x80000000 :: u32) = push_bit 31 1" by simp
  have "bit (0x80000000 :: u32) n \<Longrightarrow> n = 31"
    by (simp only: e bit_push_bit_iff bit_1_iff) simp
  moreover have "\<not> bit k 31" using k by (simp add: bit_iff_odd)
  ultimately show "bit ((of_nat k :: u32) AND 0x80000000) n = bit (0 :: u32) n"
    by (auto simp: bit_simps)
qed

section \<open>Properties\<close>

lemma read_file_last_block:
  assumes "read_file_ok s" "\<not> rfs_done s" "rfs_blocks_received s = 0" "rfs_read_buffer s = []"
    and "status hdr = 0" and "block_number hdr = 0x80000001"
  shows "\<exists>s'. ReadFile_step s (File_reply hdr data) = Returns (s',
      [Send (header_image (makeFileRequestHeader 0 (file_command_code read_file)
         (rfs_request_id s) 1 True))]
      @ (if rfs_has_progress s then [Received (length data)] else [])
      @ [Cancel_timer, Remove (the (rfs_handler s)), Complete (Inr data)]) \<and> rfs_done s'"
proof -
  have "block_number hdr AND 0x7fffffff = 1" "block_number hdr AND 0x80000000 \<noteq> 0"
    using assms(6) by simp_all
  with assms show ?thesis
    by (auto simp: step_simps Let_def expectValue_refl read_file_ok_def decode_ReadFile_def
        ReadFileSession_writeAck_def encode_RequestHeader_eq)
qed


definition last_block_response :: ResponseHeader where
  "last_block_response = example_response\<lparr>division := Division_file, block_number := 0x80000001\<rparr>"


text \<open>
  C30: A file of more than one block can not be read: at any point of a transfer, a successful
  response whose block number is not 1 ends the session with a malformed response error,
  because the count of the received blocks stays 0. So the second block of a file is refused.
\<close>

theorem read_file_refuses_second_block:
  assumes "readFile now h name timeout progress client = Returns ((s, client'), es0)" and "client_inv client"
    and "run_machine ReadFile_step s evs = Returns (s', es)" and "\<not> rfs_done s'"
    and "status hdr = 0" and "block_number hdr AND 0x7fffffff \<noteq> 1"
  shows "\<exists>s'' e. ReadFile_step s' (File_reply hdr data)
      = Returns (s'', [Cancel_timer, Remove (the (rfs_handler s)), Complete (Inl e)])
    \<and> code e = make_error_code malformed_response"
proof -
  note s = readFile_session [OF assms(1,2)]
  note c = read_file_run_counter [OF assms(3)]
  have "uint (block_number hdr AND 0x7fffffff) \<noteq> uint (1 :: u32)"
    using assms(6) by (simp only: uint_word_eq) simp
  then have "uint (block_number hdr AND 0x7fffffff) \<noteq> 1" by simp
  with s c assms(4,5) show ?thesis
    by (auto simp: step_simps Let_def read_file_ok_def code_expect)
qed

lemma read_file_refuses_second_block_witness:
  "\<exists>s client' es0 s' es s'' e.
    readFile 0 ''h'' [74] 3000 False (new_Client True) = Returns ((s, client'), es0)
    \<and> run_machine ReadFile_step s [File_reply (last_block_response\<lparr>block_number := 1\<rparr>) [7, 8]]
      = Returns (s', es) \<and> \<not> rfs_done s'
    \<and> ReadFile_step s' (File_reply (last_block_response\<lparr>block_number := 0x80000002\<rparr>) [9])
      = Returns (s'', [Cancel_timer, Remove (the (rfs_handler s)), Complete (Inl e)])
    \<and> code e = make_error_code malformed_response"
proof -
  obtain s client' es0
    where s: "readFile 0 ''h'' [74] 3000 False (new_Client True) = Returns ((s, client'), es0)"
    by (simp add: readFile_def impl_readFile_def ReadFileSession_start_def allocateId_def registerHandler_def
        new_Client_def Let_def)
  have inv: "client_inv (new_Client True)" by (simp add: client_inv_def new_Client_def)
  note f = readFile_session [OF s inv]
  obtain s' es where r: "run_machine ReadFile_step s
      [File_reply (last_block_response\<lparr>block_number := 1\<rparr>) [7, 8]] = Returns (s', es)"
    and nd: "\<not> rfs_done s'"
    using f by (simp add: step_simps Let_def expectValue_refl last_block_response_def
        example_response_def)
  from read_file_refuses_second_block [OF s inv r nd,
      of "last_block_response\<lparr>block_number := 0x80000002\<rparr>" "[9]"] s r nd
  show ?thesis by (fastforce simp: last_block_response_def example_response_def)
qed

text \<open>
  A block that the controller repeats is taken again: after any number of responses with
  block number 1 that are not marked as the last, and a last one, the file that is handed over
  is the data of all of them in the order they came in.
\<close>

theorem read_file_repeats_blocks:
  assumes "readFile now h name timeout False client = Returns ((s, client'), es0)" and "client_inv client"
    and "status hdr = 0" "block_number hdr = 1" and "status hdr' = 0" "block_number hdr' = 0x80000001"
  shows "\<exists>s' es. run_machine ReadFile_step s (map (File_reply hdr) blocks @ [File_reply hdr' final])
      = Returns (s', es) \<and> completions es = [Inr (concat blocks @ final)]"
proof -
  note s = readFile_session [OF assms(1,2)]
  have "\<exists>s' es. run_machine ReadFile_step t (map (File_reply hdr) blocks @ [File_reply hdr' final])
      = Returns (s', es) \<and> completions es = [Inr (rfs_read_buffer t @ concat blocks @ final)]"
    if "read_file_ok t" "\<not> rfs_done t" "rfs_blocks_received t = 0" "\<not> rfs_has_progress t" for t
    using that
  proof (induction blocks arbitrary: t)
    case Nil
    with assms(5,6) show ?case
      by (auto simp: step_simps Let_def expectValue_refl read_file_ok_def decode_ReadFile_def)
  next
    case (Cons b blocks)
    let ?t = "t\<lparr>rfs_read_buffer := rfs_read_buffer t @ b\<rparr>"
    have "ReadFile_step t (File_reply hdr b) = Returns (?t, [Send (ReadFileSession_writeAck 1 t)])"
      using Cons.prems assms(3,4) by (simp add: step_simps Let_def expectValue_refl)
    moreover from Cons.IH [of ?t] Cons.prems obtain s' es where
      "run_machine ReadFile_step ?t (map (File_reply hdr) blocks @ [File_reply hdr' final]) = Returns (s', es)"
      "completions es = [Inr (rfs_read_buffer ?t @ concat blocks @ final)]"
      by (auto simp: read_file_ok_def)
    ultimately show ?case by simp
  qed
  from this [of s] s show ?thesis by simp
qed

lemma read_file_repeats_blocks_witness:
  "\<exists>s client' es0 s' es.
    readFile 0 ''h'' [74] 3000 False (new_Client True) = Returns ((s, client'), es0)
    \<and> run_machine ReadFile_step s
        [File_reply (last_block_response\<lparr>block_number := 1\<rparr>) [1, 2],
         File_reply (last_block_response\<lparr>block_number := 1\<rparr>) [1, 2],
         File_reply last_block_response [3]] = Returns (s', es)
    \<and> completions es = [Inr [1, 2, 1, 2, 3]]"
proof -
  obtain s client' es0
    where s: "readFile 0 ''h'' [74] 3000 False (new_Client True) = Returns ((s, client'), es0)"
    by (simp add: readFile_def impl_readFile_def ReadFileSession_start_def allocateId_def registerHandler_def
        new_Client_def Let_def)
  have inv: "client_inv (new_Client True)" by (simp add: client_inv_def new_Client_def)
  from read_file_repeats_blocks [OF s inv, of "last_block_response\<lparr>block_number := 1\<rparr>"
      last_block_response "[[1, 2], [1, 2]]" "[3]"] s
  show ?thesis
    by (fastforce simp: last_block_response_def example_response_def)
qed

lemma write_file_run_silent:
  "run_machine WriteFileSession_step s evs = Returns (s', es) \<Longrightarrow>
   wfs_blocks_sent s = 0 \<Longrightarrow> wf_data (wfs_command s) \<noteq> [] \<Longrightarrow>
   Inr () \<notin> set (completions es) \<and> sends es = []"
proof (induction evs arbitrary: s es)
  case Nil
  then show ?case by simp
next
  case (Cons ev evs)
  then obtain s1 es1 es2 where st: "WriteFileSession_step s ev = Returns (s1, es1)"
    and r: "run_machine WriteFileSession_step s1 evs = Returns (s', es2)" and es: "es = es1 @ es2"
    by auto
  have "Inr () \<notin> set (completions es1) \<and> sends es1 = []"
    using st Cons.prems(2,3)
    by (cases ev) (auto simp: step_simps Let_def WriteFileSession_bytesSent_def
        split: if_splits option.splits)
  with Cons.IH [OF r] write_file_step_counter [OF st] Cons.prems(2,3) show ?case
    by (simp add: es)
qed

text \<open>
  C31: A file with contents is never written: once its name has been sent, no sequence of
  responses, send errors and timeouts makes the session succeed or send any of the data.
\<close>

theorem write_file_never_succeeds:
  assumes "writeFile now h name data timeout progress client = Returns ((s, client'), es0)"
    and "client_inv client" and "data \<noteq> []"
    and "run_machine WriteFileSession_step s evs = Returns (s', es)"
  shows "Inr () \<notin> set (completions es) \<and> sends es = []"
  using write_file_run_silent [OF assms(4)] writeFile_session [OF assms(1,2)] assms(3) by simp

lemma write_file_never_succeeds_witness:
  "\<exists>s client' es0 s' es.
    writeFile 0 ''h'' [74] [1, 2] 3000 False (new_Client True) = Returns ((s, client'), es0)
    \<and> run_machine WriteFileSession_step s
        [File_reply (last_block_response\<lparr>block_number := 0\<rparr>) [], File_timer ec_success] = Returns (s', es)
    \<and> Inr () \<notin> set (completions es) \<and> sends es = []"
proof -
  obtain s client' es0
    where s: "writeFile 0 ''h'' [74] [1, 2] 3000 False (new_Client True) = Returns ((s, client'), es0)"
    by (simp add: writeFile_def impl_writeFile_def WriteFileSession_start_def allocateId_def registerHandler_def
        new_Client_def Let_def)
  have inv: "client_inv (new_Client True)" by (simp add: client_inv_def new_Client_def)
  obtain s' es where r: "run_machine WriteFileSession_step s
      [File_reply (last_block_response\<lparr>block_number := 0\<rparr>) [], File_timer ec_success] = Returns (s', es)"
    using write_file.run_returns [OF writeFile_session(1) [OF s inv]] by blast
  from write_file_never_succeeds [OF s inv _ r] s r show ?thesis by auto
qed

text \<open>
  C32: The blocks \<open>writeNextBlock\<close> makes are those of the file: called as often
  as it takes to cover the data, it sends datagrams with the block numbers 1, 2, 3 and so on,
  each with at most 479 bytes and the right payload size, whose data put together is the file.
  The last of them is not marked: no block number has the bit that says so.
\<close>

theorem write_blocks_partition_file:
  assumes "wfs_blocks_sent s = 0" and "n * max_payload_size < length (wf_data (wfs_command s)) + max_payload_size"
    and "length (wf_data (wfs_command s)) \<le> n * max_payload_size" and "n < 2 ^ 31"
  shows "\<exists>s' es. write_blocks n s = Returns (s', es)
    \<and> sends es = map (block_datagram (wfs_request_id s) (wf_data (wfs_command s))) [1..<Suc n]
    \<and> concat (map (block_data (wf_data (wfs_command s))) [1..<Suc n]) = wf_data (wfs_command s)
    \<and> (\<forall>k \<in> {1..n}. length (block_data (wf_data (wfs_command s)) k) \<le> max_payload_size
        \<and> (of_nat k :: u32) AND 0x80000000 = 0)"
proof -
  have "(wfs_blocks_sent s + n) * max_payload_size
      \<le> length (wf_data (wfs_command s)) + (max_payload_size - 1)"
    using assms(1,2) by (simp add: max_payload_size_def)
  from write_blocks_sends [OF this] obtain s' es where
    "write_blocks n s = Returns (s', es)"
    "sends es = map (block_datagram (wfs_request_id s) (wf_data (wfs_command s))) [1..<Suc n]"
    using assms(1) by auto
  moreover have "concat (map (block_data (wf_data (wfs_command s))) [1..<Suc n])
      = wf_data (wfs_command s)"
    using assms(3) by (simp only: blocks_cover) simp
  moreover have "\<forall>k \<in> {1..n}. length (block_data (wf_data (wfs_command s)) k) \<le> max_payload_size
        \<and> (of_nat k :: u32) AND 0x80000000 = 0"
    using assms(4) by (auto simp: block_data_def no_last_bit)
  ultimately show ?thesis by blast
qed

lemma write_blocks_partition_file_witness:
  "\<exists>s' es. write_blocks 2 (WriteFileSession_new 3 \<lparr>wf_name = [74], wf_data = replicate 500 1\<rparr> 3000 False)
      = Returns (s', es)
    \<and> sends es = map (block_datagram 3 (replicate 500 1)) [1..<3]"
  using write_blocks_partition_file
    [of "WriteFileSession_new 3 \<lparr>wf_name = [74], wf_data = replicate 500 1\<rparr> 3000 False" 2]
  by (auto simp: WriteFileSession_new_def max_payload_size_def)

end
