(* ===== verification/Connect.thy ===== *)
theory Connect
  imports Session_Contract
begin

text \<open>
  Opening a connection: \<open>ConnectionAttempt\<close> and \<open>asyncResolveConnect\<close> of \<open>src/connect.hpp\<close>,
  and the \<open>connect\<close> and \<open>onConnect\<close> of the client that use them.  The attempt reports its
  result exactly once, and a connection that comes up after the attempt was given up is
  closed again.
\<close>

record ConnectionAttempt =
  ca_finished :: bool

text \<open>A resolver query: a host and a service, which is a name or a port number as text.\<close>

record query =
  query_host :: string
  query_service :: string

text \<open>The ends of the three asynchronous operations of an attempt.\<close>

datatype connect_event =
    Resolved error_code
  | Connected error_code
  | Connect_timeout error_code

datatype connect_effect =
    Async_resolve query
  | Start_connect_timer int
  | Async_connect
  | Cancel_connect_timer
  | Cancel_resolver
  | Cancel_socket
  | Close_socket
  | Connect_result error_code

text \<open>The timeout is in milliseconds; 0 stands for none.\<close>

definition ConnectionAttempt_start :: "query \<Rightarrow> int \<Rightarrow> ConnectionAttempt \<times> connect_effect list" where
  "ConnectionAttempt_start query timeout =
     (\<lparr>ca_finished = False\<rparr>,
      Async_resolve query # (if timeout \<noteq> 0 then [Start_connect_timer timeout] else []))"

definition ConnectionAttempt_onResolve ::
    "error_code \<Rightarrow> ConnectionAttempt \<Rightarrow> ConnectionAttempt \<times> connect_effect list" where
  "ConnectionAttempt_onResolve err s =
     (if ec_is_error err \<and> ca_finished s then (s, [])
      else
        (let (s, es) = (if ec_is_error err
               then (s\<lparr>ca_finished := True\<rparr>, [Connect_result (to_errc err)]) else (s, []))
         in if ca_finished s then (s, es) else (s, es @ [Async_connect])))"

definition ConnectionAttempt_onConnect ::
    "error_code \<Rightarrow> ConnectionAttempt \<Rightarrow> ConnectionAttempt \<times> connect_effect list" where
  "ConnectionAttempt_onConnect err s =
     (if ca_finished s then (s, [Close_socket])
      else (s\<lparr>ca_finished := True\<rparr>, [Cancel_connect_timer, Connect_result (to_errc err)]))"

definition ConnectionAttempt_onConnectTimeout ::
    "error_code \<Rightarrow> ConnectionAttempt \<Rightarrow> ConnectionAttempt \<times> connect_effect list" where
  "ConnectionAttempt_onConnectTimeout err s =
     (if ca_finished s then (s, [])
      else (s\<lparr>ca_finished := True\<rparr>, [Cancel_resolver, Cancel_socket,
        Connect_result (if ec_is_error err then to_errc err else errc_timed_out)]))"

fun ConnectionAttempt_step ::
    "ConnectionAttempt \<Rightarrow> connect_event \<Rightarrow> (ConnectionAttempt \<times> connect_effect list) outcome" where
  "ConnectionAttempt_step s (Resolved err) = Returns (ConnectionAttempt_onResolve err s)"
| "ConnectionAttempt_step s (Connected err) = Returns (ConnectionAttempt_onConnect err s)"
| "ConnectionAttempt_step s (Connect_timeout err) = Returns (ConnectionAttempt_onConnectTimeout err s)"

text \<open>The calls of the callback.\<close>

fun connect_results :: "connect_effect list \<Rightarrow> error_code list" where
  "connect_results [] = []"
| "connect_results (Connect_result err # es) = err # connect_results es"
| "connect_results (e # es) = connect_results es"

text \<open>\<open>Client::connect\<close> passes \<open>Client::onConnect\<close> as the callback.\<close>

definition client_connect_actions :: "connect_effect list \<Rightarrow> 'h action list" where
  "client_connect_actions es = concat (map (\<lambda>err. onConnect (Error err [])) (connect_results es))"

definition asyncResolveConnect :: "query \<Rightarrow> int \<Rightarrow> ConnectionAttempt \<times> connect_effect list" where
  "asyncResolveConnect query timeout = ConnectionAttempt_start query timeout"

definition Client_connect :: "string \<Rightarrow> string \<Rightarrow> int \<Rightarrow> ConnectionAttempt \<times> connect_effect list" where
  "Client_connect host port timeout =
     asyncResolveConnect \<lparr>query_host = host, query_service = port\<rparr> timeout"

text \<open>The overload for a port number.\<close>

definition Client_connect_port :: "string \<Rightarrow> u16 \<Rightarrow> int \<Rightarrow> ConnectionAttempt \<times> connect_effect list" where
  "Client_connect_port host port timeout = Client_connect host (to_string (uint port)) timeout"

lemmas connect_start_defs = ConnectionAttempt_start_def asyncResolveConnect_def Client_connect_def

lemmas connect_defs [step_simps] =
  ConnectionAttempt_onResolve_def ConnectionAttempt_onConnect_def
  ConnectionAttempt_onConnectTimeout_def

lemma connect_results_append [simp]:
  "connect_results (es @ fs) = connect_results es @ connect_results fs"
  by (induction es rule: connect_results.induct) auto

interpretation connection:
  once_machine ConnectionAttempt_step ca_finished "\<lambda>_. True" connect_results
proof (unfold_locales, goal_cases)
  case (1 es fs)
  show ?case by simp
next
  case (2 s e s' es)
  show ?case by simp
next
  case (3 s e s' es)
  then show ?case by (cases e) (auto simp: step_simps split: if_splits)
next
  case (4 s e s' es)
  then show ?case by (cases e) (auto simp: step_simps split: if_splits)
qed

text \<open>The events that end an attempt.\<close>

fun ends_attempt :: "connect_event \<Rightarrow> bool" where
  "ends_attempt (Resolved err) \<longleftrightarrow> ec_is_error err"
| "ends_attempt (Connected err) \<longleftrightarrow> True"
| "ends_attempt (Connect_timeout err) \<longleftrightarrow> True"

lemma connect_step_returns: "\<exists>s' es. ConnectionAttempt_step s ev = Returns (s', es)
    \<and> ca_finished s' = (ca_finished s \<or> ends_attempt ev)"
  by (cases ev) (auto simp: step_simps)

lemma connect_run_returns:
  "\<exists>s' es. run_machine ConnectionAttempt_step s evs = Returns (s', es)
    \<and> ca_finished s' = (ca_finished s \<or> (\<exists>ev \<in> set evs. ends_attempt ev))"
proof (induction evs arbitrary: s)
  case Nil
  then show ?case by simp
next
  case (Cons ev evs)
  from connect_step_returns [of s ev] obtain s1 es1 where
    "ConnectionAttempt_step s ev = Returns (s1, es1)"
    "ca_finished s1 = (ca_finished s \<or> ends_attempt ev)" by blast
  with Cons.IH [of s1] show ?case by auto
qed

text \<open>The overload for a port number asks the resolver for this number.\<close>

lemma connect_port_query:
  "hd (snd (Client_connect_port host port timeout))
    = Async_resolve \<lparr>query_host = host, query_service = to_string (uint port)\<rparr>
    \<and> of_digits (to_string (uint port)) = unat port"
  by (simp add: Client_connect_port_def connect_start_defs to_string_def of_digits_nat_to_string
      nat_uint_eq)

section \<open>Properties\<close>



text \<open>
  A connection that is made after the attempt was given up does not stay open: whenever
  an attempt has reported its result, the end of a connect closes the socket and reports
  nothing.
\<close>

theorem late_connection_is_closed:
  assumes "run_machine ConnectionAttempt_step (fst (Client_connect host port timeout)) evs = Returns (s, es)"
    and "connect_results es \<noteq> []"
  shows "ConnectionAttempt_step s (Connected err) = Returns (s, [Close_socket])"
proof -
  have u: "\<not> ca_finished (fst (Client_connect host port timeout))"
    by (simp add: connect_start_defs)
  have "ca_finished s"
    using connection.run_once [OF _ u assms(1)] assms(2) by (cases "ca_finished s") auto
  then show ?thesis by (simp add: step_simps)
qed

lemma late_connection_is_closed_witness:
  "\<exists>s es. run_machine ConnectionAttempt_step (fst (Client_connect ''robot'' ''10040'' 100))
      [Resolved ec_success, Connect_timeout ec_success] = Returns (s, es)
    \<and> ConnectionAttempt_step s (Connected ec_success) = Returns (s, [Close_socket])"
proof -
  obtain s es where r: "run_machine ConnectionAttempt_step (fst (Client_connect ''robot'' ''10040'' 100))
      [Resolved ec_success, Connect_timeout ec_success] = Returns (s, es)"
    and "connect_results es \<noteq> []"
    by (simp add: step_simps connect_start_defs ec_success_def ec_is_error_def)
  from late_connection_is_closed [OF this] r show ?thesis by blast
qed

end
