(* ===== verification/Rpc_Server.thy ===== *)
theory Rpc_Server
  imports Command_Session
begin

text \<open>
  The RPC server: \<open>include/yaskawa_ethernet/rpc_server/rpc_server.hpp\<close> and
  \<open>src/rpc_server/rpc_server.cpp\<close>.  The server polls one status variable per service, executes
  the services that are requested, and writes the status back when they are done.  What a
  service does is the user's code: it is started by the effect \<open>Execute\<close>, and the event
  \<open>Resolved_service\<close> is its call of \<open>resolve\<close>.  The commands the server sends are effects, their
  completions are events.
\<close>

section \<open>State\<close>

record RpcService =
  busy :: bool
  service_name :: string

definition status_idle :: u8 where "status_idle = 0"
definition status_requested :: u8 where "status_requested = 1"
definition status_error_value :: u8 where "status_error_value = 2"

record RpcServer =
  base_register :: u8
  read_commands_delay :: int
  services :: "RpcService list"
  server_started :: bool

text \<open>
  \<open>Read_status_vars\<close> and \<open>Write_status_var\<close> are the commands sent with \<open>Client::sendCommand\<close>;
  \<open>Wait\<close> is the start of the timer.  The completion handler of the read has captured the
  number of services at the time it was sent.
\<close>

datatype rpc_effect =
    Read_status_vars ReadVars nat
  | Write_status_var "u8 WriteVar" nat
  | Execute nat
  | Wait
  | On_error error

datatype rpc_event =
    Start
  | Stop
  | Timer_done error_code
  | Read_done nat "u8 list result"
  | Resolved_service nat error
  | Write_done nat "unit result"

definition new_RpcServer :: "u8 \<Rightarrow> int \<Rightarrow> RpcServer" where
  "new_RpcServer base delay =
     \<lparr>base_register = base, read_commands_delay = delay, services = [], server_started = False\<rparr>"

definition addService :: "string \<Rightarrow> RpcServer \<Rightarrow> RpcServer" where
  "addService name s = s\<lparr>services := services s @ [\<lparr>busy = False, service_name = name\<rparr>]\<rparr>"

definition disabledService :: "error list" where
  "disabledService = [Error errc_invalid_argument [''service is disabled'']]"

section \<open>Operations\<close>

definition readCommands :: "RpcServer \<Rightarrow> rpc_effect list" where
  "readCommands s =
     (let n = length (services s);
          count = (of_nat ((n + 1) div 2 * 2) :: u8)
      in [Read_status_vars \<lparr>rvs_index = base_register s, rvs_count = count\<rparr> n])"

definition startReadCommandsTimer :: "RpcServer \<Rightarrow> rpc_effect list" where
  "startReadCommandsTimer s = (if read_commands_delay s = 0 then readCommands s else [Wait])"

definition RpcServer_start :: "RpcServer \<Rightarrow> RpcServer \<times> rpc_effect list \<times> bool" where
  "RpcServer_start s =
     (if server_started s then (s, [], False)
      else (s\<lparr>server_started := True\<rparr>, readCommands s, True))"

definition RpcServer_stop :: "RpcServer \<Rightarrow> RpcServer \<times> bool" where
  "RpcServer_stop s = (s\<lparr>server_started := False\<rparr>, server_started s)"

definition RpcServer_timer :: "error_code \<Rightarrow> RpcServer \<Rightarrow> rpc_effect list" where
  "RpcServer_timer err s =
     (if err = operation_aborted then []
      else if ec_is_error err
      then On_error (Error err [''waiting for read_commands_timer_'']) # startReadCommandsTimer s
      else readCommands s)"

text \<open>\<open>execute\<close>; the index is not checked, as in the code.\<close>

definition RpcServer_execute :: "nat \<Rightarrow> RpcServer \<Rightarrow> (RpcServer \<times> rpc_effect list) outcome" where
  "RpcServer_execute i s =
     (if i \<ge> length (services s) then Undefined
      else if busy (services s ! i) then Returns (s, [])
      else Returns (s\<lparr>services := (services s)[i := (services s ! i)\<lparr>busy := True\<rparr>]\<rparr>, [Execute i]))"

text \<open>The loop over the status registers; reading past the received values is undefined.\<close>

fun check_statuses ::
    "u8 list \<Rightarrow> nat list \<Rightarrow> RpcServer \<Rightarrow> (RpcServer \<times> rpc_effect list) outcome" where
  "check_statuses statuses [] s = Returns (s, [])"
| "check_statuses statuses (i # is) s =
     (if i \<ge> length statuses then Undefined
      else
        obind (if statuses ! i = status_requested then RpcServer_execute i s else Returns (s, []))
          (\<lambda>(s, es). obind (check_statuses statuses is s) (\<lambda>(s, fs). Returns (s, es @ fs))))"

definition RpcServer_read_done ::
    "nat \<Rightarrow> u8 list result \<Rightarrow> RpcServer \<Rightarrow> (RpcServer \<times> rpc_effect list) outcome" where
  "RpcServer_read_done n statuses s =
     (case statuses of
        Inl e \<Rightarrow> Returns (s, On_error (push_description e ''reading commands status variables'')
          # (if server_started s then startReadCommandsTimer s else []))
      | Inr statuses \<Rightarrow>
          obind (check_statuses statuses [0..<n] s) (\<lambda>(s, es).
            Returns (s, es @ (if server_started s then startReadCommandsTimer s else []))))"

text \<open>
  The functor a service calls when it is finished.  The code moves the error into the report before it tests it
  again.  The model assumes that a moved error still has its code, a \<open>std::error_code\<close>, whose move is a copy.
\<close>

definition RpcServer_resolve ::
    "nat \<Rightarrow> error \<Rightarrow> RpcServer \<Rightarrow> rpc_effect list" where
  "RpcServer_resolve i err s =
     (if is_error err
      then [On_error (push_description err (''executing service '' @ service_name (services s ! i)))]
      else [])
     @ [Write_status_var
          \<lparr>wv_index = base_register s + of_nat i,
           wv_value = (if is_error err then status_error_value else status_idle)\<rparr> i]"

definition RpcServer_write_done ::
    "nat \<Rightarrow> unit result \<Rightarrow> RpcServer \<Rightarrow> RpcServer \<times> rpc_effect list" where
  "RpcServer_write_done i result s =
     (s\<lparr>services := (services s)[i := (services s ! i)\<lparr>busy := False\<rparr>]\<rparr>,
      case result of
        Inl e \<Rightarrow> [On_error (push_description e
          (''writing status for service '' @ service_name (services s ! i)))]
      | Inr _ \<Rightarrow> [])"

fun RpcServer_step :: "RpcServer \<Rightarrow> rpc_event \<Rightarrow> (RpcServer \<times> rpc_effect list) outcome" where
  "RpcServer_step s Start = (let (s, es, _) = RpcServer_start s in Returns (s, es))"
| "RpcServer_step s Stop = Returns (fst (RpcServer_stop s), [])"
| "RpcServer_step s (Timer_done err) = Returns (s, RpcServer_timer err s)"
| "RpcServer_step s (Read_done n statuses) = RpcServer_read_done n statuses s"
| "RpcServer_step s (Resolved_service i err) = Returns (s, RpcServer_resolve i err s)"
| "RpcServer_step s (Write_done i result) = Returns (RpcServer_write_done i result s)"

lemmas rpc_defs [step_simps] =
  RpcServer_start_def RpcServer_stop_def RpcServer_timer_def RpcServer_execute_def
  RpcServer_read_done_def RpcServer_resolve_def RpcServer_write_done_def
  startReadCommandsTimer_def readCommands_def

section \<open>Facts\<close>

text \<open>How many calls of service \<open>i\<close> were started, and how many were finished.\<close>

fun executions :: "nat \<Rightarrow> rpc_effect list \<Rightarrow> nat" where
  "executions i [] = 0"
| "executions i (Execute j # es) = of_bool (i = j) + executions i es"
| "executions i (e # es) = executions i es"

lemma executions_append [simp]: "executions i (es @ fs) = executions i es + executions i fs"
  by (induction i es rule: executions.induct) auto

definition finished :: "nat \<Rightarrow> rpc_event list \<Rightarrow> nat" where
  "finished i evs = length (filter (\<lambda>ev. \<exists>r. ev = Write_done i r) evs)"

definition service_busy :: "RpcServer \<Rightarrow> nat \<Rightarrow> bool" where
  "service_busy s i \<longleftrightarrow> i < length (services s) \<and> busy (services s ! i)"

lemma executions_readCommands [simp]:
  "executions i (readCommands s) = 0" "executions i (startReadCommandsTimer s) = 0"
  by (simp_all add: readCommands_def startReadCommandsTimer_def Let_def)

text \<open>A check of the statuses sets the busy flags of the services it executes.\<close>

lemma check_statuses_busy:
  "check_statuses statuses is s = Returns (s', es) \<Longrightarrow>
   length (services s') = length (services s) \<and> server_started s' = server_started s
   \<and> base_register s' = base_register s \<and> read_commands_delay s' = read_commands_delay s
   \<and> executions i es + of_bool (service_busy s i) = of_bool (service_busy s' i)"
proof (induction "is" arbitrary: s es)
  case Nil
  then show ?case by simp
next
  case (Cons j "is")
  then obtain s1 es1 es2 where
    st: "(if statuses ! j = status_requested then RpcServer_execute j s else Returns (s, [])) = Returns (s1, es1)"
    and r: "check_statuses statuses is s1 = Returns (s', es2)" and es: "es = es1 @ es2"
    by (auto split: if_splits)
  have "length (services s1) = length (services s) \<and> server_started s1 = server_started s
    \<and> base_register s1 = base_register s \<and> read_commands_delay s1 = read_commands_delay s
    \<and> executions i es1 + of_bool (service_busy s i) = of_bool (service_busy s1 i)"
    using st by (auto simp: RpcServer_execute_def service_busy_def nth_list_update split: if_splits)
  with Cons.IH [OF r] show ?case by (simp add: es)
qed

lemma step_busy:
  assumes "RpcServer_step s ev = Returns (s', es)"
  shows "executions i es + of_bool (service_busy s i)
    \<le> of_bool (service_busy s' i) + of_bool (\<exists>r. ev = Write_done i r)"
proof (cases ev)
  case (Read_done n statuses)
  then show ?thesis
  proof (cases statuses)
    case (Inl e)
    with assms Read_done show ?thesis by (auto simp: RpcServer_read_done_def)
  next
    case (Inr vs)
    then obtain es1 where "check_statuses vs [0..<n] s = Returns (s', es1)"
      "executions i es = executions i es1"
      using assms Read_done by (auto simp: RpcServer_read_done_def)
    with check_statuses_busy [of vs "[0..<n]" s s' es1 i] show ?thesis by simp
  qed
next
  case (Write_done j r)
  with assms show ?thesis
    by (cases "i = j")
      (auto simp: RpcServer_write_done_def service_busy_def nth_list_update split: sum.splits)
qed (use assms in \<open>auto simp: RpcServer_start_def RpcServer_stop_def RpcServer_timer_def
      RpcServer_resolve_def service_busy_def split: if_splits\<close>)

lemma run_busy:
  "run_machine RpcServer_step s evs = Returns (s', es) \<Longrightarrow>
   executions i es + of_bool (service_busy s i) \<le> of_bool (service_busy s' i) + finished i evs"
proof (induction evs arbitrary: s es)
  case Nil
  then show ?case by (simp add: finished_def)
next
  case (Cons ev evs)
  then obtain s1 es1 es2 where st: "RpcServer_step s ev = Returns (s1, es1)"
    and r: "run_machine RpcServer_step s1 evs = Returns (s', es2)" and es: "es = es1 @ es2" by auto
  from step_busy [OF st, of i] Cons.IH [OF r] show ?case
    by (auto simp: es finished_def)
qed

text \<open>Within the received values the loop is defined.\<close>

lemma check_statuses_returns:
  "\<forall>i \<in> set is. i < length statuses \<and> i < length (services s) \<Longrightarrow>
   \<exists>s' es. check_statuses statuses is s = Returns (s', es)"
proof (induction "is" arbitrary: s)
  case Nil
  then show ?case by simp
next
  case (Cons i "is")
  then obtain s1 es1 where
    st: "(if statuses ! i = status_requested then RpcServer_execute i s else Returns (s, [])) = Returns (s1, es1)"
    and l: "length (services s1) = length (services s)"
    by (cases "busy (services s ! i)"; cases "statuses ! i = status_requested")
      (auto simp: RpcServer_execute_def)
  from Cons.IH [of s1] Cons.prems l obtain s2 es2 where "check_statuses statuses is s1 = Returns (s2, es2)"
    by auto
  with st Cons.prems show ?case by auto
qed

lemma count_covers:
  assumes "n \<le> 254"
  shows "unat (of_nat ((n + 1) div 2 * 2) :: u8) = (n + 1) div 2 * 2" and "n \<le> (n + 1) div 2 * 2"
proof -
  have "(n + 1) div 2 * 2 < 256" using assms by presburger
  then show "unat (of_nat ((n + 1) div 2 * 2) :: u8) = (n + 1) div 2 * 2"
    by (rule unat_of_nat_u8)
  show "n \<le> (n + 1) div 2 * 2" by presburger
qed

text \<open>The effects that go on polling.\<close>

fun polls :: "rpc_effect list \<Rightarrow> rpc_effect list" where
  "polls [] = []"
| "polls (Read_status_vars c n # es) = Read_status_vars c n # polls es"
| "polls (Wait # es) = Wait # polls es"
| "polls (e # es) = polls es"

lemma polls_append [simp]: "polls (es @ fs) = polls es @ polls fs"
  by (induction es rule: polls.induct) auto

lemma check_statuses_polls: "check_statuses statuses is s = Returns (s', es) \<Longrightarrow> polls es = []"
proof (induction "is" arbitrary: s es)
  case Nil
  then show ?case by simp
next
  case (Cons j "is")
  then obtain s1 es1 es2 where
    st: "(if statuses ! j = status_requested then RpcServer_execute j s else Returns (s, [])) = Returns (s1, es1)"
    and r: "check_statuses statuses is s1 = Returns (s', es2)" and es: "es = es1 @ es2"
    by (auto split: if_splits)
  have "polls es1 = []" using st by (auto simp: RpcServer_execute_def split: if_splits)
  with Cons.IH [OF r] show ?case by (simp add: es)
qed

section \<open>Properties\<close>

text \<open>
  A service is never executed while an earlier call of it is unfinished: in any run, the
  number of its executions exceeds the number of completed writes of its status by at most
  one, however often its status variable says that it is requested.
\<close>

theorem service_not_executed_while_busy:
  assumes "run_machine RpcServer_step s evs = Returns (s', es)" and "\<not> service_busy s i"
  shows "executions i es \<le> 1 + finished i evs"
  using run_busy [OF assms(1), of i] assms(2) by (cases "service_busy s' i") simp_all

lemma service_not_executed_while_busy_witness:
  "\<exists>s' es. run_machine RpcServer_step (addService ''a'' (new_RpcServer 10 1000))
      [Start, Read_done 1 (Inr [1, 0]), Timer_done ec_success, Read_done 1 (Inr [1, 0])] = Returns (s', es)
    \<and> executions 0 es = 1
    \<and> executions 0 es \<le> 1 + finished 0
      [Start, Read_done 1 (Inr [1, 0]), Timer_done ec_success, Read_done 1 (Inr [1, 0])]"
proof -
  let ?evs = "[Start, Read_done 1 (Inr [1, 0]), Timer_done ec_success, Read_done 1 (Inr [1, 0])]"
  let ?s = "addService ''a'' (new_RpcServer 10 1000)"
  obtain s' es where r: "run_machine RpcServer_step ?s ?evs = Returns (s', es)"
    and "executions 0 es = 1"
    by (simp add: step_simps addService_def new_RpcServer_def Let_def status_requested_def
        ec_success_def operation_aborted_def ec_is_error_def)
  moreover have "\<not> service_busy ?s 0"
    by (simp add: service_busy_def addService_def new_RpcServer_def)
  ultimately show ?thesis using service_not_executed_while_busy [OF r, of 0] by blast
qed

text \<open>
  With up to 254 services the server reads enough status variables: the read command asks
  for at least as many as there are services, and every list of the length that was asked for,
  which is what a read of variables returns, is checked without leaving it.
\<close>

theorem statuses_cover_services:
  assumes "length (services s) \<le> 254"
  shows "\<exists>cmd. readCommands s = [Read_status_vars cmd (length (services s))]
    \<and> length (services s) \<le> unat (rvs_count cmd)
    \<and> (\<forall>vs. length vs = unat (rvs_count cmd) \<longrightarrow>
        (\<exists>s' es. RpcServer_step s (Read_done (length (services s)) (Inr vs)) = Returns (s', es)))"
proof -
  let ?n = "length (services s)"
  let ?cmd = "\<lparr>rvs_index = base_register s, rvs_count = of_nat ((?n + 1) div 2 * 2)\<rparr>"
  have le: "?n \<le> unat (rvs_count ?cmd)" using count_covers [OF assms] by simp
  have "\<exists>s' es. RpcServer_step s (Read_done ?n (Inr vs)) = Returns (s', es)"
    if l: "length vs = unat (rvs_count ?cmd)" for vs
  proof -
    have "\<forall>i \<in> set [0..<?n]. i < length vs \<and> i < length (services s)" using le l by auto
    from check_statuses_returns [OF this] show ?thesis by (auto simp: RpcServer_read_done_def)
  qed
  with le show ?thesis
    by (intro exI [of _ ?cmd] conjI allI impI) (simp add: readCommands_def Let_def)
qed

lemma statuses_cover_services_witness:
  "\<exists>cmd. readCommands (addService ''a'' (new_RpcServer 10 1000)) = [Read_status_vars cmd 1]
    \<and> 1 \<le> unat (rvs_count cmd)"
  using statuses_cover_services [of "addService ''a'' (new_RpcServer 10 1000)"]
  by (auto simp: addService_def new_RpcServer_def)

text \<open>
  C26: With 255 or 256 services the count of variables to read wraps to 0: the server asks for
  no variables at all, and checking the empty list it gets is undefined behaviour.
\<close>

theorem too_many_services:
  assumes "length (services s) = 255 \<or> length (services s) = 256"
  shows "\<exists>cmd. readCommands s = [Read_status_vars cmd (length (services s))] \<and> rvs_count cmd = 0
    \<and> RpcServer_step s (Read_done (length (services s)) (Inr [])) = Undefined"
proof -
  have "[0..<length (services s)] = 0 # [1..<length (services s)]"
    using assms by (auto simp: upt_conv_Cons)
  then show ?thesis
    using assms by (auto simp: readCommands_def Let_def RpcServer_read_done_def)
qed

lemma too_many_services_witness:
  "\<exists>cmd. readCommands (new_RpcServer 0 0\<lparr>services := replicate 255 \<lparr>busy = False, service_name = ''s''\<rparr>\<rparr>)
      = [Read_status_vars cmd 255] \<and> rvs_count cmd = 0"
  using too_many_services [of "new_RpcServer 0 0\<lparr>services :=
      replicate 255 \<lparr>busy = False, service_name = ''s''\<rparr>\<rparr>"] by auto

text \<open>
  Stopping ends the polling: once the server is stopped, and as long as it is not started
  again and no timer that was already running expires, no read is sent and no timer is
  started, whatever is still completed.
\<close>

theorem stopped_server_does_not_poll:
  assumes "run_machine RpcServer_step s evs = Returns (s', es)" and "\<not> server_started s"
    and "Start \<notin> set evs" and "\<forall>err. Timer_done err \<notin> set evs"
  shows "polls es = [] \<and> \<not> server_started s'"
  using assms
proof (induction evs arbitrary: s es)
  case Nil
  then show ?case by simp
next
  case (Cons ev evs)
  then obtain s1 es1 es2 where st: "RpcServer_step s ev = Returns (s1, es1)"
    and r: "run_machine RpcServer_step s1 evs = Returns (s', es2)" and es: "es = es1 @ es2" by auto
  have "polls es1 = [] \<and> \<not> server_started s1"
    using st Cons.prems(2-4) check_statuses_polls check_statuses_busy
    by (cases ev) (fastforce simp: RpcServer_stop_def RpcServer_read_done_def RpcServer_resolve_def
        RpcServer_write_done_def split: sum.splits)+
  with Cons.IH [OF r] Cons.prems(3,4) show ?case by (simp add: es)
qed

lemma stopped_server_does_not_poll_witness:
  "\<exists>s' es. run_machine RpcServer_step (addService ''a'' (new_RpcServer 10 1000))
      [Stop, Read_done 1 (Inr [1, 0]), Resolved_service 0 no_error] = Returns (s', es)
    \<and> polls es = []"
proof -
  let ?s = "addService ''a'' (new_RpcServer 10 1000)"
  let ?evs = "[Stop, Read_done 1 (Inr [1, 0]), Resolved_service 0 no_error]"
  obtain s' es where r: "run_machine RpcServer_step ?s ?evs = Returns (s', es)"
    by (simp add: step_simps addService_def new_RpcServer_def Let_def status_requested_def)
  from stopped_server_does_not_poll [OF r] r show ?thesis
    by (auto simp: addService_def new_RpcServer_def)
qed

text \<open>
  Stopping and starting the server again leaves two polling loops: the start sends a new
  read although the loop of the first start has not noticed the stop, and when both reads are
  answered both go on polling.
\<close>

theorem restart_polls_twice:
  assumes "\<not> server_started s" and "length (services s) \<le> 254"
    and "length vs = unat (rvs_count cmd)" and "readCommands s = [Read_status_vars cmd n]"
    and "\<forall>v \<in> set vs. v \<noteq> status_requested"
  shows "\<exists>s'. run_machine RpcServer_step s
      [Start, Stop, Start, Read_done n (Inr vs), Read_done n (Inr vs)]
    = Returns (s', readCommands s @ readCommands s
        @ startReadCommandsTimer s @ startReadCommandsTimer s)"
proof -
  have n: "n = length (services s)" and c: "n \<le> length vs"
    using assms(2-4) count_covers [OF assms(2)] by (auto simp: readCommands_def Let_def)
  have loop: "check_statuses vs is t = Returns (t, [])" if "\<forall>i \<in> set is. i < length vs" for "is" t
    using that assms(5) by (induction "is") auto
  have "check_statuses vs [0..<n] t = Returns (t, [])" for t
    using c by (intro loop) auto
  with assms(1) show ?thesis
    by (simp add: RpcServer_start_def RpcServer_stop_def RpcServer_read_done_def
        startReadCommandsTimer_def readCommands_def Let_def)
qed

lemma restart_polls_twice_witness:
  "\<exists>s' cmd. run_machine RpcServer_step (addService ''a'' (new_RpcServer 10 1000))
      [Start, Stop, Start, Read_done 1 (Inr [0, 0]), Read_done 1 (Inr [0, 0])]
    = Returns (s', [Read_status_vars cmd 1, Read_status_vars cmd 1, Wait, Wait])"
  using restart_polls_twice [of "addService ''a'' (new_RpcServer 10 1000)" "[0, 0]"
      "\<lparr>rvs_index = 10, rvs_count = 2\<rparr>" 1]
  by (auto simp: addService_def new_RpcServer_def readCommands_def startReadCommandsTimer_def
      status_requested_def Let_def)

text \<open>
  A finished service call is always reported back: whatever its error is, the last thing
  its resolution does is to write its status variable, idle after success and error after an
  error, and different services of a server of up to 256 write different variables.
\<close>

theorem finished_service_writes_status:
  "\<exists>es. RpcServer_step s (Resolved_service i err) = Returns (s, es @ [Write_status_var
      \<lparr>wv_index = base_register s + of_nat i,
       wv_value = (if is_error err then status_error_value else status_idle)\<rparr> i])
    \<and> (es = [] \<longleftrightarrow> \<not> is_error err)
    \<and> (i < 256 \<longrightarrow> j < 256 \<longrightarrow> i \<noteq> j \<longrightarrow> base_register s + of_nat i \<noteq> base_register s + of_nat j)"
  by (auto simp: RpcServer_resolve_def of_nat_inj_u8)

lemma finished_service_writes_status_witness:
  "\<exists>es. RpcServer_step (addService ''a'' (new_RpcServer 10 1000)) (Resolved_service 0 no_error)
    = Returns (addService ''a'' (new_RpcServer 10 1000), es @ [Write_status_var
        \<lparr>wv_index = 10, wv_value = status_idle\<rparr> 0]) \<and> es = []"
  using finished_service_writes_status [of "addService ''a'' (new_RpcServer 10 1000)" 0 no_error 1]
  by (auto simp: addService_def new_RpcServer_def)

end
