(* ===== verification/Session_Lifetime.thy ===== *)
theory Session_Lifetime
  imports Multi_Session
begin

text \<open>
  How long the sessions of \<open>sendCommand\<close> and \<open>sendMultipleCommands\<close> live.  Their shared pointer is
  dropped by a handler that is posted when the session completes; the comment in \<open>udp/impl/send_command.hpp\<close>
  says that any queued event handlers can still complete.  Here the queue of the \<open>io_service\<close> is part of
  the state: an operation that ends appends its handler to the queue, and handlers run in the
  order of the queue.  The relation \<open>io_step\<close> gives the ways the system can go on, for any kind of
  session; the locale \<open>lifetime\<close> says what it needs of the session.
\<close>

section \<open>States\<close>

text \<open>
  What a kind of session does: its steps, the events of its sends and replies, for which of its
  requests it has a handler, and which handlers of events use it.
\<close>

record ('s, 'e, 'r) machine =
  step_of :: "'s \<Rightarrow> 'e \<Rightarrow> ('s \<times> 'r effect list) outcome"
  resolve_of :: "error \<Rightarrow> 's \<Rightarrow> ('s \<times> 'r effect list) outcome"
  sent_event :: "nat \<Rightarrow> error_code \<Rightarrow> 'e"
  reply_event :: "nat \<Rightarrow> ResponseHeader \<Rightarrow> bytes \<Rightarrow> 'e"
  awaits_reply :: "'s \<Rightarrow> nat \<Rightarrow> bool"
  touches :: "'e \<Rightarrow> bool"

datatype 'e posted = Ready "'e deadline_event" | Reset

text \<open>
  \<open>io_session\<close> is \<open>None\<close> when the session has been destroyed, \<open>io_sends\<close> are the sends that are
  pending.  \<open>io_crashed\<close> says that the memory of the session was used after its end.  \<open>io_late\<close> records
  that a send was still pending when the reset was posted.
\<close>

record ('s, 'e) io =
  io_session :: "'s option"
  io_queue :: "'e posted list"
  io_sends :: "nat list"
  io_timer_pending :: bool
  io_late :: bool
  io_crashed :: bool

definition io_started :: "nat \<Rightarrow> 's \<Rightarrow> ('s, 'e) io" where
  "io_started n s = \<lparr>io_session = Some s, io_queue = [], io_sends = [0..<n],
     io_timer_pending = True, io_late = False, io_crashed = False\<rparr>"

text \<open>
  What the effects of a handler do to the queue: cancelling a pending wait ends it with
  \<open>operation_aborted\<close>.
\<close>

fun io_effect :: "'r effect \<Rightarrow> ('s, 'e) io \<Rightarrow> ('s, 'e) io" where
  "io_effect Cancel_timer c =
     (if io_timer_pending c
      then c\<lparr>io_queue := io_queue c @ [Ready (Timer operation_aborted)], io_timer_pending := False\<rparr>
      else c)"
| "io_effect Post_reset c = c\<lparr>io_queue := io_queue c @ [Reset],
     io_late := (io_late c \<or> io_sends c \<noteq> [])\<rparr>"
| "io_effect e c = c"

text \<open>Whether a handler uses the session: an aborted wait only looks at the error.\<close>

primrec uses_session :: "('s, 'e, 'r) machine \<Rightarrow> 'e deadline_event \<Rightarrow> bool" where
  "uses_session m (Timer err) \<longleftrightarrow> err \<noteq> operation_aborted"
| "uses_session m (Work e) \<longleftrightarrow> touches m e"

definition run_handler ::
    "('s, 'e, 'r) machine \<Rightarrow> 's \<Rightarrow> 'e deadline_event \<Rightarrow> ('s, 'e) io \<Rightarrow> ('s, 'e) io outcome" where
  "run_handler m s ev c =
     obind (deadline_step (step_of m) (resolve_of m) s ev) (\<lambda>(s', es).
       Returns (fold io_effect es (c\<lparr>io_session := Some s'\<rparr>)))"

text \<open>
  The two kinds.  A reply is delivered as long as the handler of the request is registered; the end
  of a successful send only looks at the error.
\<close>

fun sent_or_reply :: "session_event \<Rightarrow> bool" where
  "sent_or_reply (Sent err) \<longleftrightarrow> ec_is_error err"
| "sent_or_reply (Reply hdr data) \<longleftrightarrow> True"

definition command_machine :: "(CommandSession, session_event, response) machine" where
  "command_machine = \<lparr>step_of = CommandSession_step, resolve_of = (\<lambda>e. CommandSession_resolve (Inl e)),
     sent_event = (\<lambda>i. Sent), reply_event = (\<lambda>i. Reply),
     awaits_reply = (\<lambda>s i. CommandSession_tokens s \<noteq> []), touches = sent_or_reply\<rparr>"

definition multi_machine :: "(MultiCommandSession, nat \<times> session_event, multi_response) machine" where
  "multi_machine = \<lparr>step_of = MultiCommandSession_step, resolve_of = MultiCommandSession_resolve,
     sent_event = (\<lambda>i err. (i, Sent err)), reply_event = (\<lambda>i hdr data. (i, Reply hdr data)),
     awaits_reply = (\<lambda>m i. i < length (mcs_sessions m) \<and> CommandSession_tokens (mcs_sessions m ! i) \<noteq> []),
     touches = sent_or_reply \<circ> snd\<rparr>"

section \<open>Steps\<close>

text \<open>
  The sends and the wait may end at any time while they are pending; a send that is carried out
  after the session is gone reads its buffer.
\<close>

inductive io_step :: "('s, 'e, 'r) machine \<Rightarrow> ('s, 'e) io \<Rightarrow> ('s, 'e) io \<Rightarrow> bool" for m where
  send_ends: "i \<in> set (io_sends c) \<Longrightarrow>
    io_step m c (c\<lparr>io_sends := remove1 i (io_sends c),
      io_queue := io_queue c @ [Ready (Work (sent_event m i err))],
      io_crashed := (io_crashed c \<or> io_session c = None)\<rparr>)"
| timer_ends: "io_timer_pending c \<Longrightarrow>
    io_step m c (c\<lparr>io_timer_pending := False, io_queue := io_queue c @ [Ready (Timer ec_success)]\<rparr>)"
| reply: "io_session c = Some s \<Longrightarrow> awaits_reply m s i \<Longrightarrow>
    run_handler m s (Work (reply_event m i hdr data)) c = Returns c' \<Longrightarrow> io_step m c c'"
| run: "io_queue c = Ready ev # rest \<Longrightarrow> io_session c = Some s \<Longrightarrow>
    run_handler m s ev (c\<lparr>io_queue := rest\<rparr>) = Returns c' \<Longrightarrow> io_step m c c'"
| run_destroyed: "io_queue c = Ready ev # rest \<Longrightarrow> io_session c = None \<Longrightarrow>
    io_step m c (c\<lparr>io_queue := rest, io_crashed := (io_crashed c \<or> uses_session m ev)\<rparr>)"
| reset: "io_queue c = Reset # rest \<Longrightarrow>
    io_step m c (c\<lparr>io_queue := rest, io_session := None\<rparr>)"

inductive io_reachable :: "('s, 'e, 'r) machine \<Rightarrow> ('s, 'e) io \<Rightarrow> ('s, 'e) io \<Rightarrow> bool" for m c0 where
  start: "io_reachable m c0 c0"
| step: "io_reachable m c0 c \<Longrightarrow> io_step m c c' \<Longrightarrow> io_reachable m c0 c'"

section \<open>The lifetime of a session\<close>

text \<open>The session itself neither cancels the timer nor posts the reset: its callback does, when it completes.\<close>

definition plain :: "'r effect list \<Rightarrow> bool" where
  "plain es \<longleftrightarrow> Cancel_timer \<notin> set es \<and> Post_reset \<notin> set es"

lemma plain_simps [simp]:
  "plain []" "plain (es @ fs) \<longleftrightarrow> plain es \<and> plain fs"
  "plain (e # es) \<longleftrightarrow> e \<noteq> Cancel_timer \<and> e \<noteq> Post_reset \<and> plain es"
  "plain (map Remove ts)"
  by (auto simp: plain_def)

definition io_closed :: "('s, 'e) io \<Rightarrow> ('s, 'e) io" where
  "io_closed c = c\<lparr>io_timer_pending := False, io_late := (io_late c \<or> io_sends c \<noteq> []),
     io_queue := io_queue c @ (if io_timer_pending c then [Ready (Timer operation_aborted)] else []) @ [Reset]\<rparr>"

lemma io_closed: "io_effect Post_reset (io_effect Cancel_timer c) = io_closed c"
  by (cases c) (simp add: io_closed_def)

lemma io_effects_plain:
  "plain es \<Longrightarrow> fold io_effect (with_callback es) c = (io_closed ^^ length (completions es)) c"
  by (induction es arbitrary: c rule: with_callback.induct) (simp_all add: io_closed funpow_swap1 del: io_effect.simps(1,2))

lemma io_effects_late: "io_late c \<Longrightarrow> io_late (fold io_effect es c)"
proof (induction es arbitrary: c)
  case (Cons e es)
  then show ?case by (cases e) simp_all
qed simp

lemma run_handler_late: "run_handler m s ev c = Returns c' \<Longrightarrow> io_late c \<Longrightarrow> io_late c'"
  by (auto simp: run_handler_def intro: io_effects_late)

locale lifetime = resolvable_session "step_of m" is_done tokens ok "resolve_of m"
  for m :: "('s, 'e, 'r) machine" and is_done tokens ok +
  assumes step_plain: "step_of m s e = Returns (s', es) \<Longrightarrow> plain es"
    and resolve_plain: "resolve_of m r s = Returns (s', es) \<Longrightarrow> plain es"
begin

lemma timer_plain: "deadline_timer (resolve_of m) err s = Returns (s', es) \<Longrightarrow> plain es"
  by (auto simp: deadline_timer_def dest: resolve_plain split: if_splits)

lemma deadline_plain:
  "deadline_step (step_of m) (resolve_of m) s ev = Returns (s', fs) \<Longrightarrow> \<exists>es. fs = with_callback es \<and> plain es"
  by (cases ev) (auto dest: step_plain timer_plain)

text \<open>A handler of a live session leaves the queue alone, or completes the session.\<close>

lemma run_handler_cases:
  assumes ok: "ok s" and r: "run_handler m s ev c = Returns c'"
  shows "\<exists>s'. ok s' \<and> ((is_done s' = is_done s \<and> c' = c\<lparr>io_session := Some s'\<rparr>)
    \<or> (\<not> is_done s \<and> is_done s' \<and> c' = io_closed (c\<lparr>io_session := Some s'\<rparr>)))"
proof -
  obtain s' fs where st: "deadline_step (step_of m) (resolve_of m) s ev = Returns (s', fs)"
    and c': "c' = fold io_effect fs (c\<lparr>io_session := Some s'\<rparr>)"
    using r by (auto simp: run_handler_def)
  from deadline_plain [OF st] obtain es where "fs = with_callback es" "plain es" by blast
  with c' have "c' = (io_closed ^^ length (completions fs)) (c\<lparr>io_session := Some s'\<rparr>)"
    by (simp add: io_effects_plain)
  with deadline.step_ok [OF ok st] deadline.step_done [OF ok _ st] deadline.step_once [OF ok _ st] show ?thesis
    by (cases "is_done s"; cases "is_done s'") auto
qed

text \<open>
  As long as no send was late: nothing is pending once the reset is posted, the reset is
  the last handler in the queue, and behind it there is nothing.
\<close>

definition io_inv :: "('s, 'e) io \<Rightarrow> bool" where
  "io_inv c \<longleftrightarrow> \<not> io_late c \<longrightarrow>
     \<not> io_crashed c \<and>
     (case io_session c of
        None \<Rightarrow> io_queue c = [] \<and> io_sends c = [] \<and> \<not> io_timer_pending c
      | Some s \<Rightarrow> ok s \<and>
          (if is_done s
           then \<exists>q. io_queue c = q @ [Reset] \<and> Reset \<notin> set q
             \<and> io_sends c = [] \<and> \<not> io_timer_pending c
           else Reset \<notin> set (io_queue c)))"

lemma io_step_inv:
  assumes "io_step m c c'" "io_inv c"
  shows "io_inv c'"
  using assms
proof (cases rule: io_step.cases)
  case (send_ends i err)
  with assms(2) show ?thesis by (auto simp: io_inv_def split: option.splits if_splits)
next
  case timer_ends
  with assms(2) show ?thesis by (auto simp: io_inv_def split: option.splits if_splits)
next
  case (reply s i hdr data)
  show ?thesis
  proof (cases "io_late c")
    case True
    then show ?thesis using run_handler_late [OF reply(3)] by (simp add: io_inv_def)
  next
    case False
    then have "ok s" using reply assms(2) by (simp add: io_inv_def)
    from run_handler_cases [OF this reply(3)] reply assms(2) False
    show ?thesis by (auto simp: io_inv_def io_closed_def)
  qed
next
  case (run ev rest s)
  show ?thesis
  proof (cases "io_late c")
    case True
    then show ?thesis using run_handler_late [OF run(3)] by (simp add: io_inv_def)
  next
    case False
    with run assms(2) have ok: "ok s" by (simp add: io_inv_def)
    from run_handler_cases [OF ok run(3)] run(1,2) assms(2) False show ?thesis
      by (auto simp: io_inv_def io_closed_def Cons_eq_append_conv)
  qed
next
  case (run_destroyed ev rest)
  with assms(2) show ?thesis by (auto simp: io_inv_def)
next
  case (reset rest)
  with assms(2) show ?thesis
    by (auto simp: io_inv_def Cons_eq_append_conv split: option.splits if_splits)
qed

lemma reachable_inv: "io_reachable m c0 c \<Longrightarrow> io_inv c0 \<Longrightarrow> io_inv c"
  by (induction rule: io_reachable.induct) (auto intro: io_step_inv)

lemma not_crashed:
  assumes "ok s" "\<not> is_done s" "io_reachable m (io_started n s) c" "\<not> io_late c"
  shows "\<not> io_crashed c"
proof -
  have "io_inv (io_started n s)" using assms(1,2) by (simp add: io_inv_def io_started_def)
  from reachable_inv [OF assms(3) this] assms(4) show ?thesis by (simp add: io_inv_def)
qed

text \<open>The deadline passes, the session is dropped, and then a send is carried out.\<close>

lemma late_send_crashes:
  assumes s: "ok s" "\<not> is_done s" and n: "0 < n"
  shows "\<exists>c. io_reachable m (io_started n s) c \<and> io_crashed c"
proof -
  define c0 :: "('s, 'e) io" where "c0 = io_started n s"
  define c1 where "c1 = c0\<lparr>io_timer_pending := False, io_queue := [Ready (Timer ec_success)]\<rparr>"
  obtain s' fs where st: "deadline_step (step_of m) (resolve_of m) s (Timer ec_success) = Returns (s', fs)"
    using deadline.step_returns [OF s(1)] by blast
  then obtain es0 where "deadline_timer (resolve_of m) ec_success s = Returns (s', es0)" by auto
  from timer_laws(5) [OF s(1) this] have "is_done s'" by (simp add: ec_success_def operation_aborted_def)
  define c2 where "c2 = fold io_effect fs (c1\<lparr>io_queue := [], io_session := Some s'\<rparr>)"
  have r: "run_handler m s (Timer ec_success) (c1\<lparr>io_queue := []\<rparr>) = Returns c2"
    by (simp add: run_handler_def st c2_def del: deadline_step.simps)
  from deadline_plain [OF st] obtain es where "fs = with_callback es" "plain es" by blast
  moreover from this have "length (completions es) = 1"
    using \<open>is_done s'\<close> deadline.step_once [OF s(1,2) st] by simp
  ultimately have c2: "io_queue c2 = [Reset]" "io_sends c2 = [0..<n]"
    by (simp_all add: c2_def io_effects_plain io_closed_def c1_def c0_def io_started_def)
  define c3 where "c3 = c2\<lparr>io_queue := [], io_session := None\<rparr>"
  have 1: "io_step m c0 c1" using io_step.timer_ends [of c0 m] by (simp add: c1_def c0_def io_started_def)
  have 2: "io_step m c1 c2"
    by (rule io_step.run [OF _ _ r]) (simp_all add: c1_def c0_def io_started_def)
  have 3: "io_step m c2 c3" using io_step.reset [OF c2(1), of m] by (simp add: c3_def)
  have "0 \<in> set (io_sends c3)" using n by (simp add: c3_def c2)
  note 4 = io_step.send_ends [OF this, of m ec_success]
  have "io_reachable m c0 (c3\<lparr>io_sends := remove1 0 (io_sends c3),
      io_queue := io_queue c3 @ [Ready (Work (sent_event m 0 ec_success))],
      io_crashed := (io_crashed c3 \<or> io_session c3 = None)\<rparr>)"
    by (rule io_reachable.step [OF _ 4], rule io_reachable.step [OF _ 3],
        rule io_reachable.step [OF _ 2], rule io_reachable.step [OF _ 1], rule io_reachable.start)
  then show ?thesis by (auto simp: c0_def c3_def)
qed

end

section \<open>The two kinds of sessions\<close>

lemma CommandSession_plain:
  "CommandSession_resolve r s = Returns (s', es) \<Longrightarrow> plain es"
  "CommandSession_step s e = Returns (s', es) \<Longrightarrow> plain es"
  by (auto simp: CommandSession_resolve_def split: if_splits option.splits dest!: CommandSession_step_cases)

interpretation command_life: lifetime command_machine cs_done CommandSession_tokens CommandSession_ok
proof -
  have "resolvable_session (step_of command_machine) cs_done CommandSession_tokens CommandSession_ok
      (resolve_of command_machine)"
    using command_session.resolvable_session_axioms by (simp add: command_machine_def)
  moreover have "lifetime_axioms command_machine"
    by unfold_locales (auto simp: command_machine_def dest: CommandSession_plain)
  ultimately show "lifetime command_machine cs_done CommandSession_tokens CommandSession_ok"
    by (rule lifetime.intro)
qed

lemma stop_sessions_plain: "stop_sessions err ss = Returns (ss', es) \<Longrightarrow> plain es"
  by (induction ss arbitrary: ss' es) auto

lemma multi_plain:
  "MultiCommandSession_resolve err m = Returns (m', es) \<Longrightarrow> plain es"
  by (auto simp: MultiCommandSession_resolve_def Let_def dest: stop_sessions_plain split: if_splits)

lemma pass_on_plain: "pass_on i es m = Returns (m', fs) \<Longrightarrow> plain fs"
  by (induction i es m arbitrary: fs rule: pass_on.induct)
    (auto simp: MultiCommandSession_callback_def Let_def dest: multi_plain split: sum.splits if_splits)

interpretation multi_life: lifetime multi_machine mcs_done multi_tokens multi_ok
proof -
  have "resolvable_session (step_of multi_machine) mcs_done multi_tokens multi_ok (resolve_of multi_machine)"
    using multi_session.resolvable_session_axioms by (simp add: multi_machine_def)
  moreover have "lifetime_axioms multi_machine"
    by unfold_locales
      (auto simp: multi_machine_def MultiCommandSession_step_def dest: multi_plain pass_on_plain split: if_splits)
  ultimately show "lifetime multi_machine mcs_done multi_tokens multi_ok"
    by (rule lifetime.intro)
qed

section \<open>Properties\<close>

text \<open>
  C22: A session of a command whose send ended before it completed is never used after it was
  destroyed: in every state that can be reached from the start of a command, whatever the
  order in which the send, the timer and the replies come, the memory of the session has been
  used after its end only if the send was still pending when the handler that drops the
  session was posted.
\<close>

theorem session_outlives_its_handlers:
  assumes "sendCommand now deadline h cmd client = Returns ((s, client'), es0)" and "client_inv client"
    and "io_reachable command_machine (io_started 1 s) c" and "\<not> io_late c"
  shows "\<not> io_crashed c"
  using sendCommand_session(1,2) [OF assms(1,2)] assms(3,4) by (rule command_life.not_crashed)

lemma sendCommand_example:
  "\<exists>s client' es0. sendCommand 0 100 ''h'' ReadStatus (new_Client True) = Returns ((s, client'), es0)
    \<and> client_inv (new_Client True :: string Client)"
  by (simp add: sendCommand_def DeadlineSession_start_def CommandSession_new_def CommandSession_start_def allocateId_def
      registerHandler_def new_Client_def client_inv_def)

lemma session_outlives_its_handlers_witness:
  "\<exists>s client' es0 c. sendCommand 0 100 ''h'' ReadStatus (new_Client True) = Returns ((s, client'), es0)
    \<and> io_reachable command_machine (io_started 1 s) c \<and> c \<noteq> io_started 1 s \<and> \<not> io_late c \<and> \<not> io_crashed c"
proof -
  obtain s client' es0 where
    s: "sendCommand 0 100 ''h'' ReadStatus (new_Client True) = Returns ((s, client'), es0)"
    and inv: "client_inv (new_Client True :: string Client)"
    using sendCommand_example by blast
  let ?c0 = "io_started 1 s :: (CommandSession, session_event) io"
  have "0 \<in> set (io_sends ?c0)" by (simp add: io_started_def)
  from io_step.send_ends [OF this, of command_machine ec_success] obtain c where
    st: "io_step command_machine ?c0 c" and c: "\<not> io_late c" "io_sends c \<noteq> io_sends ?c0"
    by (auto simp: io_started_def)
  have r: "io_reachable command_machine ?c0 c" using io_reachable.step [OF io_reachable.start st] .
  have "\<not> io_crashed c" by (rule session_outlives_its_handlers [OF s inv r c(1)])
  with s r c show ?thesis by blast
qed



text \<open>
  C24: The same holds of several commands sent together: their session is used after its end
  only if one of the sends was still pending when the handler that drops it was posted, and
  then it can be, as soon as there is one command.
\<close>

theorem several_commands_lifetime:
  assumes "sendMultipleCommands now deadline h cmds client = Returns ((m, client'), es0)" and "client_inv client"
    and "cmds \<noteq> []"
  shows "(\<forall>c. io_reachable multi_machine (io_started (length cmds) m) c \<and> io_crashed c \<longrightarrow> io_late c)
    \<and> (\<exists>c. io_reachable multi_machine (io_started (length cmds) m) c \<and> io_crashed c)"
proof -
  note m = sendMultipleCommands_session [OF assms(1,2)]
  have "multi_ok m" "\<not> mcs_done m" using m by simp_all
  with multi_life.not_crashed multi_life.late_send_crashes [of m "length cmds"] assms(3) show ?thesis by blast
qed

lemma several_commands_lifetime_witness:
  "\<exists>m client' es0 c. sendMultipleCommands 0 100 (\<lambda>i. i) [ReadStatus, ReadStatus] (new_Client True)
      = Returns ((m, client'), es0)
    \<and> io_reachable multi_machine (io_started 2 m) c \<and> io_crashed c \<and> io_late c"
proof -
  have "\<exists>m client' es0. sendMultipleCommands 0 100 (\<lambda>i. i) [ReadStatus, ReadStatus] (new_Client True)
      = Returns ((m, client'), es0)"
    by (simp add: sendMultipleCommands_def DeadlineSession_start_def MultiCommandSession_new_def
        MultiCommandSession_start_def CommandSession_new_def CommandSession_start_def allocateId_def
        registerHandler_def new_Client_def Let_def)
  then obtain m client' es0 where m: "sendMultipleCommands 0 100 (\<lambda>i. i) [ReadStatus, ReadStatus] (new_Client True)
      = Returns ((m, client'), es0)" by blast
  have "client_inv (new_Client True :: nat Client)" by (simp add: client_inv_def new_Client_def)
  from several_commands_lifetime [OF m this] m show ?thesis
    by (simp add: numeral_2_eq_2 [symmetric] del: io_reachable.simps) blast
qed

end
