(* ===== verification/Operations.thy ===== *)
theory Operations
  imports Multi_Session File_Sessions
begin

text \<open>
  The operations of a client of any kind, as one: the sum of the five kinds of sessions, with
  the contract of \<open>Session_Contract\<close> again.  The operations are the calls of the public interface
  of \<open>include/yaskawa_ethernet/udp/client.hpp\<close>.
\<close>

section \<open>The sum of the sessions\<close>

datatype operation =
    Command_op CommandSession
  | Commands_op MultiCommandSession
  | Read_file_op ReadFileSession
  | Read_list_op ReadFileSession
  | Write_file_op WriteFileSession

datatype op_response =
    Response_of response
  | Responses_of multi_response
  | Contents bytes
  | File_names "bytes list"
  | Nothing

text \<open>
  The events of an operation.  A reply and the end of a send belong to one of the requests of the
  operation, which has several only if it is one of several commands.
\<close>

datatype op_event =
    Op_reply nat ResponseHeader bytes
  | Op_sent nat error_code
  | Op_ack_sent error_code
  | Op_timer error_code

definition lift_step ::
    "('s \<Rightarrow> operation) \<Rightarrow> ('r \<Rightarrow> op_response) \<Rightarrow> ('s \<times> 'r effect list) outcome
     \<Rightarrow> (operation \<times> op_response effect list) outcome" where
  "lift_step op resp m = obind m (\<lambda>(s, es). Returns (op s, map (map_effect resp) es))"

primrec command_event :: "op_event \<Rightarrow> session_event deadline_event option" where
  "command_event (Op_reply i header data) = Some (Work (Reply header data))"
| "command_event (Op_sent i err) = Some (Work (Sent err))"
| "command_event (Op_ack_sent err) = None"
| "command_event (Op_timer err) = Some (Timer err)"

primrec commands_event :: "op_event \<Rightarrow> (nat \<times> session_event) deadline_event option" where
  "commands_event (Op_reply i header data) = Some (Work (i, Reply header data))"
| "commands_event (Op_sent i err) = Some (Work (i, Sent err))"
| "commands_event (Op_ack_sent err) = None"
| "commands_event (Op_timer err) = Some (Timer err)"

primrec file_event_of :: "op_event \<Rightarrow> file_event" where
  "file_event_of (Op_reply i header data) = File_reply header data"
| "file_event_of (Op_sent i err) = File_sent err"
| "file_event_of (Op_ack_sent err) = Ack_sent err"
| "file_event_of (Op_timer err) = File_timer err"

primrec op_step :: "operation \<Rightarrow> op_event \<Rightarrow> (operation \<times> op_response effect list) outcome" where
  "op_step (Command_op s) ev = lift_step Command_op Response_of
     (case command_event ev of None \<Rightarrow> Returns (s, [])
      | Some e \<Rightarrow> deadline_step CommandSession_step (\<lambda>e. CommandSession_resolve (Inl e)) s e)"
| "op_step (Commands_op m) ev = lift_step Commands_op Responses_of
     (case commands_event ev of None \<Rightarrow> Returns (m, [])
      | Some e \<Rightarrow> deadline_step MultiCommandSession_step MultiCommandSession_resolve m e)"
| "op_step (Read_file_op s) ev = lift_step Read_file_op Contents (ReadFile_step s (file_event_of ev))"
| "op_step (Read_list_op s) ev = lift_step Read_list_op File_names (ReadFileList_step s (file_event_of ev))"
| "op_step (Write_file_op s) ev =
     lift_step Write_file_op (\<lambda>_. Nothing) (WriteFileSession_step s (file_event_of ev))"

primrec op_done :: "operation \<Rightarrow> bool" where
  "op_done (Command_op s) = cs_done s"
| "op_done (Commands_op m) = mcs_done m"
| "op_done (Read_file_op s) = rfs_done s"
| "op_done (Read_list_op s) = rfs_done s"
| "op_done (Write_file_op s) = wfs_done s"

primrec op_tokens :: "operation \<Rightarrow> HandlerToken list" where
  "op_tokens (Command_op s) = CommandSession_tokens s"
| "op_tokens (Commands_op m) = multi_tokens m"
| "op_tokens (Read_file_op s) = read_file_tokens s"
| "op_tokens (Read_list_op s) = read_file_tokens s"
| "op_tokens (Write_file_op s) = write_file_tokens s"

text \<open>Listing files is left out: decoding the names may not end.\<close>

primrec op_ok :: "operation \<Rightarrow> bool" where
  "op_ok (Command_op s) = CommandSession_ok s"
| "op_ok (Commands_op m) = multi_ok m"
| "op_ok (Read_file_op s) = read_file_ok s"
| "op_ok (Read_list_op s) = False"
| "op_ok (Write_file_op s) = write_file_ok s"

section \<open>The contract of the sum\<close>

lemma completions_map_effect [simp]:
  "completions (map (map_effect f) es) = map (map_sum id f) (completions es)"
  by (induction es rule: completions.induct) (auto simp: id_def)

lemma removed_map_effect [simp]: "removed (map (map_effect f) es) = removed es"
  by (induction es rule: removed.induct) auto

text \<open>The contract of one step, in one formula.\<close>

definition session_law ::
    "('s \<Rightarrow> bool) \<Rightarrow> ('s \<Rightarrow> HandlerToken list) \<Rightarrow> ('s \<Rightarrow> bool) \<Rightarrow> 's \<Rightarrow> ('s \<times> 'r effect list) outcome \<Rightarrow> bool" where
  "session_law is_done tokens ok s m \<longleftrightarrow> (\<exists>s' es. m = Returns (s', es) \<and> ok s'
     \<and> (is_done s \<longrightarrow> is_done s' \<and> completions es = [])
     \<and> (\<not> is_done s \<longrightarrow> length (completions es) = of_bool (is_done s'))
     \<and> mset (tokens s) = mset (removed es) + mset (tokens s'))"

lemma session_law_idle: "ok s \<Longrightarrow> session_law is_done tokens ok s (Returns (s, []))"
  by (simp add: session_law_def)

context total_session
begin

lemma step_law: "ok s \<Longrightarrow> session_law is_done tokens ok s (step s e)"
  using step_returns [of s e] step_ok [of s e] step_done [of s e] step_once [of s e] step_tokens [of s e]
  by (fastforce simp: session_law_def)

end

lemma lift_law:
  assumes "session_law is_done tokens ok s m"
    and "\<And>s. op_done (C s) = is_done s" "\<And>s. op_tokens (C s) = tokens s" "\<And>s. op_ok (C s) = ok s"
  shows "session_law op_done op_tokens op_ok (C s) (lift_step C R m)"
proof -
  obtain s' es where "m = Returns (s', es)" "ok s'" "is_done s \<longrightarrow> is_done s' \<and> completions es = []"
    "\<not> is_done s \<longrightarrow> length (completions es) = of_bool (is_done s')"
    "mset (tokens s) = mset (removed es) + mset (tokens s')"
    using assms(1) by (auto simp: session_law_def)
  then show ?thesis
    unfolding session_law_def assms(2-4)
    by (intro exI [of _ "C s'"] exI [of _ "map (map_effect R) es"]) (simp add: lift_step_def assms(2-4))
qed

lemma op_step_law: "op_ok op \<Longrightarrow> session_law op_done op_tokens op_ok op (op_step op ev)"
proof (cases op)
  case (Command_op s)
  moreover assume "op_ok op"
  ultimately show ?thesis
    by (auto intro!: lift_law [of cs_done CommandSession_tokens CommandSession_ok] session_law_idle command_session.deadline.step_law split: option.split
        simp del: deadline_step.simps)
next
  case (Commands_op m)
  moreover assume "op_ok op"
  ultimately show ?thesis
    by (auto intro!: lift_law [of mcs_done multi_tokens multi_ok] session_law_idle multi_session.deadline.step_law split: option.split
        simp del: deadline_step.simps)
next
  case (Read_file_op s)
  moreover assume "op_ok op"
  ultimately show ?thesis by (auto intro!: lift_law [of rfs_done read_file_tokens read_file_ok] read_file.step_law simp del: ReadFileSession_step.simps)
next
  case (Write_file_op s)
  moreover assume "op_ok op"
  ultimately show ?thesis by (auto intro!: lift_law [of wfs_done write_file_tokens write_file_ok] write_file.step_law simp del: WriteFileSession_step.simps)
qed simp

lemma op_done_tokens: "op_ok op \<Longrightarrow> op_done op \<Longrightarrow> op_tokens op = []"
  by (cases op)
    (auto simp: multi_tokens_done CommandSession_tokens_def read_file_tokens_def write_file_tokens_def)

interpretation operation: total_session op_step op_done op_tokens op_ok
proof (unfold_locales, goal_cases)
  case (1 os ps)
  show ?case by simp
next
  case (2 s e s' es)
  then show ?case using op_step_law [of s e] by (simp add: session_law_def)
next
  case (3 s e s' es)
  then show ?case using op_step_law [of s e] by (simp add: session_law_def)
next
  case (4 s e s' es)
  then show ?case using op_step_law [of s e] by (simp add: session_law_def)
next
  case (5 s e s' es)
  then show ?case using op_step_law [of s e] by (simp add: session_law_def)
next
  case (6 s)
  then show ?case by (rule op_done_tokens)
next
  case (7 s e)
  then show ?case using op_step_law [of s e] by (auto simp: session_law_def)
qed

text \<open>The end of the wait on its timer ends every operation.\<close>

lemma op_timer_done:
  assumes "op_ok op" "op_step op (Op_timer err) = Returns (op', es)" "err \<noteq> operation_aborted"
  shows "op_done op'"
proof (cases op)
  case (Command_op s)
  then obtain s' fs where "deadline_step CommandSession_step (\<lambda>e. CommandSession_resolve (Inl e)) s (Timer err)
      = Returns (s', fs)" "op' = Command_op s'"
    using assms(2) by (auto simp: lift_step_def)
  moreover have "CommandSession_ok s" using assms(1) Command_op by simp
  ultimately show ?thesis
    using command_session.deadline_reached [of s "[Timer err]" s' fs err] assms(3) by simp
next
  case (Commands_op m)
  then obtain m' fs where "deadline_step MultiCommandSession_step MultiCommandSession_resolve m (Timer err)
      = Returns (m', fs)" "op' = Commands_op m'"
    using assms(2) by (auto simp: lift_step_def)
  moreover have "multi_ok m" using assms(1) Commands_op by simp
  ultimately show ?thesis
    using multi_session.deadline_reached [of m "[Timer err]" m' fs err] assms(3) by simp
next
  case (Read_file_op s)
  with assms show ?thesis
    by (auto simp: lift_step_def ReadFileSession_timeout_def ReadFileSession_stopSession_def Let_def read_file_ok_def
        split: if_splits)
next
  case (Write_file_op s)
  with assms show ?thesis
    by (auto simp: lift_step_def WriteFileSession_timeout_def WriteFileSession_stopSession_def Let_def write_file_ok_def
        split: if_splits)
qed (use assms in simp)

end
