(* ===== verification/Client_System.thy ===== *)
theory Client_System
  imports Operations Multi_Failure
begin

text \<open>
  The client with everything that runs on it: any number of operations of any kind, open at the
  same time, on one map of open requests.  The user calls the member functions of
  \<open>include/yaskawa_ethernet/udp/client.hpp\<close> in any order; the network and the timers do what they
  like.  A callback that calls the client again is the end of one event and a call after it.
\<close>

section \<open>The system\<close>

text \<open>A handler names the operation it belongs to, and the request of the operation.\<close>

record client_system =
  cls_client :: "(nat \<times> nat) Client"
  cls_ops :: "operation list"

datatype client_call =
    Send_command command int
  | Send_commands "command list" int
  | Read_file bytes int bool
  | Read_file_list bytes int bool
  | Write_file bytes bytes int bool
  | Delete_file bytes int

datatype cls_output =
    Op_output nat "op_response effect"
  | Reported error

definition cls_new :: "bool \<Rightarrow> client_system" where
  "cls_new handler = \<lparr>cls_client = (new_Client handler)\<lparr>socket_open := True\<rparr>, cls_ops = []\<rparr>"

text \<open>An operation that has been started gets the next number.\<close>

definition cls_add ::
    "('s \<Rightarrow> operation) \<Rightarrow> ('r \<Rightarrow> op_response)
     \<Rightarrow> (('s \<times> (nat \<times> nat) Client) \<times> 'r effect list) outcome \<Rightarrow> client_system
     \<Rightarrow> (client_system \<times> cls_output list) outcome" where
  "cls_add op resp m sys = obind m (\<lambda>((s, client), es).
     Returns (\<lparr>cls_client = client, cls_ops = cls_ops sys @ [op s]\<rparr>,
       map (\<lambda>e. Op_output (length (cls_ops sys)) (map_effect resp e)) es))"

primrec cls_call :: "int \<Rightarrow> client_call \<Rightarrow> client_system \<Rightarrow> (client_system \<times> cls_output list) outcome" where
  "cls_call now (Send_command cmd deadline) sys = cls_add Command_op Response_of
     (Client_sendCommand now deadline (length (cls_ops sys), 0) cmd (cls_client sys)) sys"
| "cls_call now (Send_commands cmds deadline) sys = cls_add Commands_op Responses_of
     (Client_sendCommands now deadline (Pair (length (cls_ops sys))) cmds (cls_client sys)) sys"
| "cls_call now (Read_file name timeout progress) sys = cls_add Read_file_op Contents
     (readFile now (length (cls_ops sys), 0) name timeout progress (cls_client sys)) sys"
| "cls_call now (Read_file_list type timeout progress) sys = cls_add Read_list_op File_names
     (readFileList now (length (cls_ops sys), 0) type timeout progress (cls_client sys)) sys"
| "cls_call now (Write_file name data timeout progress) sys = cls_add Write_file_op (\<lambda>_. Nothing)
     (writeFile now (length (cls_ops sys), 0) name data timeout progress (cls_client sys)) sys"
| "cls_call now (Delete_file name timeout) sys = cls_add Command_op Response_of
     (deleteFile now (length (cls_ops sys), 0) name timeout (cls_client sys)) sys"

text \<open>What an operation does: it removes its handlers from the client; the rest goes out.\<close>

fun cls_effects ::
    "nat \<Rightarrow> op_response effect list \<Rightarrow> client_system \<Rightarrow> (client_system \<times> cls_output list) outcome" where
  "cls_effects n [] sys = Returns (sys, [])"
| "cls_effects n (Remove token # es) sys =
     obind (removeHandler token (cls_client sys)) (\<lambda>client.
       cls_effects n es (sys\<lparr>cls_client := client\<rparr>))"
| "cls_effects n (e # es) sys =
     obind (cls_effects n es sys) (\<lambda>(sys, out). Returns (sys, Op_output n e # out))"

definition cls_op ::
    "nat \<Rightarrow> op_event \<Rightarrow> client_system \<Rightarrow> (client_system \<times> cls_output list) outcome" where
  "cls_op n ev sys =
     (if n < length (cls_ops sys)
      then obind (op_step (cls_ops sys ! n) ev) (\<lambda>(op, es).
        cls_effects n es (sys\<lparr>cls_ops := (cls_ops sys)[n := op]\<rparr>))
      else Returns (sys, []))"

fun cls_actions ::
    "(nat \<times> nat) action list \<Rightarrow> client_system \<Rightarrow> (client_system \<times> cls_output list) outcome" where
  "cls_actions [] sys = Returns (sys, [])"
| "cls_actions (Report_error e # as) sys =
     obind (cls_actions as sys) (\<lambda>(sys, out). Returns (sys, Reported e # out))"
| "cls_actions (Invoke (n, i) header data # as) sys =
     obind (cls_op n (Op_reply i header data) sys) (\<lambda>(sys, out).
     obind (cls_actions as sys) (\<lambda>(sys, out'). Returns (sys, out @ out')))"
| "cls_actions (_ # as) sys = cls_actions as sys"

datatype cls_event =
    Call client_call
  | Datagram error_code bytes
  | Sent_of nat nat error_code
  | Ack_sent_of nat error_code
  | Timer_of nat error_code
  | Close

primrec cls_step ::
    "int \<Rightarrow> client_system \<Rightarrow> cls_event \<Rightarrow> (client_system \<times> cls_output list) outcome" where
  "cls_step now sys (Call call) = cls_call now call sys"
| "cls_step now sys (Datagram err msg) =
     obind (of_read (onReceive err msg (cls_client sys))) (\<lambda>as. cls_actions as sys)"
| "cls_step now sys (Sent_of n i err) = cls_op n (Op_sent i err) sys"
| "cls_step now sys (Ack_sent_of n err) = cls_op n (Op_ack_sent err) sys"
| "cls_step now sys (Timer_of n err) = cls_op n (Op_timer err) sys"
| "cls_step now sys Close = Returns (sys\<lparr>cls_client := close (cls_client sys)\<rparr>, [])"

abbreviation "cls_run \<equiv> run_machine (\<lambda>sys (now, ev). cls_step now sys ev)"

section \<open>Ownership of the open requests\<close>

definition all_tokens :: "operation list \<Rightarrow> HandlerToken list" where
  "all_tokens ops = concat (map op_tokens ops)"

text \<open>
  No token has two owners, all of them are valid, and every open request belongs to the operation
  its handler names.
\<close>

definition owned :: "(nat \<times> nat) Client \<Rightarrow> operation list \<Rightarrow> bool" where
  "owned c ops \<longleftrightarrow> client_inv c \<and> (\<forall>op \<in> set ops. op_ok op)
     \<and> distinct (all_tokens ops) \<and> (\<forall>t \<in> set (all_tokens ops). valid_token c t)
     \<and> (\<forall>k n i. find_handler c k = Some (n, i) \<longrightarrow>
          n < length ops \<and> k \<in> token_key ` set (op_tokens (ops ! n)))"

lemma valid_token_key:
  "valid_token c s \<Longrightarrow> valid_token c t \<Longrightarrow> token_key s = token_key t \<Longrightarrow> s = t"
  by (auto simp: valid_token_def split: option.splits intro: HandlerToken.equality)

lemma token_owner_unique:
  "distinct (all_tokens ops) \<Longrightarrow> n < length ops \<Longrightarrow> m < length ops \<Longrightarrow>
   t \<in> set (op_tokens (ops ! n)) \<Longrightarrow> t \<in> set (op_tokens (ops ! m)) \<Longrightarrow> n = m"
proof (induction ops arbitrary: n m)
  case (Cons op ops)
  have "t \<in> set (all_tokens ops)" if "j < length ops" "t \<in> set (op_tokens (ops ! j))" for j
    using that by (auto simp: all_tokens_def)
  with Cons show ?case by (cases n; cases m) (auto simp: all_tokens_def)
qed simp

text \<open>An open request is found exactly under the ids of its owner.\<close>

lemma owned_find:
  assumes "owned c ops"
  shows "(\<exists>i. find_handler c k = Some (n, i)) \<longleftrightarrow> n < length ops \<and> k \<in> token_key ` set (op_tokens (ops ! n))"
proof
  assume "n < length ops \<and> k \<in> token_key ` set (op_tokens (ops ! n))"
  then obtain t where t: "n < length ops" "t \<in> set (op_tokens (ops ! n))" "k = token_key t" by blast
  have all: "s \<in> set (all_tokens ops)" if "j < length ops" "s \<in> set (op_tokens (ops ! j))" for s j
    using that by (auto simp: all_tokens_def)
  then have v: "valid_token c t" using assms t by (auto simp: owned_def)
  with registry.valid_find [OF this] obtain m i where f: "find_handler c k = Some (m, i)"
    by (auto simp: t(3))
  with assms have "m < length ops \<and> k \<in> token_key ` set (op_tokens (ops ! m))"
    unfolding owned_def by blast
  then obtain s where s: "m < length ops" "s \<in> set (op_tokens (ops ! m))" "token_key s = k" by blast
  with all assms have "valid_token c s" by (auto simp: owned_def)
  from valid_token_key [OF this v] s t have "s = t" by simp
  with token_owner_unique [of ops n m t] assms s t have "m = n" by (simp add: owned_def)
  with f show "\<exists>i. find_handler c k = Some (n, i)" by blast
qed (use assms in \<open>auto simp: owned_def\<close>)

section \<open>Effects\<close>

fun op_results :: "nat \<Rightarrow> cls_output list \<Rightarrow> op_response result list" where
  "op_results n [] = []"
| "op_results n (Op_output m (Complete r) # out) = (if m = n then r # op_results n out else op_results n out)"
| "op_results n (x # out) = op_results n out"

lemma op_results_append [simp]: "op_results n (a @ b) = op_results n a @ op_results n b"
  by (induction n a rule: op_results.induct) auto

text \<open>Removing handlers takes their keys out of the map, and leaves the other tokens valid.\<close>

lemma cls_effects_law:
  "client_inv (cls_client sys) \<Longrightarrow> distinct (removed es) \<Longrightarrow>
   \<forall>t \<in> set (removed es). valid_token (cls_client sys) t \<Longrightarrow>
   \<exists>sys' out. cls_effects n es sys = Returns (sys', out) \<and> cls_ops sys' = cls_ops sys
     \<and> client_inv (cls_client sys')
     \<and> (\<forall>k. find_handler (cls_client sys') k =
          (if k \<in> token_key ` set (removed es) then None else find_handler (cls_client sys) k))
     \<and> (\<forall>t. valid_token (cls_client sys) t \<and> t \<notin> set (removed es) \<longrightarrow> valid_token (cls_client sys') t)
     \<and> (\<forall>m. op_results m out = (if m = n then completions es else []))"
proof (induction n es sys rule: cls_effects.induct)
  case (2 n token es sys)
  let ?c = "cls_client sys"
  have v: "valid_token ?c token" using 2 by simp
  from registry.remove_valid [OF 2(2) v] obtain c1 where r: "removeHandler token ?c = Returns c1"
    and inv: "client_inv c1" and f: "find_handler c1 = (find_handler ?c)(token_key token := None)" by blast
  have keeps: "valid_token c1 t" if "valid_token ?c t" "t \<noteq> token" for t
    using registry.remove_keeps [OF 2(2) r that(1)] valid_token_key [OF that(1) v] that(2) by blast
  have "\<forall>t \<in> set (removed es). valid_token c1 t" using 2(3,4) keeps by auto
  with 2(1) [of c1] 2(3) inv obtain sys' out where
    "cls_effects n es (sys\<lparr>cls_client := c1\<rparr>) = Returns (sys', out)" "cls_ops sys' = cls_ops sys"
    "client_inv (cls_client sys')" "\<forall>k. find_handler (cls_client sys') k =
      (if k \<in> token_key ` set (removed es) then None else find_handler c1 k)"
    "\<forall>t. valid_token c1 t \<and> t \<notin> set (removed es) \<longrightarrow> valid_token (cls_client sys') t"
    "\<forall>m. op_results m out = (if m = n then completions es else [])" by auto
  with r f keeps show ?case
    by (intro exI [of _ sys'] exI [of _ out] conjI) (auto simp: image_iff)
qed fastforce+

section \<open>Steps of an operation\<close>

lemma all_tokens_update:
  assumes "n < length ops" "mset (op_tokens (ops ! n)) = mset ts + mset (op_tokens op)"
  shows "mset (all_tokens ops) = mset ts + mset (all_tokens (ops[n := op]))"
proof -
  have "mset (all_tokens ops) = mset (all_tokens (take n ops @ ops ! n # drop (Suc n) ops))"
    using assms(1) by (simp add: id_take_nth_drop [symmetric])
  then show ?thesis using assms by (simp add: upd_conv_take_nth_drop all_tokens_def)
qed

text \<open>What a step of the system keeps, and what it adds to the results of operation \<open>m\<close>.\<close>

definition results_of :: "operation list \<Rightarrow> nat \<Rightarrow> nat" where
  "results_of ops m = of_bool (m < length ops \<and> op_done (ops ! m))"

lemma results_of_le: "results_of ops m \<le> 1"
  by (simp add: results_of_def)

definition cls_law :: "client_system \<Rightarrow> client_system \<times> cls_output list \<Rightarrow> bool" where
  "cls_law sys = (\<lambda>(sys', out). owned (cls_client sys') (cls_ops sys')
     \<and> length (cls_ops sys) \<le> length (cls_ops sys')
     \<and> (\<forall>m. length (op_results m out) + results_of (cls_ops sys) m = results_of (cls_ops sys') m))"

lemma cls_law_same: "owned (cls_client sys) (cls_ops sys) \<Longrightarrow> cls_law sys (sys, [])"
  by (simp add: cls_law_def)

lemma cls_law_seq: "cls_law sys (sys1, out) \<Longrightarrow> cls_law sys1 (sys', out') \<Longrightarrow> cls_law sys (sys', out @ out')"
  unfolding cls_law_def by (auto simp: add.assoc) (metis add.assoc add.commute)

lemma cls_op_law:
  assumes owned: "owned (cls_client sys) (cls_ops sys)"
  shows "\<exists>sys' out. cls_op n ev sys = Returns (sys', out) \<and> cls_law sys (sys', out)"
proof (cases "n < length (cls_ops sys)")
  case False
  with cls_law_same [OF owned] show ?thesis by (simp add: cls_op_def)
next
  case True
  let ?ops = "cls_ops sys" and ?c = "cls_client sys"
  have ok: "op_ok (?ops ! n)" using owned True by (simp add: owned_def)
  from operation.step_law [OF ok, of ev] obtain op es where
    st: "op_step (?ops ! n) ev = Returns (op, es)" and ok': "op_ok op"
    and stays: "op_done (?ops ! n) \<longrightarrow> op_done op \<and> completions es = []"
    and once: "\<not> op_done (?ops ! n) \<longrightarrow> length (completions es) = of_bool (op_done op)"
    and toks: "mset (op_tokens (?ops ! n)) = mset (removed es) + mset (op_tokens op)"
    by (auto simp: session_law_def)
  let ?ops' = "?ops[n := op]"
  have m: "mset (all_tokens ?ops) = mset (removed es @ all_tokens ?ops')"
    using all_tokens_update [OF True toks] by simp
  have d: "distinct (removed es @ all_tokens ?ops')"
    using owned mset_eq_imp_distinct_iff [OF m] by (simp add: owned_def)
  have all: "set (all_tokens ?ops) = set (removed es) \<union> set (all_tokens ?ops')"
    using mset_eq_setD [OF m] by simp
  have "client_inv (cls_client (sys\<lparr>cls_ops := ?ops'\<rparr>))" "distinct (removed es)"
    "\<forall>t \<in> set (removed es). valid_token (cls_client (sys\<lparr>cls_ops := ?ops'\<rparr>)) t"
    using owned d all by (auto simp: owned_def)
  from cls_effects_law [OF this, of n] obtain sys' out where
    eff: "cls_effects n es (sys\<lparr>cls_ops := ?ops'\<rparr>) = Returns (sys', out)" "cls_ops sys' = ?ops'"
    and inv: "client_inv (cls_client sys')"
    and find: "\<forall>k. find_handler (cls_client sys') k = (if k \<in> token_key ` set (removed es) then None else find_handler ?c k)"
    and keeps: "\<forall>t. valid_token ?c t \<and> t \<notin> set (removed es) \<longrightarrow> valid_token (cls_client sys') t"
    and res: "\<forall>m. op_results m out = (if m = n then completions es else [])" by auto
  have "owned (cls_client sys') ?ops'"
    unfolding owned_def
  proof (intro conjI allI impI)
    show "client_inv (cls_client sys')" by (rule inv)
    show "\<forall>op \<in> set ?ops'. op_ok op"
      using owned ok' set_update_subset_insert by (fastforce simp: owned_def)
    show "distinct (all_tokens ?ops')" using d by simp
    show "\<forall>t \<in> set (all_tokens ?ops'). valid_token (cls_client sys') t"
      using owned keeps d all by (auto simp: owned_def)
  next
    fix k m i
    assume f: "find_handler (cls_client sys') k = Some (m, i)"
    then have nr: "k \<notin> token_key ` set (removed es)" and "find_handler ?c k = Some (m, i)"
      using find by (auto split: if_splits)
    then have o: "m < length ?ops" "k \<in> token_key ` set (op_tokens (?ops ! m))"
      using owned unfolding owned_def by blast+
    moreover have "set (op_tokens (?ops ! n)) = set (removed es) \<union> set (op_tokens op)"
      using arg_cong [OF toks, of set_mset] by simp
    ultimately show "m < length ?ops'" "k \<in> token_key ` set (op_tokens (?ops' ! m))"
      using nr by (cases "m = n"; auto)+
  qed
  moreover have "length (op_results m out) + results_of ?ops m = results_of ?ops' m" for m
    using res stays once True by (cases "m = n") (auto simp: results_of_def)
  ultimately show ?thesis using True st eff by (simp add: cls_op_def cls_law_def)
qed

lemma cls_actions_law:
  "owned (cls_client sys) (cls_ops sys) \<Longrightarrow>
   \<exists>sys' out. cls_actions as sys = Returns (sys', out) \<and> cls_law sys (sys', out)"
proof (induction as sys rule: cls_actions.induct)
  case (1 sys)
  then show ?case by (simp add: cls_law_same)
next
  case (2 e as sys)
  then obtain sys' out where "cls_actions as sys = Returns (sys', out)" "cls_law sys (sys', out)" by blast
  then show ?case by (simp add: cls_law_def)
next
  case (3 n i header data as sys)
  from cls_op_law [OF 3(2)] obtain sys1 out where
    st: "cls_op n (Op_reply i header data) sys = Returns (sys1, out)" and law: "cls_law sys (sys1, out)" by blast
  from law have "owned (cls_client sys1) (cls_ops sys1)" by (simp add: cls_law_def)
  from 3(1) [OF this] obtain sys' out' where
    "cls_actions as sys1 = Returns (sys', out')" "cls_law sys1 (sys', out')" by blast
  with st cls_law_seq [OF law] show ?case by auto
qed auto

section \<open>Calls of the user\<close>

text \<open>A call that ends without undefined behaviour.\<close>

definition well_defined :: "'a outcome \<Rightarrow> bool" where
  "well_defined m \<longleftrightarrow> m \<noteq> Undefined \<and> m \<noteq> Diverges"

lemma well_defined_simps [simp]:
  "well_defined (Returns x)" "well_defined (Throws e)"
  by (simp_all add: well_defined_def)

lemma well_defined_obind [intro]:
  "well_defined m \<Longrightarrow> (\<And>x. m = Returns x \<Longrightarrow> well_defined (f x)) \<Longrightarrow> well_defined (obind m f)"
  by (cases m) (auto simp: well_defined_def)

text \<open>A new operation has handlers of its own, and only they are new in the client.\<close>

definition op_started :: "nat \<Rightarrow> (nat \<times> nat) Client \<Rightarrow> (nat \<times> nat) Client \<Rightarrow> operation \<Rightarrow> bool" where
  "op_started n client client' op \<longleftrightarrow> op_ok op \<and> \<not> op_done op \<and> client_inv client'
     \<and> distinct (op_tokens op)
     \<and> (\<forall>t \<in> set (op_tokens op). valid_token client' t \<and> next_entry client \<le> token_entry t)
     \<and> (\<forall>t. valid_token client t \<longrightarrow> valid_token client' t)
     \<and> (\<forall>k m i. find_handler client' k = Some (m, i) \<longrightarrow>
          find_handler client k = Some (m, i) \<or> (m = n \<and> k \<in> token_key ` set (op_tokens op)))"

lemma valid_token_entry: "client_inv c \<Longrightarrow> valid_token c t \<Longrightarrow> token_entry t < next_entry c"
  by (fastforce simp: client_inv_def valid_token_def split: option.splits)

lemma op_started_owned:
  assumes owned: "owned client ops" and new: "op_started (length ops) client client' op"
  shows "owned client' (ops @ [op])"
proof -
  have old: "valid_token client t" "token_entry t < next_entry client" if "t \<in> set (all_tokens ops)" for t
    using owned that valid_token_entry by (auto simp: owned_def)
  have "set (all_tokens ops) \<inter> set (op_tokens op) = {}"
    using new old(2) by (fastforce simp: op_started_def)
  moreover have "n < length (ops @ [op]) \<and> k \<in> token_key ` set (op_tokens ((ops @ [op]) ! n))"
    if "find_handler client' k = Some (n, i)" for k n i
  proof -
    from that new consider "find_handler client k = Some (n, i)"
      | "n = length ops" "k \<in> token_key ` set (op_tokens op)"
      unfolding op_started_def by blast
    then show ?thesis
    proof cases
      case 1
      with owned have "n < length ops \<and> k \<in> token_key ` set (op_tokens (ops ! n))"
        unfolding owned_def by blast
      then show ?thesis by (simp add: nth_append)
    qed simp
  qed
  moreover have "\<forall>t \<in> set (all_tokens (ops @ [op])). valid_token client' t"
    using new old(1) by (auto simp: op_started_def all_tokens_def)
  ultimately show ?thesis
    using owned new unfolding owned_def op_started_def by (simp add: all_tokens_def)
qed

lemma register_started:
  assumes "client_inv client"
    and r: "registerHandler now rid (n, i) (client\<lparr>client_request_id := r\<rparr>) = Returns (token, client')"
    and op: "op_ok op" "\<not> op_done op" "op_tokens op = [token]"
  shows "op_started n client client' op"
proof -
  let ?c = "client\<lparr>client_request_id := r\<rparr>"
  have same: "client_inv ?c = client_inv client" "valid_token ?c = valid_token client"
    "find_handler ?c = find_handler client"
    by (simp_all add: client_inv_def valid_token_def find_handler_def fun_eq_iff)
  have inv: "client_inv ?c" using assms(1) same by simp
  have "next_entry client \<le> token_entry token" using registerHandler_entry [OF r] by simp
  with registry.register_valid [OF inv r] registry.register_keeps [OF inv r] registry.register_find [OF r] same op
  show ?thesis by (auto simp: op_started_def)
qed

lemma sendCommand_started:
  assumes "client_inv client" "sendCommand now deadline (n, i) cmd client = Returns ((s, client'), es)"
  shows "op_started n client client' (Command_op s)" "completions es = []"
proof -
  from assms(2) obtain buffer token where
    r: "registerHandler now (client_request_id client) (n, i)
      (client\<lparr>client_request_id := client_request_id client + 1\<rparr>) = Returns (token, client')"
    and s: "s = \<lparr>cs_request_id = client_request_id client, cs_command = cmd, cs_handler = Some token,
      cs_write_buffer = buffer, cs_started = True, cs_done = False\<rparr>" and "completions es = []"
    by (auto simp: sendCommand_def DeadlineSession_start_def CommandSession_new_def CommandSession_start_def
        allocateId_def)
  then show "completions es = []" by simp
  show "op_started n client client' (Command_op s)"
    by (rule register_started [OF assms(1) r]) (simp_all add: s CommandSession_ok_def CommandSession_tokens_def)
qed

lemma readFile_started:
  assumes "client_inv client" "readFile now (n, i) name timeout progress client = Returns ((s, client'), es)"
  shows "op_started n client client' (Read_file_op s)" "completions es = []"
proof -
  from assms(2) obtain token where
    r: "registerHandler now (client_request_id client) (n, i)
      (client\<lparr>client_request_id := client_request_id client + 1\<rparr>) = Returns (token, client')"
    and s: "rfs_handler s = Some token" "\<not> rfs_done s" and "completions es = []"
    by (auto simp: Let_def readFile_def impl_readFile_def allocateId_def ReadFileSession_start_def
        ReadFileSession_new_def ReadFileSession_resetTimeout_def)
  then show "completions es = []" by simp
  show "op_started n client client' (Read_file_op s)"
    by (rule register_started [OF assms(1) r]) (simp_all add: s read_file_ok_def read_file_tokens_def)
qed

lemma writeFile_started:
  assumes "client_inv client" "writeFile now (n, i) name data timeout progress client = Returns ((s, client'), es)"
  shows "op_started n client client' (Write_file_op s)" "completions es = []"
proof -
  from assms(2) obtain token where
    r: "registerHandler now (client_request_id client) (n, i)
      (client\<lparr>client_request_id := client_request_id client + 1\<rparr>) = Returns (token, client')"
    and s: "wfs_handler s = Some token" "\<not> wfs_done s" and "completions es = []"
    by (auto simp: Let_def writeFile_def impl_writeFile_def allocateId_def WriteFileSession_start_def
        WriteFileSession_new_def WriteFileSession_resetTimeout_def)
  then show "completions es = []" by simp
  show "op_started n client client' (Write_file_op s)"
    by (rule register_started [OF assms(1) r]) (simp_all add: s write_file_ok_def write_file_tokens_def)
qed

lemma init_sessions_client:
  "init_sessions cmds client = Returns (ss, client') \<Longrightarrow>
   find_handler client' = find_handler client \<and> valid_token client' = valid_token client
   \<and> next_entry client' = next_entry client"
proof (induction cmds arbitrary: client ss)
  case (Cons c cs)
  then obtain s ss' client1 where n: "CommandSession_new c client = Returns (s, client1)"
    and i: "init_sessions cs client1 = Returns (ss', client')" by auto
  from n Cons.IH [OF i] show ?case
    by (auto simp: CommandSession_new_def allocateId_def find_handler_def valid_token_def fun_eq_iff)
qed simp

lemma start_sessions_keys:
  "start_sessions now h i ss client = Returns ((ss', client'), es) \<Longrightarrow>
   map (\<lambda>s. token_key (the (cs_handler s))) ss' = map cs_request_id ss \<and> completions es = []"
proof (induction ss arbitrary: i client ss' es)
  case (Cons s ss)
  then obtain s1 client1 es1 ss1 es2 where
    st: "CommandSession_start now (h i) s client = Returns ((s1, client1), es1)"
    and r: "start_sessions now h (i + 1) ss client1 = Returns ((ss1, client'), es2)"
    and ss': "ss' = s1 # ss1" "es = Send (cs_write_buffer s) # es2" by auto
  from st have "token_key (the (cs_handler s1)) = cs_request_id s"
    by (auto simp: CommandSession_start_def registerHandler_def Let_def split: if_splits option.splits)
  with Cons.IH [OF r] ss' show ?case by simp
qed simp

lemma sendMultipleCommands_started:
  assumes "client_inv client" "sendMultipleCommands now deadline (Pair n) cmds client = Returns ((m, client'), es)"
  shows "op_started n client client' (Commands_op m)" "completions es = []"
proof -
  obtain ss0 client0 ss es1 where i: "init_sessions cmds client = Returns (ss0, client0)"
    and st: "start_sessions now (Pair n) 0 ss0 client0 = Returns ((ss, client'), es1)"
    and m: "mcs_sessions m = ss" and es: "es = es1 @ [Start_timer deadline]"
    using assms(2)
    by (auto simp: sendMultipleCommands_def DeadlineSession_start_def MultiCommandSession_new_def
        MultiCommandSession_start_def)
  show "completions es = []" using start_sessions_keys [OF st] es by simp
  note c = init_sessions_client [OF i]
  have "client_inv client0" "\<forall>s \<in> set ss0. \<not> cs_done s" using init_sessions_new [OF i assms(1)] by simp_all
  note s = start_sessions_started [OF st this]
  have toks: "multi_tokens m = map (\<lambda>s. the (cs_handler s)) ss"
    using s tokens_of_started [of ss] by (simp add: multi_tokens_def m)
  have keys: "token_key ` set (multi_tokens m) = cs_request_id ` set ss0"
    using arg_cong [OF conjunct1 [OF start_sessions_keys [OF st]], of set] by (simp add: toks image_image)
  note hs = start_sessions_handlers [OF st]
  have "find_handler client k = Some (j, l) \<or> (j = n \<and> k \<in> token_key ` set (multi_tokens m))"
    if f: "find_handler client' k = Some (j, l)" for k j l
  proof (cases "k \<in> cs_request_id ` set ss0")
    case True
    then obtain q where "q < length ss0" "k = cs_request_id (ss0 ! q)" by (auto simp: in_set_conv_nth)
    with hs f True show ?thesis by (simp add: keys)
  next
    case False
    with hs f c show ?thesis by simp
  qed
  with s c sendMultipleCommands_session [OF assms(2,1)] show "op_started n client client' (Commands_op m)"
    by (auto simp: op_started_def toks)
qed

text \<open>What the user passes has to be encodable without undefined behaviour; file lists are left out.\<close>

definition command_ok :: "command \<Rightarrow> bool" where
  "command_ok cmd \<longleftrightarrow> (\<forall>rid. well_defined (encode_command [] rid cmd))"

primrec call_ok :: "client_call \<Rightarrow> bool" where
  "call_ok (Send_command cmd deadline) = command_ok cmd"
| "call_ok (Send_commands cmds deadline) = list_all command_ok cmds"
| "call_ok (Read_file name timeout progress) = True"
| "call_ok (Read_file_list type timeout progress) = False"
| "call_ok (Write_file name data timeout progress) = True"
| "call_ok (Delete_file name timeout) = True"

fun event_ok :: "cls_event \<Rightarrow> bool" where
  "event_ok (Call call) = call_ok call"
| "event_ok ev = True"

lemma well_defined_register: "well_defined (registerHandler now rid h c)"
  by (simp add: registerHandler_def split: option.split)

lemma well_defined_start: "well_defined (CommandSession_start now h s client)"
  by (auto simp: CommandSession_start_def Let_def well_defined_register)

lemma well_defined_sendCommand: "command_ok cmd \<Longrightarrow> well_defined (sendCommand now deadline h cmd client)"
  by (auto simp: sendCommand_def DeadlineSession_start_def CommandSession_new_def allocateId_def command_ok_def
      intro!: well_defined_obind well_defined_start)

lemma well_defined_start_sessions: "well_defined (start_sessions now h i ss client)"
  by (induction ss arbitrary: i client) (auto intro!: well_defined_obind well_defined_start)

lemma well_defined_init: "list_all command_ok cmds \<Longrightarrow> well_defined (init_sessions cmds client)"
  by (induction cmds arbitrary: client)
    (auto simp: CommandSession_new_def allocateId_def command_ok_def intro!: well_defined_obind)

lemma well_defined_sends:
  "list_all command_ok cmds \<Longrightarrow> well_defined (sendMultipleCommands now deadline h cmds client)"
  by (auto simp: sendMultipleCommands_def DeadlineSession_start_def MultiCommandSession_new_def
      MultiCommandSession_start_def Let_def intro!: well_defined_obind well_defined_init well_defined_start_sessions)

lemma well_defined_readFile: "well_defined (readFile now h name timeout progress c)"
  by (auto simp: readFile_def impl_readFile_def ReadFileSession_start_def Let_def allocateId_def
      intro!: well_defined_obind well_defined_register)

lemma well_defined_writeFile: "well_defined (writeFile now h name data timeout progress c)"
  by (auto simp: writeFile_def impl_writeFile_def WriteFileSession_start_def Let_def allocateId_def
      intro!: well_defined_obind well_defined_register)

lemma delete_ok: "command_ok (DeleteFile c)"
  by (simp add: command_ok_def)

lemma cls_add_law:
  assumes owned: "owned (cls_client sys) (cls_ops sys)" and wd: "well_defined m"
    and new: "\<And>s client' es. m = Returns ((s, client'), es) \<Longrightarrow>
      op_started (length (cls_ops sys)) (cls_client sys) client' (op s) \<and> completions es = []"
  shows "well_defined (cls_add op resp m sys)
    \<and> (\<forall>r. cls_add op resp m sys = Returns r \<longrightarrow> cls_law sys r)"
proof (cases m)
  case (Returns x)
  obtain s client' es where x: "x = ((s, client'), es)" by (cases x) auto
  note n = new [OF Returns [unfolded x]]
  have none: "op_results k (map (\<lambda>e. Op_output j (map_effect resp e)) fs) = []" if "completions fs = []" for k j fs
    using that by (induction fs rule: completions.induct) auto
  have "results_of (cls_ops sys @ [op s]) k = results_of (cls_ops sys) k" for k
    using n by (auto simp: results_of_def nth_append op_started_def less_Suc_eq)
  with n none op_started_owned [OF owned] show ?thesis
    by (simp add: cls_add_def Returns x cls_law_def)
qed (use wd in \<open>simp_all add: cls_add_def well_defined_def\<close>)

lemma cls_call_law:
  assumes owned: "owned (cls_client sys) (cls_ops sys)" and ok: "call_ok call"
  shows "well_defined (cls_call now call sys) \<and> (\<forall>r. cls_call now call sys = Returns r \<longrightarrow> cls_law sys r)"
proof -
  have inv: "client_inv (cls_client sys)" using owned by (simp add: owned_def)
  show ?thesis
  proof (cases call)
    case (Send_command cmd deadline)
    show ?thesis
      unfolding Send_command cls_call.simps client_send_defs
      by (rule cls_add_law [OF owned])
        (use ok Send_command in \<open>auto intro: well_defined_sendCommand dest: sendCommand_started [OF inv]\<close>)
  next
    case (Send_commands cmds deadline)
    show ?thesis
      unfolding Send_commands cls_call.simps client_sends_defs
      by (rule cls_add_law [OF owned])
        (use ok Send_commands in \<open>auto intro: well_defined_sends dest: sendMultipleCommands_started [OF inv]\<close>)
  next
    case (Read_file name timeout progress)
    show ?thesis
      unfolding Read_file cls_call.simps
      by (rule cls_add_law [OF owned])
        (auto intro: well_defined_readFile dest: readFile_started [OF inv])
  next
    case (Write_file name data timeout progress)
    show ?thesis
      unfolding Write_file cls_call.simps
      by (rule cls_add_law [OF owned])
        (auto intro: well_defined_writeFile dest: writeFile_started [OF inv])
  next
    case (Delete_file name timeout)
    show ?thesis
      unfolding Delete_file cls_call.simps deleteFile_def client_send_defs
      by (rule cls_add_law [OF owned])
        (auto intro: well_defined_sendCommand delete_ok dest: sendCommand_started [OF inv])
  qed (use ok in simp)
qed

section \<open>Exceptions\<close>

text \<open>A call throws for a request id that is taken, unless a command cannot be encoded.\<close>

definition encodable :: "command \<Rightarrow> bool" where
  "encodable cmd \<longleftrightarrow> (\<forall>rid. \<exists>buffer. encode_command [] rid cmd = Returns buffer)"

primrec call_encodable :: "client_call \<Rightarrow> bool" where
  "call_encodable (Send_command cmd deadline) = encodable cmd"
| "call_encodable (Send_commands cmds deadline) = list_all encodable cmds"
| "call_encodable (Read_file name timeout progress) = True"
| "call_encodable (Read_file_list type timeout progress) = True"
| "call_encodable (Write_file name data timeout progress) = True"
| "call_encodable (Delete_file name timeout) = True"

definition taken_only :: "'a outcome \<Rightarrow> bool" where
  "taken_only m \<longleftrightarrow> (\<forall>e. m = Throws e \<longrightarrow> (\<exists>rid. e = request_id_taken rid))"

lemma taken_only_Returns [simp]: "taken_only (Returns x)"
  by (simp add: taken_only_def)

lemma taken_only_obind [intro]:
  "taken_only m \<Longrightarrow> (\<And>x. m = Returns x \<Longrightarrow> taken_only (f x)) \<Longrightarrow> taken_only (obind m f)"
  by (cases m) (auto simp: taken_only_def)

lemma taken_only_register: "taken_only (registerHandler now rid h c)"
  by (auto simp: registerHandler_def taken_only_def request_id_taken_def split: option.splits)

lemma taken_only_sendCommand:
  assumes "encodable cmd"
  shows "taken_only (sendCommand now deadline h cmd client)"
proof -
  obtain buffer where "encode_command [] (client_request_id client) cmd = Returns buffer"
    using assms by (auto simp: encodable_def)
  then show ?thesis
    by (auto simp: sendCommand_def DeadlineSession_start_def CommandSession_new_def CommandSession_start_def
        allocateId_def intro!: taken_only_obind taken_only_register)
qed

lemma taken_only_sends:
  assumes "list_all encodable cmds"
  shows "taken_only (sendMultipleCommands now deadline h cmds client)"
proof -
  obtain ss client0 where i: "init_sessions cmds client = Returns (ss, client0)"
    and ns: "\<forall>s \<in> set ss. \<not> cs_started s"
    using init_sessions_ids [of cmds client] assms by (auto simp: encodable_def list_all_iff)
  from start_sessions_cases [OF ns, of now h 0 client0] show ?thesis
    by (auto simp: sendMultipleCommands_def DeadlineSession_start_def MultiCommandSession_new_def
        MultiCommandSession_start_def i taken_only_def)
qed

lemma taken_only_files:
  "taken_only (readFile now h name timeout progress c)"
  "taken_only (readFileList now h type timeout progress c)"
  "taken_only (writeFile now h name data timeout progress c)"
  by (auto simp: readFile_def readFileList_def impl_readFile_def ReadFileSession_start_def writeFile_def
      impl_writeFile_def WriteFileSession_start_def Let_def allocateId_def
      intro!: taken_only_obind taken_only_register)

lemma taken_only_add: "taken_only m \<Longrightarrow> taken_only (cls_add op resp m sys)"
  by (auto simp: cls_add_def)

lemma taken_only_call: "call_encodable call \<Longrightarrow> taken_only (cls_call now call sys)"
  by (cases call)
    (auto simp: deleteFile_def encodable_def
      intro!: taken_only_add taken_only_sendCommand taken_only_sends taken_only_files)

section \<open>Runs\<close>

lemma owned_close [simp]: "owned (close c) ops = owned c ops"
  by (simp add: owned_def close_def client_inv_def valid_token_def find_handler_def)

lemma cls_step_law:
  assumes owned: "owned (cls_client sys) (cls_ops sys)" and ok: "event_ok ev"
  shows "well_defined (cls_step now sys ev) \<and> (\<forall>r. cls_step now sys ev = Returns r \<longrightarrow> cls_law sys r)
    \<and> (\<forall>e. cls_step now sys ev = Throws e \<longrightarrow>
          (\<exists>call. ev = Call call \<and> (call_encodable call \<longrightarrow> (\<exists>rid. e = request_id_taken rid))))"
proof (cases ev)
  case (Call call)
  with cls_call_law [OF owned, of call now] taken_only_call [of call now sys] ok show ?thesis
    by (auto simp: taken_only_def)
next
  case (Datagram err msg)
  obtain as where as: "onReceive err msg (cls_client sys) = Some as" using receive_returns by blast
  from cls_actions_law [OF owned, of as] obtain sys' out where
    "cls_actions as sys = Returns (sys', out)" "cls_law sys (sys', out)" by blast
  with as Datagram show ?thesis by (simp add: of_read_def)
next
  case (Sent_of n i err)
  with cls_op_law [OF owned, of n "Op_sent i err"] show ?thesis by auto
next
  case (Ack_sent_of n err)
  with cls_op_law [OF owned, of n "Op_ack_sent err"] show ?thesis by auto
next
  case (Timer_of n err)
  with cls_op_law [OF owned, of n "Op_timer err"] show ?thesis by auto
next
  case Close
  with owned show ?thesis by (simp add: cls_law_def)
qed

lemma cls_run_law:
  "owned (cls_client sys) (cls_ops sys) \<Longrightarrow> \<forall>(now, ev) \<in> set evs. event_ok ev \<Longrightarrow>
   well_defined (cls_run sys evs) \<and> (\<forall>r. cls_run sys evs = Returns r \<longrightarrow> cls_law sys r)
   \<and> (\<forall>e. cls_run sys evs = Throws e \<longrightarrow> (\<exists>now call. (now, Call call) \<in> set evs
        \<and> (call_encodable call \<longrightarrow> (\<exists>rid. e = request_id_taken rid))))"
proof (induction evs arbitrary: sys)
  case Nil
  then show ?case by (simp add: cls_law_same)
next
  case (Cons x evs)
  obtain now ev where x: "x = (now, ev)" by (cases x)
  have "event_ok ev" using Cons.prems(2) x by simp
  note law = cls_step_law [OF Cons.prems(1) this, of now]
  show ?case
  proof (cases "cls_step now sys ev")
    case (Returns r)
    then obtain sys1 out1 where st: "cls_step now sys ev = Returns (sys1, out1)" by (cases r) auto
    with law have l: "cls_law sys (sys1, out1)" by simp
    then have "owned (cls_client sys1) (cls_ops sys1)" by (simp add: cls_law_def)
    note IH = Cons.IH [OF this] Cons.prems(2)
    show ?thesis
    proof (cases "cls_run sys1 evs")
      case (Returns r')
      with IH st cls_law_seq [OF l] show ?thesis by (cases r') (simp add: x)
    qed (use IH st in \<open>auto simp: x well_defined_def\<close>)
  next
    case (Throws e)
    with law show ?thesis by (auto simp: x)
  qed (use law in \<open>auto simp: x well_defined_def\<close>)
qed

lemma cls_new_owned: "owned (cls_client (cls_new handler)) (cls_ops (cls_new handler))"
  by (simp add: cls_new_def owned_def all_tokens_def client_inv_def new_Client_def find_handler_def)

lemma results_of_new: "results_of (cls_ops (cls_new handler)) m = 0"
  by (simp add: cls_new_def results_of_def)

lemma cls_effects_ops: "cls_effects n es sys = Returns (sys', out) \<Longrightarrow> cls_ops sys' = cls_ops sys"
  by (induction n es sys arbitrary: out rule: cls_effects.induct) fastforce+

lemma cls_timer_done:
  assumes "owned (cls_client sys) (cls_ops sys)" "n < length (cls_ops sys)" "err \<noteq> operation_aborted"
    and "cls_step now sys (Timer_of n err) = Returns (sys', out)"
  shows "results_of (cls_ops sys') n = 1"
proof -
  obtain op es where st: "op_step (cls_ops sys ! n) (Op_timer err) = Returns (op, es)"
    and e: "cls_effects n es (sys\<lparr>cls_ops := (cls_ops sys)[n := op]\<rparr>) = Returns (sys', out)"
    using assms(2,4) by (auto simp: cls_op_def)
  have "op_ok (cls_ops sys ! n)" using assms(1,2) by (simp add: owned_def)
  from op_timer_done [OF this st assms(3)] cls_effects_ops [OF e] assms(2) show ?thesis
    by (simp add: results_of_def)
qed

section \<open>Properties\<close>





end
