(* ===== verification/Hosting.thy ===== *)
theory Hosting
  imports Client_System "HOL-Library.Sublist"
begin

text \<open>
  Programs on top of the client.  A program keeps with every operation it has open what its callback is
  for, and a callback may open other operations.  The state of a program is an extension of the record
  \<open>host\<close>.  The locale \<open>hosting\<close> is a contract for the callbacks of a program: an account that every callback
  keeps is kept by every run, together with the invariant of the client.  The RPC server and the
  programs in \<open>src/tools\<close> that test the controller are interpreted in it.
\<close>

section \<open>The host\<close>

record 'p host =
  host_cls :: client_system
  host_purposes :: "'p list"

type_synonym ('p, 'm, 'o) host_step = "(('p, 'm) host_scheme \<times> 'o list) outcome"

text \<open>A call of the client that opens an operation.  What the client does is an output, by way of \<open>wrap\<close>.\<close>

definition host_open ::
    "(cls_output \<Rightarrow> 'o) \<Rightarrow> 'p \<Rightarrow> (client_system \<Rightarrow> (client_system \<times> cls_output list) outcome)
     \<Rightarrow> ('p, 'm) host_scheme \<Rightarrow> ('p, 'm, 'o) host_step" where
  "host_open wrap p f sys = obind (f (host_cls sys)) (\<lambda>(cls, out).
     Returns (sys\<lparr>host_cls := cls, host_purposes := host_purposes sys @ [p]\<rparr>, map wrap out))"

text \<open>
  What the client does in a step.  A callback comes after the removal of the handlers of its operation, and
  nothing of the client comes after it, so that it can be run when the step of the client is over.
\<close>

fun host_outputs ::
    "(cls_output \<Rightarrow> 'o) \<Rightarrow> ('p \<Rightarrow> op_response result \<Rightarrow> ('p, 'm) host_scheme \<Rightarrow> ('p, 'm, 'o) host_step)
     \<Rightarrow> cls_output list \<Rightarrow> ('p, 'm) host_scheme \<Rightarrow> ('p, 'm, 'o) host_step" where
  "host_outputs wrap cb [] sys = Returns (sys, [])"
| "host_outputs wrap cb (Op_output n (Complete r) # out) sys = and_then (and_then
     (put (wrap (Op_output n (Complete r))) sys)
     (\<lambda>sys. if n < length (host_purposes sys) then cb (host_purposes sys ! n) r sys else Undefined))
     (host_outputs wrap cb out)"
| "host_outputs wrap cb (x # out) sys = and_then (put (wrap x) sys) (host_outputs wrap cb out)"

definition host_client ::
    "(cls_output \<Rightarrow> 'o) \<Rightarrow> ('p \<Rightarrow> op_response result \<Rightarrow> ('p, 'm) host_scheme \<Rightarrow> ('p, 'm, 'o) host_step)
     \<Rightarrow> int \<Rightarrow> cls_event \<Rightarrow> ('p, 'm) host_scheme \<Rightarrow> ('p, 'm, 'o) host_step" where
  "host_client wrap cb now ev sys =
     obind (cls_step now (host_cls sys) ev) (\<lambda>(cls, out). host_outputs wrap cb out (sys\<lparr>host_cls := cls\<rparr>))"

section \<open>Results\<close>

text \<open>The results that are in the outputs of the client.\<close>

fun completed_ops :: "cls_output list \<Rightarrow> (nat \<times> op_response result) list" where
  "completed_ops [] = []"
| "completed_ops (Op_output n (Complete r) # out) = (n, r) # completed_ops out"
| "completed_ops (x # out) = completed_ops out"

lemma completed_ops_append [simp]: "completed_ops (a @ b) = completed_ops a @ completed_ops b"
  by (induction a rule: completed_ops.induct) auto

lemma completed_ops_started: "completions es = [] \<Longrightarrow> completed_ops (map (\<lambda>e. Op_output n (map_effect resp e)) es) = []"
  by (induction es rule: completions.induct) auto

lemma op_results_completed: "op_results n out = map snd (filter (\<lambda>x. fst x = n) (completed_ops out))"
  by (induction n out rule: op_results.induct) auto

lemma completed_ops_single:
  "completed_ops out = [(n, r)] \<Longrightarrow>
   \<exists>a b. out = a @ Op_output n (Complete r) # b \<and> completed_ops a = [] \<and> completed_ops b = []"
proof (induction out rule: completed_ops.induct)
  case (2 m r' out)
  then show ?case by (intro exI [of _ "[]"] exI [of _ out]) simp
qed (simp, (fastforce intro: exI [of _ "_ # _"])+)

section \<open>Opening operations\<close>

text \<open>What a call that opens an operation does.\<close>

definition opens :: "(operation \<Rightarrow> bool) \<Rightarrow> client_system \<Rightarrow> (client_system \<times> cls_output list) outcome \<Rightarrow> bool" where
  "opens good cls m \<longleftrightarrow>
     (\<exists>client' op out. m = Returns (\<lparr>cls_client = client', cls_ops = cls_ops cls @ [op]\<rparr>, out)
        \<and> owned client' (cls_ops cls @ [op]) \<and> \<not> op_done op \<and> good op \<and> completed_ops out = [])
     \<or> (\<exists>rid. m = Throws (request_id_taken rid))"

lemma opens_add:
  assumes owned: "owned (cls_client cls) (cls_ops cls)" and m: "well_defined m" "taken_only m"
    and new: "\<And>s client' es. m = Returns ((s, client'), es) \<Longrightarrow>
      op_started (length (cls_ops cls)) (cls_client cls) client' (op s) \<and> completions es = [] \<and> good (op s)"
  shows "opens good cls (cls_add op resp m cls)"
proof (cases m)
  case (Returns x)
  obtain s client' es where x: "x = ((s, client'), es)" by (cases x) auto
  note n = new [OF Returns [unfolded x]]
  with op_started_owned [OF owned] show ?thesis
    by (simp add: opens_def cls_add_def Returns x op_started_def completed_ops_started)
qed (use m in \<open>auto simp: opens_def cls_add_def well_defined_def taken_only_def\<close>)

lemma encodable_ok: "encodable cmd \<Longrightarrow> command_ok cmd"
  unfolding encodable_def command_ok_def by (metis well_defined_simps(1))

lemma opens_command:
  assumes owned: "owned (cls_client cls) (cls_ops cls)" and e: "encodable cmd"
    and good: "\<And>s. cs_command s = cmd \<Longrightarrow> good (Command_op s)"
  shows "opens good cls (cls_call now (Send_command cmd deadline) cls)"
proof -
  have inv: "client_inv (cls_client cls)" using owned by (simp add: owned_def)
  show ?thesis
    unfolding cls_call.simps client_send_defs
    by (rule opens_add [OF owned well_defined_sendCommand [OF encodable_ok [OF e]] taken_only_sendCommand [OF e]])
      (metis sendCommand_session(8) [OF _ inv] good sendCommand_started [OF inv])
qed

lemma opens_commands:
  assumes owned: "owned (cls_client cls) (cls_ops cls)" and e: "list_all encodable cmds"
    and good: "\<And>m. map cs_command (mcs_sessions m) = cmds \<Longrightarrow> good (Commands_op m)"
  shows "opens good cls (cls_call now (Send_commands cmds deadline) cls)"
proof -
  have inv: "client_inv (cls_client cls)" using owned by (simp add: owned_def)
  have ok: "list_all command_ok cmds" using e encodable_ok by (auto simp: list_all_iff)
  show ?thesis
    unfolding cls_call.simps client_sends_defs
    by (rule opens_add [OF owned well_defined_sends [OF ok] taken_only_sends [OF e]])
      (metis sendMultipleCommands_session(3) [OF _ inv] good sendMultipleCommands_started [OF inv])
qed

lemma opens_call:
  assumes owned: "owned (cls_client cls) (cls_ops cls)" and e: "call_ok call" "call_encodable call"
  shows "opens (\<lambda>op. True) cls (cls_call now call cls)"
proof -
  have inv: "client_inv (cls_client cls)" using owned by (simp add: owned_def)
  show ?thesis
  proof (cases call)
    case (Send_command cmd deadline)
    with e opens_command [OF owned] show ?thesis by simp
  next
    case (Send_commands cmds deadline)
    with e opens_commands [OF owned] show ?thesis by simp
  next
    case (Read_file name timeout progress)
    show ?thesis
      unfolding Read_file cls_call.simps
      by (rule opens_add [OF owned well_defined_readFile taken_only_files(1)])
        (use readFile_started [OF inv] in blast)
  next
    case (Write_file name data timeout progress)
    show ?thesis
      unfolding Write_file cls_call.simps
      by (rule opens_add [OF owned well_defined_writeFile taken_only_files(3)])
        (use writeFile_started [OF inv] in blast)
  next
    case (Delete_file name timeout)
    have "encodable (DeleteFile \<lparr>df_name = name\<rparr>)" by (simp add: encodable_def)
    with opens_command [OF owned, of _ "\<lambda>op. True" now "now + timeout"] Delete_file show ?thesis
      by (simp add: deleteFile_def)
  qed (use e in simp)
qed

section \<open>Results of a step\<close>

lemma cls_effects_completed:
  "cls_effects n es cls = Returns (cls', out) \<Longrightarrow> completed_ops out = map (Pair n) (completions es)"
  by (induction n es cls arbitrary: out rule: cls_effects.induct) fastforce+

text \<open>One command keeps its command, several keep theirs, and their results answer them.\<close>

lemma command_step_fits:
  assumes ok: "CommandSession_ok s" and st: "op_step (Command_op s) ev = Returns (op', es)"
  shows "\<exists>s'. op' = Command_op s' \<and> cs_command s' = cs_command s
    \<and> (\<forall>r \<in> set (completions es). \<exists>r0. r = map_sum id Response_of r0 \<and> sound_answer (cs_command s) r0)"
proof (cases "command_event ev")
  case None
  with st show ?thesis by (auto simp: lift_step_def)
next
  case (Some e)
  then obtain s' fs where
    d: "deadline_step CommandSession_step (\<lambda>e. CommandSession_resolve (Inl e)) s e = Returns (s', fs)"
    and "op' = Command_op s'" "es = map (map_effect Response_of) fs"
    using st by (auto simp: lift_step_def)
  with CommandSession_deadline_cases [OF ok d] show ?thesis by auto
qed

lemma commands_step_fits:
  assumes ok: "multi_ok m" and st: "op_step (Commands_op m) ev = Returns (op', es)"
  shows "\<exists>m'. op' = Commands_op m' \<and> map cs_command (mcs_sessions m') = map cs_command (mcs_sessions m)
    \<and> (\<forall>r \<in> set (completions es). \<exists>r0. r = map_sum id Responses_of r0 \<and> (\<forall>rs. r0 = Inr rs \<longrightarrow>
          (\<exists>vs. rs = map Some vs \<and> list_all2 response_fits (map cs_command (mcs_sessions m)) vs)))"
proof (cases "commands_event ev")
  case None
  with st show ?thesis by (auto simp: lift_step_def)
next
  case (Some e)
  then obtain m' fs where
    d: "deadline_step MultiCommandSession_step MultiCommandSession_resolve m e = Returns (m', fs)"
    and "op' = Commands_op m'" "es = map (map_effect Responses_of) fs"
    using st by (auto simp: lift_step_def)
  moreover have "\<exists>vs. rs = map Some vs \<and> list_all2 response_fits (map cs_command (mcs_sessions m)) vs"
    if "Inr rs \<in> set (completions fs)" for rs
    using multi_deadline_law [OF ok d] given_responses [of "mcs_sessions m" rs] that by blast
  ultimately show ?thesis using multi_deadline_law [OF ok d] by auto
qed

section \<open>The load of the open operations\<close>

definition open_load :: "('p \<Rightarrow> int) \<Rightarrow> operation list \<Rightarrow> 'p list \<Rightarrow> int" where
  "open_load load ops ps = sum_list (map (\<lambda>(op, p). if op_done op then 0 else load p) (zip ops ps))"

lemma open_load_append:
  "length ops = length ps \<Longrightarrow>
   open_load load (ops @ [op]) (ps @ [p]) = open_load load ops ps + (if op_done op then 0 else load p)"
  by (simp add: open_load_def)

lemma open_load_Cons:
  "open_load load (op # ops) (p # ps) = (if op_done op then 0 else load p) + open_load load ops ps"
  by (simp add: open_load_def)

lemma open_load_update:
  "length ops = length ps \<Longrightarrow> n < length ops \<Longrightarrow>
   open_load load (ops[n := op]) ps + (if op_done (ops ! n) then 0 else load (ps ! n))
   = open_load load ops ps + (if op_done op then 0 else load (ps ! n))"
proof (induction ops ps arbitrary: n rule: list_induct2)
  case (Cons x xs y ys)
  show ?case
  proof (cases n)
    case (Suc k)
    with Cons.IH [of k] Cons.prems show ?thesis by (auto simp: open_load_Cons split: if_splits)
  qed (simp add: open_load_Cons)
qed simp

text \<open>A load is a count of open operations, up to a factor.\<close>

definition open_count :: "('p \<Rightarrow> bool) \<Rightarrow> ('p, 'm) host_scheme \<Rightarrow> nat" where
  "open_count P sys = length (filter (\<lambda>(op, p). \<not> op_done op \<and> P p) (zip (cls_ops (host_cls sys)) (host_purposes sys)))"

lemma sum_list_count:
  "sum_list (map (\<lambda>(op, p). if f op then 0 else k * of_bool (P p)) xs)
    = k * int (length (filter (\<lambda>(op, p). \<not> f op \<and> P p) xs))"
  by (induction xs) (auto simp: algebra_simps split: if_splits)

lemma open_load_count:
  "open_load (\<lambda>p. k * of_bool (P p)) (cls_ops (host_cls sys)) (host_purposes sys) = k * int (open_count P sys)"
  "open_load (\<lambda>p. of_bool (P p)) (cls_ops (host_cls sys)) (host_purposes sys) = int (open_count P sys)"
  unfolding open_load_def open_count_def
  using sum_list_count [of op_done k P] sum_list_count [of op_done 1 P, unfolded mult_1] by simp_all

definition result_load :: "('p \<Rightarrow> int) \<Rightarrow> 'p list \<Rightarrow> (nat \<times> op_response result) list \<Rightarrow> int" where
  "result_load load ps rs = (\<Sum>(n, r) \<leftarrow> rs. load (ps ! n))"

lemma result_load_simps [simp]:
  "result_load load ps [] = 0"
  "result_load load ps (x # rs) = load (ps ! fst x) + result_load load ps rs"
  "result_load load ps (rs @ rs') = result_load load ps rs + result_load load ps rs'"
  by (simp_all add: result_load_def case_prod_unfold)

definition total :: "('o \<Rightarrow> int) \<Rightarrow> 'o list \<Rightarrow> int" where
  "total weigh out = sum_list (map weigh out)"

lemma total_simps [simp]:
  "total weigh [] = 0"
  "total weigh (x # out) = weigh x + total weigh out"
  "total weigh (out @ out') = total weigh out + total weigh out'"
  by (simp_all add: total_def)

section \<open>At most one callback\<close>

lemma cls_op_completed:
  assumes owned: "owned (cls_client cls) (cls_ops cls)" and e: "cls_op n ev cls = Returns (cls', out)"
  shows "length (completed_ops out) \<le> 1"
proof (cases "n < length (cls_ops cls)")
  case True
  with e obtain op es where st: "op_step (cls_ops cls ! n) ev = Returns (op, es)"
    and f: "cls_effects n es (cls\<lparr>cls_ops := (cls_ops cls)[n := op]\<rparr>) = Returns (cls', out)"
    by (auto simp: cls_op_def)
  have "op_ok (cls_ops cls ! n)" using owned True by (simp add: owned_def)
  from operation.step_law [OF this, of ev] st have "length (completions es) \<le> 1"
    by (auto simp: session_law_def)
  then show ?thesis by (simp add: cls_effects_completed [OF f])
qed (use e in \<open>simp add: cls_op_def\<close>)

text \<open>A datagram goes to one handler at most.\<close>

lemma onReceive_shape:
  assumes "onReceive err msg client = Some as"
  shows "(\<exists>h hdr data. as = [Invoke h hdr data, Receive])
    \<or> (\<forall>cls. \<exists>out. cls_actions as cls = Returns (cls, out) \<and> completed_ops out = [])"
  using assms
  by (auto simp: onReceive_def report_def Let_def simp del: split_paired_Ex split_paired_All
    split: if_splits sum.splits option.splits Option.bind_splits)

lemma cls_step_completed:
  assumes owned: "owned (cls_client cls) (cls_ops cls)" and e: "cls_step now cls ev = Returns (cls', out)"
    and c: "\<And>call. ev \<noteq> Call call"
  shows "length (completed_ops out) \<le> 1"
proof (cases ev)
  case (Datagram err msg)
  with e obtain as where as: "onReceive err msg (cls_client cls) = Some as"
    and a: "cls_actions as cls = Returns (cls', out)" by (auto simp: of_read_def split: option.splits)
  from onReceive_shape [OF as] show ?thesis
  proof (elim disjE exE)
    fix h hdr data
    assume "as = [Invoke h hdr data, Receive]"
    moreover obtain n i where "h = (n, i)" by (cases h)
    ultimately obtain cls1 where "cls_op n (Op_reply i hdr data) cls = Returns (cls1, out)" using a by auto
    with cls_op_completed [OF owned] show ?thesis by blast
  next
    assume "\<forall>cls. \<exists>out. cls_actions as cls = Returns (cls, out) \<and> completed_ops out = []"
    then obtain out' where "cls_actions as cls = Returns (cls, out')" "completed_ops out' = []" by blast
    with a show ?thesis by simp
  qed
qed (use e c cls_op_completed [OF owned] in \<open>auto\<close>)

text \<open>What a step of the client does to a program that has one callback to run, or none.\<close>

lemma host_outputs_none: "completed_ops out = [] \<Longrightarrow> host_outputs wrap cb out sys = Returns (sys, map wrap out)"
  by (induction out rule: completed_ops.induct) (simp_all add: put_def)

lemma host_outputs_single:
  assumes "completed_ops out = [(n, r)]" "n < length (host_purposes sys)"
  shows "\<exists>a b. out = a @ Op_output n (Complete r) # b \<and> completed_ops a = [] \<and> completed_ops b = []
    \<and> host_outputs wrap cb out sys = obind (cb (host_purposes sys ! n) r sys) (\<lambda>(sys', out').
        Returns (sys', map wrap a @ wrap (Op_output n (Complete r)) # out' @ map wrap b))"
proof -
  obtain a b where out: "out = a @ Op_output n (Complete r) # b" and a: "completed_ops a = []"
    and b: "completed_ops b = []" using completed_ops_single [OF assms(1)] by blast
  have "host_outputs wrap cb (a @ c) sys = obind (host_outputs wrap cb c sys) (\<lambda>(sys', out').
      Returns (sys', map wrap a @ out'))" for c
    using a by (induction a rule: completed_ops.induct)
      (simp_all add: put_def obind_assoc case_prod_unfold, (cases "host_outputs wrap cb c sys"; simp)+)
  with assms(2) b have "host_outputs wrap cb out sys = obind (cb (host_purposes sys ! n) r sys) (\<lambda>(sys', out').
      Returns (sys', map wrap a @ wrap (Op_output n (Complete r)) # out' @ map wrap b))"
    by (simp add: out put_def and_then_def obind_assoc case_prod_unfold host_outputs_none)
  with out a b show ?thesis by blast
qed

section \<open>The contract of a program\<close>

text \<open>
  \<open>good\<close> relates an operation to what its callback is for, \<open>fits\<close> a result; \<open>extra\<close> is an invariant of the
  rest of the state, with the number of events it still has to last for.  An account weighs the outputs, gives a
  load to the open operations and a worth to the state; its credit stays in \<open>bounded\<close>.  A part of a step
  may raise the exceptions \<open>raises\<close>.
\<close>

locale hosting =
  fixes wrap :: "cls_output \<Rightarrow> 'o"
    and good :: "operation \<Rightarrow> 'p \<Rightarrow> bool"
    and fits :: "'p \<Rightarrow> op_response result \<Rightarrow> bool"
    and extra :: "nat \<Rightarrow> ('p, 'm) host_scheme \<Rightarrow> bool"
    and worth :: "('p, 'm) host_scheme \<Rightarrow> int"
    and weigh :: "'o \<Rightarrow> int"
    and load :: "'p \<Rightarrow> int"
    and bounded :: "int \<Rightarrow> bool"
    and raises :: "exn \<Rightarrow> bool"
  assumes step_fits: "good op p \<Longrightarrow> op_ok op \<Longrightarrow> op_step op ev = Returns (op', es) \<Longrightarrow>
      good op' p \<and> (\<forall>r \<in> set (completions es). fits p r)"
    and rest: "extra n (sys\<lparr>host_cls := c\<rparr>) = extra n sys" "extra n (sys\<lparr>host_purposes := ps\<rparr>) = extra n sys"
      "worth (sys\<lparr>host_cls := c\<rparr>) = worth sys" "worth (sys\<lparr>host_purposes := ps\<rparr>) = worth sys"
    and lasts: "extra (Suc n) sys \<Longrightarrow> extra n sys"
    and free: "weigh (wrap x) = 0"
    and released: "bounded b \<Longrightarrow> bounded (b + load p)"
begin

definition credit :: "('p, 'm) host_scheme \<Rightarrow> int" where
  "credit sys = worth sys - open_load load (cls_ops (host_cls sys)) (host_purposes sys)"

definition inv :: "nat \<Rightarrow> ('p, 'm) host_scheme \<Rightarrow> bool" where
  "inv n sys \<longleftrightarrow> extra n sys \<and> owned (cls_client (host_cls sys)) (cls_ops (host_cls sys))
     \<and> list_all2 good (cls_ops (host_cls sys)) (host_purposes sys) \<and> bounded (credit sys)"

text \<open>
  What every part of a step does: it returns with the invariant, and the weight of its outputs is at
  most \<open>d\<close> more than the credit grows, or it raises one of the exceptions.
\<close>

definition ok :: "nat \<Rightarrow> int \<Rightarrow> ('p, 'm) host_scheme \<Rightarrow> ('p, 'm, 'o) host_step \<Rightarrow> bool" where
  "ok n d sys m \<longleftrightarrow>
     (\<exists>sys' out. m = Returns (sys', out) \<and> inv n sys' \<and> total weigh out + credit sys \<le> credit sys' + d)
     \<or> (\<exists>e. m = Throws e \<and> raises e)"

lemma inv_lasts: "inv (Suc n) sys \<Longrightarrow> inv n sys"
  using lasts by (simp add: inv_def)

lemma ok_lasts: "ok (Suc n) d sys m \<Longrightarrow> ok n d sys m"
  using inv_lasts by (auto simp: ok_def)

lemma ok_idle: "inv n sys \<Longrightarrow> ok n 0 sys (Returns (sys, []))"
  by (simp add: ok_def)

lemma ok_put: "inv n sys \<Longrightarrow> ok n (weigh x) sys (put x sys)"
  by (simp add: ok_def put_def)

lemma ok_from: "ok n d' sys' m \<Longrightarrow> d' + credit sys \<le> d + credit sys' \<Longrightarrow> ok n d sys m"
  unfolding ok_def by (elim disjE exE conjE) force+

lemma ok_then:
  assumes m: "ok n d sys m" and g: "\<And>sys'. inv n sys' \<Longrightarrow> ok k d' sys' (g sys')"
  shows "ok k (d + d') sys (and_then m g)"
  using m unfolding ok_def [of n d]
proof (elim disjE exE conjE)
  fix sys1 out
  assume "m = Returns (sys1, out)" and i: "inv n sys1" and "total weigh out + credit sys \<le> credit sys1 + d"
  with g [OF i] show ?thesis
    unfolding ok_def by (elim disjE exE conjE) force+
qed (auto simp: ok_def)

lemma ok_after_put: "ok n d sys (g sys) \<Longrightarrow> ok n (weigh x + d) sys (and_then (put x sys) g)"
  unfolding ok_def put_def by (elim disjE exE conjE) auto

lemma ok_after_wrap: "ok n d sys (g sys) \<Longrightarrow> ok n d sys (and_then (put (wrap x) sys) g)"
  using ok_after_put [of n d sys g "wrap x"] by (simp add: free)

lemma total_wrap [simp]: "total weigh (map wrap out) = 0"
  by (induction out) (simp_all add: free)

lemma ok_open:
  assumes inv: "inv n sys" and o: "opens (\<lambda>op. good op p) (host_cls sys) (f (host_cls sys))"
    and b: "bounded (credit sys - load p)" and r: "\<And>e. f (host_cls sys) = Throws e \<Longrightarrow> raises e"
  shows "ok n (load p) sys (host_open wrap p f sys)"
  using o unfolding opens_def
proof (elim disjE exE conjE)
  fix client' op out
  assume f: "f (host_cls sys) = Returns (\<lparr>cls_client = client', cls_ops = cls_ops (host_cls sys) @ [op]\<rparr>, out)"
    and new: "owned client' (cls_ops (host_cls sys) @ [op])" "\<not> op_done op" "good op p"
  have ps: "list_all2 good (cls_ops (host_cls sys)) (host_purposes sys)" using inv by (simp add: inv_def)
  have "open_load load (cls_ops (host_cls sys) @ [op]) (host_purposes sys @ [p])
      = open_load load (cls_ops (host_cls sys)) (host_purposes sys) + load p"
    using open_load_append [OF list_all2_lengthD [OF ps]] new by simp
  then show ?thesis
    using f new inv b ps
    by (simp add: host_open_def ok_def inv_def credit_def rest list_all2_appendI diff_diff_eq)
qed (use r in \<open>auto simp: host_open_def ok_def\<close>)

subsection \<open>Steps of the client\<close>

definition results_fit :: "'p list \<Rightarrow> (nat \<times> op_response result) list \<Rightarrow> bool" where
  "results_fit ps rs \<longleftrightarrow> (\<forall>(n, r) \<in> set rs. n < length ps \<and> fits (ps ! n) r)"

definition kept :: "'p list \<Rightarrow> client_system \<Rightarrow> client_system \<times> cls_output list \<Rightarrow> bool" where
  "kept ps cls = (\<lambda>(cls', out). owned (cls_client cls') (cls_ops cls')
     \<and> list_all2 good (cls_ops cls') ps \<and> results_fit ps (completed_ops out)
     \<and> open_load load (cls_ops cls') ps + result_load load ps (completed_ops out) = open_load load (cls_ops cls) ps)"

lemma kept_same:
  "owned (cls_client cls) (cls_ops cls) \<Longrightarrow> list_all2 good (cls_ops cls) ps \<Longrightarrow> kept ps cls (cls, [])"
  by (simp add: kept_def results_fit_def)

lemma kept_seq: "kept ps cls (cls1, out) \<Longrightarrow> kept ps cls1 (cls', out') \<Longrightarrow> kept ps cls (cls', out @ out')"
  by (auto simp: kept_def results_fit_def)

lemma cls_op_kept:
  assumes owned: "owned (cls_client cls) (cls_ops cls)" and ps: "list_all2 good (cls_ops cls) ps"
  shows "\<exists>cls' out. cls_op n ev cls = Returns (cls', out) \<and> kept ps cls (cls', out)"
proof -
  from cls_op_law [OF owned, of n ev] obtain cls' out where
    r: "cls_op n ev cls = Returns (cls', out)" and l: "cls_law cls (cls', out)" by blast
  show ?thesis
  proof (cases "n < length (cls_ops cls)")
    case False
    with r kept_same [OF owned ps] show ?thesis by (simp add: cls_op_def)
  next
    case True
    then obtain op es where st: "op_step (cls_ops cls ! n) ev = Returns (op, es)"
      and e: "cls_effects n es (cls\<lparr>cls_ops := (cls_ops cls)[n := op]\<rparr>) = Returns (cls', out)"
      using r by (auto simp: cls_op_def)
    have len: "length (cls_ops cls) = length ps" using ps by (rule list_all2_lengthD)
    have ok: "op_ok (cls_ops cls ! n)" using owned True by (simp add: owned_def)
    have "good (cls_ops cls ! n) (ps ! n)" using ps True by (rule list_all2_nthD)
    note fit = step_fits [OF this ok st]
    from operation.step_law [OF ok, of ev] st have once:
      "op_done (cls_ops cls ! n) \<longrightarrow> op_done op \<and> completions es = []"
      "\<not> op_done (cls_ops cls ! n) \<longrightarrow> length (completions es) = of_bool (op_done op)"
      by (auto simp: session_law_def)
    have c: "completed_ops out = map (Pair n) (completions es)" by (rule cls_effects_completed [OF e])
    have ops: "cls_ops cls' = (cls_ops cls)[n := op]" using cls_effects_ops [OF e] by simp
    have "list_all2 good (cls_ops cls') ps"
      using list_all2_update_cong [OF ps, of op "ps ! n" n] fit by (simp add: ops)
    moreover have "results_fit ps (completed_ops out)"
      using fit True len by (auto simp: results_fit_def c)
    moreover have "open_load load (cls_ops cls') ps + result_load load ps (completed_ops out)
        = open_load load (cls_ops cls) ps"
      using open_load_update [OF len True, of load op] once
      by (cases "completions es"; cases "op_done op"; cases "op_done (cls_ops cls ! n)") (auto simp: ops c)
    ultimately show ?thesis using r l by (simp add: kept_def cls_law_def)
  qed
qed

lemma cls_actions_kept:
  "owned (cls_client cls) (cls_ops cls) \<Longrightarrow> list_all2 good (cls_ops cls) ps \<Longrightarrow>
   \<exists>cls' out. cls_actions as cls = Returns (cls', out) \<and> kept ps cls (cls', out)"
proof (induction as cls rule: cls_actions.induct)
  case (1 cls)
  then show ?case by (simp add: kept_same)
next
  case (2 e as cls)
  then obtain cls' out where "cls_actions as cls = Returns (cls', out)" "kept ps cls (cls', out)" by blast
  then show ?case by (simp add: kept_def)
next
  case (3 n i header data as cls)
  from cls_op_kept [OF 3(2,3)] obtain cls1 out where
    st: "cls_op n (Op_reply i header data) cls = Returns (cls1, out)" and k: "kept ps cls (cls1, out)" by blast
  from k have "owned (cls_client cls1) (cls_ops cls1)" "list_all2 good (cls_ops cls1) ps"
    by (simp_all add: kept_def)
  from 3(1) [OF this] obtain cls' out' where
    "cls_actions as cls1 = Returns (cls', out')" "kept ps cls1 (cls', out')" by blast
  with st kept_seq [OF k] show ?case by auto
qed auto

lemma cls_step_kept:
  assumes "owned (cls_client cls) (cls_ops cls)" "list_all2 good (cls_ops cls) ps"
    and "\<And>call. ev \<noteq> Call call"
  shows "\<exists>cls' out. cls_step now cls ev = Returns (cls', out) \<and> kept ps cls (cls', out)"
proof (cases ev)
  case (Datagram err msg)
  obtain as where "onReceive err msg (cls_client cls) = Some as" using receive_returns by blast
  with Datagram cls_actions_kept [OF assms(1,2), of as] show ?thesis by (simp add: of_read_def)
next
  case Close
  with assms show ?thesis by (simp add: kept_def results_fit_def)
qed (use assms cls_op_kept [OF assms(1,2)] in simp_all)

text \<open>The callback runs when its operation is closed, with what its load has left.\<close>

lemma client_event_ok:
  assumes inv: "inv (Suc n) sys" and c: "\<And>call. ev \<noteq> Call call"
    and cb: "\<And>p sys r. inv (Suc n) sys \<Longrightarrow> fits p r \<Longrightarrow> bounded (credit sys - load p) \<Longrightarrow>
      ok n (load p) sys (cb p r sys)"
  shows "ok n 0 sys (host_client wrap cb now ev sys)"
proof -
  have o: "owned (cls_client (host_cls sys)) (cls_ops (host_cls sys))"
    and ps: "list_all2 good (cls_ops (host_cls sys)) (host_purposes sys)"
    using inv by (simp_all add: inv_def)
  from cls_step_kept [OF o ps c, of now] obtain cls out where
    st: "cls_step now (host_cls sys) ev = Returns (cls, out)"
    and k: "kept (host_purposes sys) (host_cls sys) (cls, out)" by blast
  let ?sys = "sys\<lparr>host_cls := cls\<rparr>" and ?load = "result_load load (host_purposes sys) (completed_ops out)"
  have credit: "credit ?sys = credit sys + ?load" using k by (simp add: credit_def rest kept_def)
  have fit: "results_fit (host_purposes sys) (completed_ops out)" using k by (simp add: kept_def)
  have bounded: "bounded (credit sys)" using inv by (simp add: inv_def)
  have "length (completed_ops out) \<le> 1" by (rule cls_step_completed [OF o st c])
  then consider "completed_ops out = []" | m r where "completed_ops out = [(m, r)]"
    by (cases "completed_ops out") auto
  then have "ok n ?load ?sys (host_outputs wrap cb out ?sys)"
  proof cases
    case 1
    with inv k credit have "inv n ?sys" using lasts by (simp add: inv_def rest kept_def)
    with 1 show ?thesis by (simp add: host_outputs_none ok_def)
  next
    case 2
    let ?p = "host_purposes sys ! m"
    from 2 fit have m: "m < length (host_purposes sys)" "fits ?p r" by (simp_all add: results_fit_def)
    have "inv (Suc n) ?sys" using inv k credit 2 released [OF bounded] by (simp add: inv_def rest kept_def)
    then have ok: "ok n (load ?p) ?sys (cb ?p r ?sys)"
      by (rule cb [OF _ m(2)]) (use bounded credit 2 in simp)
    from host_outputs_single [OF 2, of ?sys wrap cb] m(1) obtain a b where
      "host_outputs wrap cb out ?sys = obind (cb ?p r ?sys) (\<lambda>(sys', out').
        Returns (sys', map wrap a @ wrap (Op_output m (Complete r)) # out' @ map wrap b))" by auto
    with ok 2 show ?thesis unfolding ok_def by (elim disjE exE conjE) (simp_all add: free)
  qed
  then have "ok n 0 sys (host_outputs wrap cb out ?sys)" by (rule ok_from) (simp add: credit)
  with st show ?thesis by (simp add: host_client_def)
qed

subsection \<open>Runs\<close>

lemma run_ok:
  fixes f :: "('p, 'm) host_scheme \<Rightarrow> 'e \<Rightarrow> ('p, 'm, 'o) host_step"
  assumes "\<And>n sys e. inv (Suc n) sys \<Longrightarrow> allowed e \<Longrightarrow> ok n (cost e) sys (f sys e)"
  shows "inv (n + length evs) sys \<Longrightarrow> \<forall>e \<in> set evs. allowed e \<Longrightarrow>
    ok n (\<Sum>e \<leftarrow> evs. cost e) sys (run_machine f sys evs)"
proof (induction evs arbitrary: sys)
  case Nil
  then show ?case by (simp add: ok_idle)
next
  case (Cons e evs)
  from Cons.prems have "ok (n + length evs) (cost e) sys (f sys e)" by (simp add: assms)
  from ok_then [OF this Cons.IH] Cons.prems(2) show ?case
    by (simp add: run_machine_Cons del: run_machine.simps)
qed

end

end
