(* ===== verification/Rpc_Services.thy ===== *)
theory Rpc_Services
  imports Rpc_Server Multi_Session
begin

text \<open>
  Services with parameters: the second overload of \<open>addService\<close> in
  \<open>include/yaskawa_ethernet/rpc_server/rpc_server.hpp\<close>.  When such a service is executed it
  first sends its commands with \<open>Client::sendCommands\<close>; their responses are given to the user's
  callback, and an error resolves the service.
\<close>

section \<open>Execution\<close>

record CommandService =
  service_index :: nat
  pre_commands :: "command list"
  service_timeout :: int

text \<open>The overload adds a service like any other; its number is the next one.\<close>

definition addCommandService :: "string \<Rightarrow> command list \<Rightarrow> int \<Rightarrow> RpcServer \<Rightarrow> CommandService \<times> RpcServer" where
  "addCommandService name commands timeout s =
     (\<lparr>service_index = length (services s), pre_commands = commands, service_timeout = timeout\<rparr>, addService name s)"

text \<open>Executing it sends the commands.\<close>

definition CommandService_execute ::
    "int \<Rightarrow> (nat \<Rightarrow> 'h) \<Rightarrow> CommandService \<Rightarrow> 'h Client
     \<Rightarrow> ((MultiCommandSession \<times> 'h Client) \<times> multi_response effect list) outcome" where
  "CommandService_execute now h service client =
     Client_sendCommands_timeout now (service_timeout service) h (pre_commands service) client"

text \<open>
  What their result leads to: the user's callback is called with the responses, or the server
  does what it does when a service is resolved with the error.
\<close>

datatype service_action =
    Call_service multi_response
  | Server rpc_effect

definition CommandService_on_response ::
    "CommandService \<Rightarrow> RpcServer \<Rightarrow> multi_response result \<Rightarrow> service_action list" where
  "CommandService_on_response service s result =
     (case result of
        Inl e \<Rightarrow> map Server (RpcServer_resolve (service_index service) e s)
      | Inr rs \<Rightarrow> [Call_service rs])"

text \<open>A run of the execution, over the events of the session of the commands.\<close>

definition CommandService_run ::
    "CommandService \<Rightarrow> RpcServer \<Rightarrow> MultiCommandSession \<Rightarrow> (nat \<times> session_event) deadline_event list
     \<Rightarrow> (MultiCommandSession \<times> service_action list) outcome" where
  "CommandService_run service s m evs =
     obind (multi_run m evs) (\<lambda>(m, es).
       Returns (m, concat (map (CommandService_on_response service s) (completions es))))"

section \<open>Failures are errors\<close>

text \<open>A multi session never completes with a failure that is not an error.\<close>

definition real_failures :: "'r effect list \<Rightarrow> bool" where
  "real_failures es \<longleftrightarrow> (\<forall>e. Inl e \<in> set (completions es) \<longrightarrow> is_error e)"

lemma real_failures_simps [simp]:
  "real_failures []"
  "real_failures (es @ fs) \<longleftrightarrow> real_failures es \<and> real_failures fs"
  "real_failures (map Remove ts)"
  "real_failures (Remove t # es) = real_failures es"
  "real_failures (with_callback es) = real_failures es"
  by (auto simp: real_failures_def)

lemma MultiCommandSession_resolve_failures:
  assumes "MultiCommandSession_resolve e m = Returns (m', es)"
  shows "real_failures es"
proof -
  have stop: "stop_sessions err ss = Returns (ss', fs) \<Longrightarrow> real_failures fs" for err ss ss' fs
    by (induction ss arbitrary: ss' fs) auto
  show ?thesis
    using assms stop
    by (auto simp: MultiCommandSession_resolve_def Let_def split: if_splits)
      (auto simp: real_failures_def)
qed

lemma MultiCommandSession_callback_failures:
  "MultiCommandSession_callback i r m = Returns (m', es) \<Longrightarrow> real_failures es"
  by (auto simp: MultiCommandSession_callback_def Let_def split: sum.splits if_splits
      dest: MultiCommandSession_resolve_failures)

lemma pass_on_failures: "pass_on i es m = Returns (m', fs) \<Longrightarrow> real_failures fs"
  by (induction i es m arbitrary: m' fs rule: pass_on.induct)
    (auto dest: MultiCommandSession_callback_failures)

lemma multi_deadline_failures:
  assumes "deadline_step MultiCommandSession_step MultiCommandSession_resolve m ev = Returns (m', es)"
  shows "real_failures es"
proof (cases ev)
  case (Work e)
  then show ?thesis
    using assms by (auto simp: MultiCommandSession_step_def split: prod.splits if_splits dest: pass_on_failures)
next
  case (Timer err)
  then show ?thesis
    using assms
    by (auto simp: deadline_timer_def split: if_splits dest: MultiCommandSession_resolve_failures)
qed

lemma multi_run_failures: "multi_run m evs = Returns (m', es) \<Longrightarrow> real_failures es"
  by (induction evs arbitrary: m es) (auto dest: multi_deadline_failures)

section \<open>What an execution leads to\<close>

text \<open>
  C25: An execution of a service with commands leads to one thing at most, whatever the order
  of replies, send errors and the timer: either the user's callback is called, with a response
  to every command, of the type the command asks for; or one of the commands failed, the error
  is reported and the status variable of the service is set to error. Once the deadline has
  passed one of them has happened.
\<close>

theorem service_gets_responses_or_fails:
  assumes "CommandService_execute now h service client = Returns ((m, client'), es0)"
    and "client_inv client"
  shows "\<exists>m' as. CommandService_run service s m evs = Returns (m', as)
    \<and> (as = []
      \<or> (\<exists>rs. as = [Call_service rs]
          \<and> list_all2 (\<lambda>c r. \<exists>v. r = Some v \<and> response_fits c v) (pre_commands service) rs)
      \<or> (\<exists>e. is_error e \<and> as =
          [Server (On_error (push_description e
             (''executing service '' @ service_name (services s ! service_index service)))),
           Server (Write_status_var
             \<lparr>wv_index = base_register s + of_nat (service_index service),
              wv_value = status_error_value\<rparr> (service_index service))]))
    \<and> ((\<exists>err. Timer err \<in> set evs \<and> err \<noteq> operation_aborted) \<longrightarrow> as \<noteq> [])"
proof -
  have "sendMultipleCommands now (now + service_timeout service) h (pre_commands service) client = Returns ((m, client'), es0)"
    using assms(1) by (simp add: CommandService_execute_def)
  note m = sendMultipleCommands_session [OF this assms(2)]
  obtain m' es where r: "multi_run m evs = Returns (m', es)"
    using multi_session.deadline.run_returns [OF m(1)] by blast
  note once = multi_session.deadline.run_at_most_once [OF m(1,2) r]
  have finish: "(\<exists>err. Timer err \<in> set evs \<and> err \<noteq> operation_aborted) \<longrightarrow> completions es \<noteq> []"
    using multi_session.deadline_reached [OF m(1) r] once by blast
  consider "completions es = []" | rs where "completions es = [Inr rs]" | e where "completions es = [Inl e]"
    using once by (cases "completions es"; cases "hd (completions es)") auto
  then show ?thesis
  proof cases
    case 1
    with finish r show ?thesis by (simp add: CommandService_run_def)
  next
    case (2 rs)
    then have "list_all2 (\<lambda>c r. \<exists>v. r = Some v \<and> response_fits c v) (pre_commands service) rs"
      using multi_run_results [OF m(1) r, of rs]
      unfolding m(3) [symmetric] list_all2_map1 by (simp add: response_given_def [abs_def])
    with 2 r show ?thesis by (simp add: CommandService_run_def CommandService_on_response_def)
  next
    case (3 e)
    then have "is_error e" using multi_run_failures [OF r] by (simp add: real_failures_def)
    with 3 r show ?thesis
      by (auto simp: CommandService_run_def CommandService_on_response_def RpcServer_resolve_def)
  qed
qed

definition example_service :: "CommandService \<times> RpcServer" where
  "example_service = addCommandService ''a'' [ReadUint8Var \<lparr>rv_index = 1\<rparr>] 100 (new_RpcServer 10 1000)"

lemma service_gets_responses_or_fails_witness:
  "\<exists>m client' es0. CommandService_execute 0 (\<lambda>i. i) (fst example_service) (new_Client True)
      = Returns ((m, client'), es0)
    \<and> (\<exists>m' as. CommandService_run (fst example_service) (snd example_service) m [Timer ec_success]
        = Returns (m', as) \<and> as \<noteq> [])"
proof -
  obtain m client' es0 where
    m: "CommandService_execute 0 (\<lambda>i. i) (fst example_service) (new_Client True)
      = Returns ((m, client'), es0)"
    by (simp add: example_service_def addCommandService_def CommandService_execute_def
        sendMultipleCommands_def DeadlineSession_start_def MultiCommandSession_new_def MultiCommandSession_start_def
        CommandSession_new_def CommandSession_start_def allocateId_def registerHandler_def
        new_Client_def)
  have "ec_success \<noteq> operation_aborted" by (simp add: ec_success_def operation_aborted_def)
  with service_gets_responses_or_fails [OF m, of "snd example_service" "[Timer ec_success]"] m
  show ?thesis by (fastforce simp: client_inv_def new_Client_def)
qed

end
