(* ===== verification/Rpc_System.thy ===== *)
theory Rpc_System
  imports Rpc_Services Hosting
begin

text \<open>
  The RPC server on top of the client.  The commands of the server and of its services are operations of the
  client of \<open>Client_System\<close>, among the others the user has open on it; their results come back to the server.
  Here are the steps of the system and its invariant; \<open>Rpc_Account\<close> shows that every step keeps it.
\<close>

section \<open>The system\<close>

text \<open>With every operation goes what its callback is for.\<close>

datatype purpose =
    Reading nat
  | Writing nat
  | Preparing CommandService
  | User

record rpc_system = "purpose host" +
  sys_server :: RpcServer
  sys_services :: "CommandService list"

text \<open>
  \<open>Executed\<close> is the execution of a service, \<open>Called\<close> the call of the callback of a service with
  parameters, once its commands have been answered.
\<close>

datatype sys_output =
    Executed nat
  | Called nat multi_response
  | Functor_called nat
  | Waiting
  | Server_error error
  | Client_output cls_output

datatype service_spec =
    Plain string
  | With_commands string "command list" int

primrec add_spec :: "service_spec \<Rightarrow> RpcServer \<times> CommandService list \<Rightarrow> RpcServer \<times> CommandService list" where
  "add_spec (Plain name) x = (addService name (fst x), snd x)"
| "add_spec (With_commands name cmds timeout) x =
     (let (service, s) = addCommandService name cmds timeout (fst x) in (s, service # snd x))"

definition sys_new :: "u8 \<Rightarrow> int \<Rightarrow> service_spec list \<Rightarrow> rpc_system" where
  "sys_new base delay specs =
     (let (s, svcs) = fold add_spec specs (new_RpcServer base delay, [])
      in \<lparr>host_cls = cls_new True, host_purposes = [], sys_server = s, sys_services = svcs\<rparr>)"

abbreviation "sys_open \<equiv> host_open Client_output"

definition service_commands :: "CommandService list \<Rightarrow> nat \<Rightarrow> CommandService option" where
  "service_commands svcs i = find (\<lambda>service. service_index service = i) svcs"

definition execute_commands ::
    "int \<Rightarrow> CommandService \<Rightarrow> client_system \<Rightarrow> (client_system \<times> cls_output list) outcome" where
  "execute_commands now service cls = cls_add Commands_op Responses_of
     (CommandService_execute now (Pair (length (cls_ops cls))) service (cls_client cls)) cls"

fun sys_rpc_effects ::
    "int \<Rightarrow> rpc_effect list \<Rightarrow> rpc_system \<Rightarrow> (rpc_system \<times> sys_output list) outcome" where
  "sys_rpc_effects now [] sys = Returns (sys, [])"
| "sys_rpc_effects now (Read_status_vars cmd n # es) sys = and_then
     (sys_open (Reading n) (cls_call now (Send_command (ReadUint8Vars cmd) (now + 100))) sys)
     (sys_rpc_effects now es)"
| "sys_rpc_effects now (Write_status_var cmd i # es) sys = and_then (and_then
     (put (Functor_called i) sys)
     (sys_open (Writing i) (cls_call now (Send_command (WriteUint8Var cmd) (now + 100)))))
     (sys_rpc_effects now es)"
| "sys_rpc_effects now (Execute i # es) sys = and_then (and_then
     (put (Executed i) sys)
     (\<lambda>sys. case service_commands (sys_services sys) i of
        None \<Rightarrow> Returns (sys, [])
      | Some service \<Rightarrow> sys_open (Preparing service) (execute_commands now service) sys))
     (sys_rpc_effects now es)"
| "sys_rpc_effects now (Wait # es) sys = and_then (put Waiting sys) (sys_rpc_effects now es)"
| "sys_rpc_effects now (On_error e # es) sys = and_then (put (Server_error e) sys) (sys_rpc_effects now es)"

text \<open>
  The surroundings of a step: the time, and the errors with which each service calls its functor
  before it returns, if it is called in this step; it may call it later as well, which is an event.
  A service with parameters is called when its commands are answered, another one when it is executed.
\<close>

type_synonym env = "int \<times> (nat \<Rightarrow> error list)"

abbreviation quiet :: "int \<Rightarrow> env" where
  "quiet now \<equiv> (now, \<lambda>i. [])"

definition functor_effects :: "(nat \<Rightarrow> error list) \<Rightarrow> RpcServer \<Rightarrow> nat \<Rightarrow> rpc_effect list" where
  "functor_effects calls s i = concat (map (\<lambda>err. RpcServer_resolve i err s) (calls i))"

definition service_calls ::
    "(nat \<Rightarrow> error list) \<Rightarrow> CommandService list \<Rightarrow> RpcServer \<Rightarrow> rpc_effect list \<Rightarrow> rpc_effect list" where
  "service_calls calls svcs s es = concat (map (\<lambda>e.
     case e of
       Execute i \<Rightarrow> Execute i # (if service_commands svcs i = None then functor_effects calls s i else [])
     | _ \<Rightarrow> [e]) es)"

definition sys_rpc :: "env \<Rightarrow> rpc_event \<Rightarrow> rpc_system \<Rightarrow> (rpc_system \<times> sys_output list) outcome" where
  "sys_rpc env ev sys =
     obind (RpcServer_step (sys_server sys) ev) (\<lambda>(s, es).
       sys_rpc_effects (fst env) (service_calls (snd env) (sys_services sys) s es) (sys\<lparr>sys_server := s\<rparr>))"

fun sys_service ::
    "env \<Rightarrow> nat \<Rightarrow> service_action list \<Rightarrow> rpc_system \<Rightarrow> (rpc_system \<times> sys_output list) outcome" where
  "sys_service env i [] sys = Returns (sys, [])"
| "sys_service env i (Call_service rs # as) sys = and_then (and_then
     (put (Called i rs) sys)
     (\<lambda>sys. sys_rpc_effects (fst env) (functor_effects (snd env) (sys_server sys) i) sys))
     (sys_service env i as)"
| "sys_service env i (Server e # as) sys = and_then
     (sys_rpc_effects (fst env) [e] sys) (sys_service env i as)"

text \<open>The callback of an operation.\<close>

definition sys_result ::
    "env \<Rightarrow> purpose \<Rightarrow> op_response result \<Rightarrow> rpc_system \<Rightarrow> (rpc_system \<times> sys_output list) outcome" where
  "sys_result env p r sys =
     (case (p, r) of
        (Reading n, Inl e) \<Rightarrow> sys_rpc env (Read_done n (Inl e)) sys
      | (Reading n, Inr (Response_of (Uint8s_response vs))) \<Rightarrow> sys_rpc env (Read_done n (Inr vs)) sys
      | (Writing i, Inl e) \<Rightarrow> sys_rpc env (Write_done i (Inl e)) sys
      | (Writing i, Inr (Response_of Void)) \<Rightarrow> sys_rpc env (Write_done i (Inr ())) sys
      | (Preparing c, Inl e) \<Rightarrow>
          sys_service env (service_index c) (CommandService_on_response c (sys_server sys) (Inl e)) sys
      | (Preparing c, Inr (Responses_of rs)) \<Rightarrow>
          sys_service env (service_index c) (CommandService_on_response c (sys_server sys) (Inr rs)) sys
      | (User, _) \<Rightarrow> Returns (sys, [])
      | _ \<Rightarrow> Undefined)"

text \<open>
  What happens: everything that happens to the client, with the calls of the user, and calls of
  \<open>start\<close> and \<open>stop\<close>, the timer between two reads, and services that call their functor.
\<close>

datatype sys_event =
    Sys_client cls_event
  | Sys_start
  | Sys_stop
  | Sys_timer error_code
  | Sys_resolved nat error

fun sys_step :: "env \<Rightarrow> rpc_system \<Rightarrow> sys_event \<Rightarrow> (rpc_system \<times> sys_output list) outcome" where
  "sys_step env sys (Sys_client (Call call)) = sys_open User (cls_call (fst env) call) sys"
| "sys_step env sys (Sys_client ev) =
     host_client Client_output (sys_result env) (fst env) ev sys"
| "sys_step env sys Sys_start = sys_rpc env Start sys"
| "sys_step env sys Sys_stop = sys_rpc env Stop sys"
| "sys_step env sys (Sys_timer err) = sys_rpc env (Timer_done err) sys"
| "sys_step env sys (Sys_resolved i err) = sys_rpc env (Resolved_service i err) sys"

abbreviation "sys_run \<equiv> run_machine (\<lambda>sys (env, ev). sys_step env sys ev)"

section \<open>The invariant\<close>

text \<open>The operation fits what its callback is for.\<close>

definition status_count :: "nat \<Rightarrow> u8" where
  "status_count N = of_nat ((N + 1) div 2 * 2)"

fun purpose_ok :: "nat \<Rightarrow> operation \<Rightarrow> purpose \<Rightarrow> bool" where
  "purpose_ok N op (Reading n) \<longleftrightarrow> n = N \<and>
     (\<exists>s c. op = Command_op s \<and> cs_command s = ReadUint8Vars c \<and> rvs_count c = status_count N)"
| "purpose_ok N op (Writing i) \<longleftrightarrow> (\<exists>s c. op = Command_op s \<and> cs_command s = WriteUint8Var c)"
| "purpose_ok N op (Preparing c) \<longleftrightarrow> (\<exists>m. op = Commands_op m)"
| "purpose_ok N op User \<longleftrightarrow> True"

definition sys_inv :: "nat \<Rightarrow> rpc_system \<Rightarrow> bool" where
  "sys_inv N sys \<longleftrightarrow>
     length (services (sys_server sys)) = N
     \<and> (\<forall>c \<in> set (sys_services sys). list_all encodable (pre_commands c))
     \<and> owned (cls_client (host_cls sys)) (cls_ops (host_cls sys))
     \<and> list_all2 (purpose_ok N) (cls_ops (host_cls sys)) (host_purposes sys)"

section \<open>Opening operations\<close>

lemma rpc_commands_encodable: "encodable (ReadUint8Vars c)" "encodable (WriteUint8Var w)"
  by (simp_all add: encodable_def encodeWriteVar_def uint8_traits_def encode_uint8_def Let_def)

lemma opens_execute:
  assumes owned: "owned (cls_client cls) (cls_ops cls)" and e: "list_all encodable (pre_commands c)"
    and good: "\<And>m. good (Commands_op m)"
  shows "opens good cls (execute_commands now c cls)"
proof -
  have inv: "client_inv (cls_client cls)" using owned by (simp add: owned_def)
  have ok: "list_all command_ok (pre_commands c)" using e encodable_ok by (auto simp: list_all_iff)
  show ?thesis
    unfolding execute_commands_def CommandService_execute_def client_sends_defs
    by (rule opens_add [OF owned well_defined_sends [OF ok] taken_only_sends [OF e]])
      (metis good sendMultipleCommands_started [OF inv])
qed

section \<open>Results\<close>

text \<open>A callback gets a result it can handle.\<close>

primrec result_fits :: "nat \<Rightarrow> purpose \<Rightarrow> op_response result \<Rightarrow> bool" where
  "result_fits N (Reading n) r \<longleftrightarrow>
     n = N \<and> (\<forall>v. r = Inr v \<longrightarrow> (\<exists>vs. v = Response_of (Uint8s_response vs) \<and> length vs = unat (status_count N)))"
| "result_fits N (Writing i) r \<longleftrightarrow> (\<forall>v. r = Inr v \<longrightarrow> v = Response_of Void)"
| "result_fits N (Preparing c) r \<longleftrightarrow> (\<forall>v. r = Inr v \<longrightarrow> (\<exists>rs. v = Responses_of rs))"
| "result_fits N User r \<longleftrightarrow> True"

lemma op_step_fits:
  assumes "purpose_ok N op p" "op_ok op" "op_step op ev = Returns (op', es)"
  shows "purpose_ok N op' p \<and> (\<forall>r \<in> set (completions es). result_fits N p r)"
proof (cases p)
  case (Reading n)
  with assms obtain s c where s: "op = Command_op s" "cs_command s = ReadUint8Vars c" "rvs_count c = status_count N"
    "n = N" by auto
  from command_step_fits [of s ev op' es] assms s obtain s' where s': "op' = Command_op s'" "cs_command s' = cs_command s"
    and r: "\<forall>r \<in> set (completions es). \<exists>r0. r = map_sum id Response_of r0 \<and> sound_answer (cs_command s) r0" by auto
  have "result_fits N p r" if "r \<in> set (completions es)" for r
  proof -
    from r that obtain r0 where "r = map_sum id Response_of r0" "sound_answer (cs_command s) r0" by blast
    with s Reading show ?thesis
      by (cases r0) (auto simp: sound_answer_def split: response.splits)
  qed
  with s s' Reading show ?thesis by auto
next
  case (Writing i)
  with assms obtain s c where s: "op = Command_op s" "cs_command s = WriteUint8Var c" by auto
  from command_step_fits [of s ev op' es] assms s obtain s' where s': "op' = Command_op s'" "cs_command s' = cs_command s"
    and r: "\<forall>r \<in> set (completions es). \<exists>r0. r = map_sum id Response_of r0 \<and> sound_answer (cs_command s) r0" by auto
  have "result_fits N p r" if "r \<in> set (completions es)" for r
  proof -
    from r that obtain r0 where "r = map_sum id Response_of r0" "sound_answer (cs_command s) r0" by blast
    with s Writing show ?thesis by (cases r0) (auto simp: sound_answer_def)
  qed
  with s s' Writing show ?thesis by auto
next
  case (Preparing c)
  with assms obtain m where "op = Commands_op m" by auto
  with assms(3) have "\<exists>m' fs. op' = Commands_op m' \<and> es = map (map_effect Responses_of) fs"
    by (auto simp: lift_step_def)
  with Preparing show ?thesis by (auto simp: map_sum_def split: sum.splits)
qed simp

section \<open>The server\<close>

lemma service_calls_simps [simp]:
  "service_calls calls svcs s [] = []"
  "service_calls calls svcs s (Execute i # es) =
     Execute i # (if service_commands svcs i = None then functor_effects calls s i else []) @ service_calls calls svcs s es"
  "service_calls calls svcs s (Read_status_vars c n # es) = Read_status_vars c n # service_calls calls svcs s es"
  "service_calls calls svcs s (Write_status_var w i # es) = Write_status_var w i # service_calls calls svcs s es"
  "service_calls calls svcs s (Wait # es) = Wait # service_calls calls svcs s es"
  "service_calls calls svcs s (On_error e # es) = On_error e # service_calls calls svcs s es"
  "service_calls calls svcs s (es @ fs) = service_calls calls svcs s es @ service_calls calls svcs s fs"
  by (simp_all add: service_calls_def)

lemma functor_effects_silent [simp]: "functor_effects (\<lambda>i. []) s i = []"
  by (simp add: functor_effects_def)

definition effects_ok :: "nat \<Rightarrow> rpc_effect list \<Rightarrow> bool" where
  "effects_ok N es \<longleftrightarrow> (\<forall>c n. Read_status_vars c n \<in> set es \<longrightarrow> n = N \<and> rvs_count c = status_count N)"

lemma effects_ok_simps [simp]:
  "effects_ok N []"
  "effects_ok N (es @ fs) \<longleftrightarrow> effects_ok N es \<and> effects_ok N fs"
  "effects_ok N (On_error e # es) = effects_ok N es"
  "effects_ok N (Execute i # es) = effects_ok N es"
  "effects_ok N (Wait # es) = effects_ok N es"
  "effects_ok N (Write_status_var w i # es) = effects_ok N es"
  "effects_ok N (Read_status_vars c n # es) \<longleftrightarrow> n = N \<and> rvs_count c = status_count N \<and> effects_ok N es"
  by (auto simp: effects_ok_def)

lemma RpcServer_resolve_ok [simp]: "effects_ok N (RpcServer_resolve i err s)"
  by (simp add: RpcServer_resolve_def)

lemma functor_effects_ok [simp]: "effects_ok N (functor_effects calls s i)"
proof -
  have "effects_ok N (concat (map (\<lambda>err. RpcServer_resolve i err s) errs))" for errs
    by (induction errs) simp_all
  then show ?thesis by (simp add: functor_effects_def)
qed

lemma service_calls_ok [simp]: "effects_ok N (service_calls calls svcs s es) = effects_ok N es"
proof (induction es)
  case (Cons e es)
  then show ?case by (cases e) simp_all
qed simp

lemma readCommands_ok:
  assumes "length (services s) = N" "N \<le> 254"
  shows "effects_ok N (readCommands s)" "effects_ok N (startReadCommandsTimer s)"
  using assms by (simp_all add: startReadCommandsTimer_def readCommands_def status_count_def Let_def)

lemma check_statuses_effects: "check_statuses statuses is s = Returns (s', es) \<Longrightarrow> effects_ok N es"
proof (induction "is" arbitrary: s es)
  case Nil
  then show ?case by simp
next
  case (Cons i "is")
  then obtain s1 es1 es2 where
    "(if statuses ! i = status_requested then RpcServer_execute i s else Returns (s, [])) = Returns (s1, es1)"
    and "check_statuses statuses is s1 = Returns (s', es2)" "es = es1 @ es2"
    by (auto split: if_splits)
  with Cons.IH [of s1 es2] show ?case by (auto simp: RpcServer_execute_def split: if_splits)
qed

text \<open>The events the system gives to the server.\<close>

fun rpc_event_ok :: "nat \<Rightarrow> rpc_event \<Rightarrow> bool" where
  "rpc_event_ok N (Read_done n (Inr vs)) \<longleftrightarrow> n = N \<and> N \<le> length vs"
| "rpc_event_ok N ev \<longleftrightarrow> True"

lemma RpcServer_step_ok:
  assumes N: "length (services s) = N" "N \<le> 254" and ev: "rpc_event_ok N ev"
  shows "\<exists>s' es. RpcServer_step s ev = Returns (s', es) \<and> length (services s') = N \<and> effects_ok N es"
proof (cases ev)
  case (Read_done n r)
  show ?thesis
  proof (cases r)
    case (Inl e)
    with Read_done N show ?thesis by (simp add: RpcServer_read_done_def readCommands_ok)
  next
    case (Inr vs)
    with Read_done ev have n: "n = N" "N \<le> length vs" by simp_all
    then have "\<forall>i \<in> set [0..<n]. i < length vs \<and> i < length (services s)" using N by auto
    from check_statuses_returns [OF this] obtain s1 es1 where
      c: "check_statuses vs [0..<n] s = Returns (s1, es1)" by blast
    with check_statuses_busy [OF c] check_statuses_effects [OF c, of N] Read_done Inr N show ?thesis
      by (simp add: RpcServer_read_done_def readCommands_ok)
  qed
qed (use N in \<open>auto simp: RpcServer_start_def RpcServer_stop_def RpcServer_timer_def RpcServer_resolve_def
    RpcServer_write_done_def readCommands_ok split: sum.splits\<close>)


section \<open>The beginning\<close>

primrec spec_encodable :: "service_spec \<Rightarrow> bool" where
  "spec_encodable (Plain name) = True"
| "spec_encodable (With_commands name cmds timeout) = list_all encodable cmds"

lemma add_specs:
  "\<forall>c \<in> set (snd x). list_all encodable (pre_commands c) \<Longrightarrow> \<forall>spec \<in> set specs. spec_encodable spec \<Longrightarrow>
   length (services (fst (fold add_spec specs x))) = length (services (fst x)) + length specs
   \<and> (\<forall>c \<in> set (snd (fold add_spec specs x)). list_all encodable (pre_commands c))
   \<and> server_started (fst (fold add_spec specs x)) = server_started (fst x)
   \<and> (service_busy (fst (fold add_spec specs x)) i \<longrightarrow> service_busy (fst x) i)"
proof (induction specs arbitrary: x)
  case (Cons spec specs)
  let ?x = "add_spec spec x"
  have "\<forall>c \<in> set (snd ?x). list_all encodable (pre_commands c)"
    using Cons.prems by (cases spec) (auto simp: addCommandService_def)
  moreover have "length (services (fst ?x)) = Suc (length (services (fst x)))"
    "server_started (fst ?x) = server_started (fst x)" "service_busy (fst ?x) i \<longrightarrow> service_busy (fst x) i"
    by (cases spec; auto simp: addCommandService_def addService_def service_busy_def nth_append)+
  ultimately show ?case using Cons.IH [of ?x] Cons.prems(2) by auto
qed simp

lemma sys_new_facts:
  assumes "\<forall>spec \<in> set specs. spec_encodable spec"
  shows "sys_inv (length specs) (sys_new base delay specs)" "\<not> server_started (sys_server (sys_new base delay specs))"
    "\<not> service_busy (sys_server (sys_new base delay specs)) i"
    "host_purposes (sys_new base delay specs) = []" "cls_ops (host_cls (sys_new base delay specs)) = []"
  using add_specs [of "(new_RpcServer base delay, [])" specs i] assms cls_new_owned [of True]
  by (auto simp: sys_new_def sys_inv_def new_RpcServer_def service_busy_def cls_new_def case_prod_unfold Let_def)

end
