(* ===== verification/Rpc_Account.thy ===== *)
theory Rpc_Account
  imports Rpc_System
begin

text \<open>
  What a run of the system can be charged with.  An account gives a weight to the outputs of the
  system, a load to its open operations and a value to the state of its server; when every step of the server
  balances, then so does every run of the system, and every step keeps the invariant.  Three
  accounts follow: of the calls of a service, of the callbacks of services with parameters, and of the polling.
\<close>

section \<open>Accounts\<close>

text \<open>
  An effect of the server becomes an output or an open operation; the execution of a service with parameters
  becomes both, and \<open>prep\<close> is the load of its commands.
\<close>

fun effect_weight ::
    "(sys_output \<Rightarrow> int) \<Rightarrow> (purpose \<Rightarrow> int) \<Rightarrow> (nat \<Rightarrow> int) \<Rightarrow> rpc_effect \<Rightarrow> int" where
  "effect_weight weigh load prep (Read_status_vars c n) = load (Reading n)"
| "effect_weight weigh load prep (Write_status_var c i) = load (Writing i) + weigh (Functor_called i)"
| "effect_weight weigh load prep (Execute i) = weigh (Executed i) + prep i"
| "effect_weight weigh load prep Wait = weigh Waiting"
| "effect_weight weigh load prep (On_error e) = weigh (Server_error e)"

definition effects_weight ::
    "(sys_output \<Rightarrow> int) \<Rightarrow> (purpose \<Rightarrow> int) \<Rightarrow> (nat \<Rightarrow> int) \<Rightarrow> rpc_effect list \<Rightarrow> int" where
  "effects_weight weigh load prep es = sum_list (map (effect_weight weigh load prep) es)"

lemma effects_weight_simps [simp]:
  "effects_weight weigh load prep [] = 0"
  "effects_weight weigh load prep (e # es) = effect_weight weigh load prep e + effects_weight weigh load prep es"
  "effects_weight weigh load prep (es @ fs) = effects_weight weigh load prep es + effects_weight weigh load prep fs"
  by (simp_all add: effects_weight_def)

text \<open>What a service with parameters lets the server do.\<close>

definition server_effects :: "service_action list \<Rightarrow> rpc_effect list" where
  "server_effects as = concat (map (\<lambda>a. case a of Server e \<Rightarrow> [e] | _ \<Rightarrow> []) as)"

lemma server_effects_simps [simp]:
  "server_effects [] = []"
  "server_effects (Call_service rs # as) = server_effects as"
  "server_effects (Server e # as) = e # server_effects as"
  "server_effects (map Server es) = es"
  by (induction es) (simp_all add: server_effects_def)

text \<open>The event the server gets when something happens to the system that is not an event of the client.\<close>

fun server_event :: "sys_event \<Rightarrow> rpc_event option" where
  "server_event Sys_start = Some Start"
| "server_event Sys_stop = Some Stop"
| "server_event (Sys_timer err) = Some (Timer_done err)"
| "server_event (Sys_resolved i err) = Some (Resolved_service i err)"
| "server_event (Sys_client ev) = None"

text \<open>What the user sends can be encoded; listing files is left out.\<close>

fun user_ok :: "sys_event \<Rightarrow> bool" where
  "user_ok (Sys_client (Call call)) \<longleftrightarrow> call_ok call \<and> call_encodable call"
| "user_ok ev \<longleftrightarrow> True"

locale rpc_account =
  fixes weigh :: "sys_output \<Rightarrow> int"
    and load :: "purpose \<Rightarrow> int"
    and prep :: "nat \<Rightarrow> int"
    and worth :: "RpcServer \<Rightarrow> int"
    and cost :: "rpc_event \<Rightarrow> int"
    and good :: "RpcServer \<Rightarrow> bool"
    and allowed :: "rpc_event \<Rightarrow> bool"
    and N :: nat
  assumes balances: "good s \<Longrightarrow> allowed ev \<Longrightarrow> RpcServer_step s ev = Returns (s', es) \<Longrightarrow>
      good s' \<and> effects_weight weigh load prep es + worth s \<le> worth s' + cost ev"
    and answers: "allowed (Read_done n statuses)" "cost (Read_done n statuses) = load (Reading n)"
      "allowed (Write_done i result)" "cost (Write_done i result) = load (Writing i)"
    and resolving: "effects_weight weigh load prep (RpcServer_resolve i err s) \<le> 0"
    and preparing: "load (Preparing c) = prep (service_index c)" "0 \<le> prep i" "weigh (Called i rs) \<le> prep i"
    and unweighted: "weigh (Client_output x) = 0" "load User = 0"
begin

definition server_ok :: "nat \<Rightarrow> rpc_system \<Rightarrow> bool" where
  "server_ok n sys \<longleftrightarrow> N \<le> 254 \<and> length (services (sys_server sys)) = N
     \<and> (\<forall>c \<in> set (sys_services sys). list_all encodable (pre_commands c)) \<and> good (sys_server sys)"

end

sublocale rpc_account \<subseteq> hosting Client_output "purpose_ok N" "result_fits N" server_ok
  "\<lambda>sys. worth (sys_server sys)" weigh load "\<lambda>_. True" "\<lambda>e. \<exists>rid. e = request_id_taken rid"
proof (unfold_locales, goal_cases)
  case (1 op p ev op' es)
  then show ?case by (rule op_step_fits)
qed (simp_all add: server_ok_def unweighted)

context rpc_account
begin

lemma inv_iff: "inv k sys \<longleftrightarrow> N \<le> 254 \<and> sys_inv N sys \<and> good (sys_server sys)"
  by (auto simp: inv_def server_ok_def sys_inv_def)

lemma inv_any: "inv k sys \<Longrightarrow> inv l sys"
  by (simp add: inv_iff)

lemma ok_opens:
  assumes "inv k sys" "opens (\<lambda>op. purpose_ok N op p) (host_cls sys) (f (host_cls sys))"
  shows "ok k (load p) sys (sys_open p f sys)"
  by (rule ok_open [where f = f, OF assms]) (use assms(2) in \<open>auto simp: opens_def\<close>)

lemma effects_ok:
  "effects_ok N es \<Longrightarrow> inv k sys \<Longrightarrow> ok k (effects_weight weigh load prep es) sys (sys_rpc_effects now es sys)"
proof (induction es arbitrary: sys)
  case Nil
  then show ?case by (simp add: ok_idle)
next
  case (Cons e es)
  have owned: "owned (cls_client (host_cls sys')) (cls_ops (host_cls sys'))" if "inv k sys'" for sys'
    using that by (simp add: inv_iff sys_inv_def)
  show ?case
  proof (cases e)
    case (Read_status_vars c n)
    with Cons.prems have "n = N" "rvs_count c = status_count N" "effects_ok N es" by simp_all
    then show ?thesis
      unfolding Read_status_vars sys_rpc_effects.simps effects_weight_simps effect_weight.simps
      by (intro ok_then [where n = k] ok_opens opens_command owned Cons.prems(2) rpc_commands_encodable Cons.IH) simp_all
  next
    case (Write_status_var w i)
    with Cons.prems have "effects_ok N es" by simp
    then show ?thesis
      unfolding Write_status_var sys_rpc_effects.simps effects_weight_simps effect_weight.simps
        add.commute [of "load (Writing i)"]
      by (intro ok_then [where n = k] ok_put ok_opens opens_command owned Cons.prems(2) rpc_commands_encodable Cons.IH) simp_all
  next
    case (Execute i)
    with Cons.prems have es: "effects_ok N es" by simp
    have "ok k (prep i) sys' (case service_commands (sys_services sys') i of None \<Rightarrow> Returns (sys', [])
        | Some service \<Rightarrow> sys_open (Preparing service) (execute_commands now service) sys')" if i: "inv k sys'" for sys'
    proof (cases "service_commands (sys_services sys') i")
      case None
      with ok_from [OF ok_idle [OF i]] preparing(2) show ?thesis by simp
    next
      case (Some c)
      then have "c \<in> set (sys_services sys')" "service_index c = i"
        by (auto simp: service_commands_def find_Some_iff)
      moreover from this have "list_all encodable (pre_commands c)" using i by (simp add: inv_iff sys_inv_def)
      then have "ok k (load (Preparing c)) sys' (sys_open (Preparing c) (execute_commands now c) sys')"
        by (intro ok_opens opens_execute owned i) simp_all
      ultimately show ?thesis by (simp add: Some preparing)
    qed
    from ok_then [OF ok_then [OF ok_put [OF Cons.prems(2)] this] Cons.IH [OF es]] show ?thesis
      by (simp add: Execute)
  next
    case Wait
    with Cons ok_then [OF ok_put [OF Cons.prems(2)] Cons.IH, of Waiting] show ?thesis by simp
  next
    case (On_error err)
    with Cons ok_then [OF ok_put [OF Cons.prems(2)] Cons.IH, of "Server_error err"] show ?thesis by simp
  qed
qed

lemma functor_weight: "effects_weight weigh load prep (functor_effects calls s i) \<le> 0"
proof -
  have "effects_weight weigh load prep (concat (map (\<lambda>err. RpcServer_resolve i err s) errs)) \<le> 0" for errs
    using resolving by (induction errs) (simp_all add: add_nonpos_nonpos)
  then show ?thesis by (simp add: functor_effects_def)
qed

lemma service_calls_weight:
  "effects_weight weigh load prep (service_calls calls svcs s es) \<le> effects_weight weigh load prep es"
proof (induction es)
  case (Cons e es)
  with functor_weight [of calls s] show ?case by (cases e) (auto simp: add_mono add_decreasing)
qed simp

lemma rpc_ok:
  assumes inv: "inv k sys" and ev: "rpc_event_ok N ev" "allowed ev"
  shows "ok k (cost ev) sys (sys_rpc env ev sys)"
proof -
  have N: "length (services (sys_server sys)) = N" "N \<le> 254" and good: "good (sys_server sys)"
    using inv by (simp_all add: inv_iff sys_inv_def)
  from RpcServer_step_ok [OF N ev(1)] obtain s' es where
    st: "RpcServer_step (sys_server sys) ev = Returns (s', es)" "length (services s') = N" "effects_ok N es"
    by blast
  note b = balances [OF good ev(2) st(1)]
  let ?sys = "sys\<lparr>sys_server := s'\<rparr>" and ?es = "service_calls (snd env) (sys_services sys) s' es"
  have "inv k ?sys" using inv b st(2) by (simp add: inv_iff sys_inv_def)
  with st(3) have "ok k (effects_weight weigh load prep ?es) ?sys (sys_rpc_effects (fst env) ?es ?sys)"
    by (intro effects_ok) simp_all
  then have "ok k (cost ev) sys (sys_rpc_effects (fst env) ?es ?sys)"
    by (rule ok_from)
      (use b service_calls_weight [of "snd env" "sys_services sys" s' es] in \<open>simp_all add: credit_def\<close>)
  then show ?thesis by (simp add: sys_rpc_def st(1))
qed

definition service_weight :: "nat \<Rightarrow> service_action list \<Rightarrow> int" where
  "service_weight i as = (\<Sum>a \<leftarrow> as. case a of Call_service rs \<Rightarrow> weigh (Called i rs)
     | Server e \<Rightarrow> effect_weight weigh load prep e)"

lemma service_weight_simps [simp]:
  "service_weight i [] = 0"
  "service_weight i (Call_service rs # as) = weigh (Called i rs) + service_weight i as"
  "service_weight i (Server e # as) = effect_weight weigh load prep e + service_weight i as"
  "service_weight i (map Server es) = effects_weight weigh load prep es"
  by (induction es) (simp_all add: service_weight_def)

lemma service_ok:
  "inv k sys \<Longrightarrow> effects_ok N (server_effects as) \<Longrightarrow> ok k (service_weight i as) sys (sys_service env i as sys)"
proof (induction as arbitrary: sys)
  case Nil
  then show ?case by (simp add: ok_idle)
next
  case (Cons a as)
  show ?case
  proof (cases a)
    case (Call_service rs)
    have "ok k 0 sys' (sys_rpc_effects (fst env) (functor_effects (snd env) (sys_server sys') i) sys')"
      if i: "inv k sys'" for sys'
      by (rule ok_from [OF effects_ok [OF _ i]])
        (use functor_weight [of "snd env" "sys_server sys'" i] in simp_all)
    from ok_then [OF ok_then [OF ok_put [OF Cons.prems(1), where x = "Called i rs"] this] Cons.IH] Cons.prems(2)
    show ?thesis by (simp add: Call_service)
  next
    case (Server e)
    with Cons.prems have "effects_ok N [e]" "effects_ok N (server_effects as)"
      by (auto simp: effects_ok_def)
    with ok_then [OF effects_ok [OF _ Cons.prems(1), of "[e]" "fst env"] Cons.IH] show ?thesis by (simp add: Server)
  qed
qed

lemma result_ok:
  assumes inv: "inv k sys" and fits: "result_fits N p r"
  shows "ok k (load p) sys (sys_result env p r sys)"
proof (cases p)
  case (Reading n)
  have "N \<le> unat (status_count N)" using inv count_covers [of N] by (simp add: inv_iff status_count_def)
  with fits rpc_ok [OF inv _ answers(1), where env = env] Reading show ?thesis
    by (cases r) (auto simp: sys_result_def answers)
next
  case (Writing i)
  with fits rpc_ok [OF inv _ answers(3), where env = env] show ?thesis
    by (cases r) (auto simp: sys_result_def answers)
next
  case (Preparing c)
  let ?as = "CommandService_on_response c (sys_server sys)"
  have "ok k (prep (service_index c)) sys (sys_service env (service_index c) (?as x) sys)" for x
  proof (rule ok_from [OF service_ok [OF inv]])
    show "effects_ok N (server_effects (?as x))"
      by (cases x) (simp_all add: CommandService_on_response_def)
    show "service_weight (service_index c) (?as x) + credit sys \<le> prep (service_index c) + credit sys"
    proof (cases x)
      case (Inl e)
      with resolving [of "service_index c" e "sys_server sys"] preparing(2) [of "service_index c"] show ?thesis
        by (simp add: CommandService_on_response_def)
    qed (simp add: CommandService_on_response_def preparing)
  qed
  with Preparing fits show ?thesis by (cases r) (auto simp: sys_result_def preparing)
next
  case User
  with ok_idle [OF inv] show ?thesis by (cases r) (simp_all add: sys_result_def unweighted)
qed

definition event_cost :: "sys_event \<Rightarrow> int" where
  "event_cost ev = (case server_event ev of None \<Rightarrow> 0 | Some e \<Rightarrow> cost e)"

definition event_allowed :: "sys_event \<Rightarrow> bool" where
  "event_allowed ev \<longleftrightarrow> user_ok ev \<and> (\<forall>e. server_event ev = Some e \<longrightarrow> allowed e)"

lemma step_ok:
  assumes inv: "inv k sys" and ev: "event_allowed ev"
  shows "ok k (event_cost ev) sys (sys_step env sys ev)"
proof (cases "server_event ev")
  case None
  then obtain cev where c: "ev = Sys_client cev" by (cases ev) auto
  show ?thesis
  proof (cases "\<exists>call. cev = Call call")
    case True
    then obtain call where call: "cev = Call call" ..
    have "owned (cls_client (host_cls sys)) (cls_ops (host_cls sys))" using inv by (simp add: inv_iff sys_inv_def)
    from ok_opens [OF inv, of User] opens_call [OF this] ev show ?thesis
      by (simp add: c call event_cost_def event_allowed_def unweighted)
  next
    case False
    then have "ok k 0 sys (host_client Client_output (sys_result env) (fst env) cev sys)"
      by (intro client_event_ok [OF inv_any [OF inv]]) (auto intro: result_ok inv_any)
    with False show ?thesis by (cases cev) (simp_all add: c event_cost_def)
  qed
next
  case (Some e)
  then have "sys_step env sys ev = sys_rpc env e sys" "rpc_event_ok N e" by (cases ev; auto)+
  with Some ev rpc_ok [OF inv, of e env] show ?thesis by (simp add: event_cost_def event_allowed_def)
qed

lemma runs_ok:
  "inv 0 sys \<Longrightarrow> \<forall>(env, ev) \<in> set evs. event_allowed ev \<Longrightarrow>
   ok 0 (\<Sum>(env, ev) \<leftarrow> evs. event_cost ev) sys (run_machine (\<lambda>sys (env, ev). sys_step env sys ev) sys evs)"
  by (rule run_ok [where allowed = "\<lambda>(env, ev). event_allowed ev" and n = 0])
    (auto intro: step_ok inv_any)

end

section \<open>The calls of a service\<close>

text \<open>
  How often service \<open>i\<close> was called, how many writes of its status are under way, and how often its
  functor was called, by itself or by an event.
\<close>

definition executed :: "nat \<Rightarrow> sys_output list \<Rightarrow> nat" where
  "executed i out = length (filter (\<lambda>x. x = Executed i) out)"

definition open_writes :: "nat \<Rightarrow> rpc_system \<Rightarrow> nat" where
  "open_writes i = open_count (\<lambda>p. p = Writing i)"

definition functor_calls :: "nat \<Rightarrow> sys_output list \<Rightarrow> nat" where
  "functor_calls i out = length (filter (\<lambda>x. x = Functor_called i) out)"

lemma executed_simps [simp]:
  "executed i [] = 0"
  "executed i (x # out) = of_bool (x = Executed i) + executed i out"
  "executed i (out @ out') = executed i out + executed i out'"
  by (simp_all add: executed_def)

lemma total_calls:
  "total (\<lambda>x. of_bool (x = Executed i) - of_bool (x = Functor_called i)) out
    = int (executed i out) - int (functor_calls i out)"
  by (induction out) (simp_all add: functor_calls_def)

lemma effects_weight_calls:
  "effects_weight (\<lambda>x. of_bool (x = Executed i) - of_bool (x = Functor_called i))
    (\<lambda>p. of_bool (p = Writing i)) (\<lambda>_. 0) es = int (executions i es)"
proof (induction es)
  case (Cons e es)
  then show ?case by (cases e) auto
qed simp

text \<open>
  A call of a service is paid for by its busy flag, and the flag by the write of its status, which
  only a call of its functor pays for.
\<close>

interpretation calls: rpc_account "\<lambda>x. of_bool (x = Executed i) - of_bool (x = Functor_called i)"
  "\<lambda>p. of_bool (p = Writing i)" "\<lambda>_. 0" "\<lambda>s. of_bool (service_busy s i)" "\<lambda>ev. of_bool (\<exists>r. ev = Write_done i r)" "\<lambda>_. True" "\<lambda>_. True" N for i N
proof (unfold_locales, goal_cases)
  case (1 s ev s' es)
  show ?case
    using step_busy [OF 1(3), of i]
    by (cases "service_busy s i"; cases "service_busy s' i"; cases "\<exists>r. ev = Write_done i r")
      (simp_all add: effects_weight_calls)
next
  case (6 j err s)
  show ?case by (simp add: effects_weight_calls RpcServer_resolve_def)
qed auto

lemma calls_cost: "(\<Sum>(env, ev) \<leftarrow> evs. calls.event_cost i ev) = 0"
proof (induction evs)
  case (Cons e evs)
  then show ?case by (cases e; cases "snd e") (auto simp: calls.event_cost_def)
qed simp

section \<open>The callbacks of services with parameters\<close>

text \<open>How often the callback of service \<open>i\<close> was called, and how many times its commands are under way.\<close>

definition called :: "nat \<Rightarrow> sys_output list \<Rightarrow> nat" where
  "called i out = length (filter (\<lambda>x. case x of Called j rs \<Rightarrow> j = i | _ \<Rightarrow> False) out)"

definition open_preparations :: "nat \<Rightarrow> rpc_system \<Rightarrow> nat" where
  "open_preparations i = open_count (\<lambda>p. case p of Preparing c \<Rightarrow> service_index c = i | _ \<Rightarrow> False)"

lemma total_called:
  "total (\<lambda>x. of_bool (case x of Called j rs \<Rightarrow> j = i | _ \<Rightarrow> False) - of_bool (x = Executed i)) out
    = int (called i out) - int (executed i out)"
  by (induction out) (simp_all add: called_def)

lemma effects_weight_called:
  "effects_weight (\<lambda>x. of_bool (case x of Called j rs \<Rightarrow> j = i | _ \<Rightarrow> False) - of_bool (x = Executed i))
    (\<lambda>p. of_bool (case p of Preparing c \<Rightarrow> service_index c = i | _ \<Rightarrow> False)) (\<lambda>j. of_bool (j = i)) es = 0"
proof (induction es)
  case (Cons e es)
  then show ?case by (cases e) auto
qed simp

text \<open>A call of the callback is paid for by the commands, which the execution of the service pays for.\<close>

interpretation callbacks: rpc_account
  "\<lambda>x. of_bool (case x of Called j rs \<Rightarrow> j = i | _ \<Rightarrow> False) - of_bool (x = Executed i)"
  "\<lambda>p. of_bool (case p of Preparing c \<Rightarrow> service_index c = i | _ \<Rightarrow> False)" "\<lambda>j. of_bool (j = i)"
  "\<lambda>_. 0" "\<lambda>_. 0" "\<lambda>_. True" "\<lambda>_. True" N for i N
  by unfold_locales (simp_all add: effects_weight_called)

section \<open>The polling of the statuses\<close>

definition waits :: "sys_output list \<Rightarrow> nat" where
  "waits out = length (filter (\<lambda>x. x = Waiting) out)"

definition open_reads :: "rpc_system \<Rightarrow> nat" where
  "open_reads = open_count (\<lambda>p. \<exists>n. p = Reading n)"

text \<open>The ends of the timer, without those that are cancelled.\<close>

definition fired :: "(env \<times> sys_event) list \<Rightarrow> nat" where
  "fired evs = length (filter (\<lambda>(env, ev). \<exists>err. ev = Sys_timer err \<and> err \<noteq> operation_aborted) evs)"

lemma total_waits: "total (\<lambda>x. k * of_bool (x = Waiting)) out = k * int (waits out)"
  by (induction out) (simp_all add: waits_def algebra_simps)

lemma effects_weight_polls:
  "effects_weight (\<lambda>x. k * of_bool (x = Waiting)) (\<lambda>p. k * of_bool (\<exists>n. p = Reading n)) (\<lambda>_. 0) es
    = k * int (length (polls es))"
proof (induction es)
  case (Cons e es)
  then show ?case by (cases e) (auto simp: algebra_simps)
qed simp

lemma polls_readCommands [simp]:
  "length (polls (readCommands s)) = 1" "length (polls (startReadCommandsTimer s)) = 1"
  by (simp_all add: startReadCommandsTimer_def readCommands_def Let_def)

definition polls_again :: "rpc_event \<Rightarrow> bool" where
  "polls_again ev \<longleftrightarrow> (\<exists>n r. ev = Read_done n r) \<or> (\<exists>err. ev = Timer_done err \<and> err \<noteq> operation_aborted)"

lemma polls_again_simps [simp]:
  "polls_again (Read_done n r)" "polls_again (Timer_done err) \<longleftrightarrow> err \<noteq> operation_aborted"
  "\<not> polls_again Start" "\<not> polls_again Stop" "\<not> polls_again (Write_done i u)"
  "\<not> polls_again (Resolved_service i e)"
  by (auto simp: polls_again_def)

lemma step_polls:
  assumes "server_started s" "ev \<noteq> Stop" "RpcServer_step s ev = Returns (s', es)"
  shows "server_started s' \<and> length (polls es) = of_bool (polls_again ev)"
proof (cases ev)
  case (Read_done n r)
  with assms check_statuses_busy check_statuses_polls show ?thesis
    by (fastforce simp: RpcServer_read_done_def split: sum.splits)
qed (use assms in \<open>auto simp: RpcServer_start_def RpcServer_timer_def RpcServer_resolve_def
    RpcServer_write_done_def split: if_splits sum.splits\<close>)

text \<open>
  While the server is started, a read that is answered and a timer that ends give way to one
  read or one timer.  The factor lets the account be read in both directions.
\<close>

interpretation polling: rpc_account "\<lambda>x. k * of_bool (x = Waiting)"
  "\<lambda>p. k * of_bool (\<exists>n. p = Reading n)" "\<lambda>_. 0" "\<lambda>_. 0" "\<lambda>ev. k * of_bool (polls_again ev)"
  server_started "\<lambda>ev. ev \<noteq> Stop" N for k N
proof (unfold_locales, goal_cases)
  case (1 s ev s' es)
  from step_polls [OF 1] show ?case by (simp add: effects_weight_polls)
next
  case (6 j err s)
  show ?case by (simp add: effects_weight_polls RpcServer_resolve_def)
qed auto

lemma polling_cost: "(\<Sum>(env, ev) \<leftarrow> evs. polling.event_cost k ev) = k * int (fired evs)"
proof (induction evs)
  case (Cons e evs)
  then show ?case
    by (cases e; cases "snd e") (auto simp: polling.event_cost_def fired_def algebra_simps)
qed (simp add: fired_def)

end
