(* ===== verification/Rpc_Calls.thy ===== *)
theory Rpc_Calls
  imports Rpc_Account
begin

text \<open>
  What the accounts of \<open>Rpc_Account\<close> say of the running system, and what one answer of the controller does
  to it: the services whose status says that they are requested are called, those that are idle,
  and no others.
\<close>

section \<open>The answer\<close>

lemma decode_uint8_Cons: "decode_uint8 (v # data) = Some (Inr v, data)"
  by (simp add: decode_uint8_def codec_simps)

lemma decode_uint8s: "decode_loop decode_uint8 (length vs) (vs @ data) acc = Some (Inr (acc @ vs), data)"
  by (induction vs arbitrary: acc) (simp_all add: decode_uint8_Cons)

text \<open>The statuses as the controller sends them: their number and their values.\<close>

definition status_data :: "u8 list \<Rightarrow> bytes" where
  "status_data vs = le_bytes (of_nat (length vs) :: u32) @ vs"

lemma decode_statuses:
  assumes n: "length vs = unat (rvs_count c)" "length vs \<noteq> 1"
  shows "decode_command (status_data vs) (ReadUint8Vars c) = Some (Inr (Uint8s_response vs), [])"
proof -
  have "length vs < 256" using unsigned_less [of "rvs_count c"] n(1) by simp
  then have "sint (of_nat (length vs) :: u32) = int (length vs)"
    by (simp add: signed_of_nat signed_take_bit_int_eq_self)
  moreover have "uint (rvs_count c) = int (length vs)" using n(1) by (simp only: uint_nat)
  moreover have "rvs_count c \<noteq> 1" using n by auto
  ultimately show ?thesis
    using decode_uint8s [of vs "[]" "[]"]
    by (simp add: decodeReadVars_def status_data_def uint8_traits_def respond_def n(1) [symmetric] codec_simps)
qed

section \<open>The calls\<close>

lemma check_statuses_requested:
  assumes "check_statuses vs is s = Returns (s', es)" "distinct is"
  shows "executions i es = of_bool (i \<in> set is \<and> vs ! i = status_requested \<and> \<not> service_busy s i)"
  using assms
proof (induction "is" arbitrary: s es)
  case Nil
  then show ?case by simp
next
  case (Cons j "is")
  then obtain s1 es1 es2 where
    st: "(if vs ! j = status_requested then RpcServer_execute j s else Returns (s, [])) = Returns (s1, es1)"
    and r: "check_statuses vs is s1 = Returns (s', es2)" and es: "es = es1 @ es2"
    by (auto split: if_splits)
  have "i \<noteq> j \<Longrightarrow> service_busy s1 i = service_busy s i"
    using st by (auto simp: RpcServer_execute_def service_busy_def split: if_splits)
  moreover have "executions i es1 = of_bool (i = j \<and> vs ! i = status_requested \<and> \<not> service_busy s i)"
    using st by (auto simp: RpcServer_execute_def service_busy_def split: if_splits)
  ultimately show ?case using Cons.IH [OF r] Cons.prems(2) by (auto simp: es)
qed

lemma executed_client [simp]: "executed i (map Client_output out) = 0"
  by (induction out) simp_all

lemma sys_open_executed:
  "sys_open p f sys = Returns (sys', out) \<Longrightarrow> executed i out = 0 \<and> sys_server sys' = sys_server sys"
  by (auto simp: host_open_def)

lemma sys_rpc_effects_executed:
  "sys_rpc_effects now es sys = Returns (sys', out) \<Longrightarrow>
   executed i out = executions i es \<and> sys_server sys' = sys_server sys"
proof (induction now es sys arbitrary: out rule: sys_rpc_effects.induct)
  case (2 now cmd n es sys)
  then show ?case by (auto simp: and_then_def dest!: sys_open_executed [where i = i])
next
  case (3 now cmd j es sys)
  then show ?case by (fastforce simp: and_then_def put_def dest!: sys_open_executed [where i = i])
next
  case (4 now j es sys)
  then show ?case
    by (fastforce simp: and_then_def put_def dest!: sys_open_executed [where i = i] split: option.splits)
qed (auto simp: put_def)

lemma service_calls_executions [simp]: "executions i (service_calls calls svcs s es) = executions i es"
proof (induction es)
  case (Cons e es)
  have "executions i (concat (map (\<lambda>err. RpcServer_resolve j err s) errs)) = 0" for j errs
    by (induction errs) (simp_all add: RpcServer_resolve_def)
  with Cons show ?case by (cases e) (simp_all add: functor_effects_def)
qed simp

text \<open>An answer to the reading of the statuses comes to the server as such.\<close>

lemma sys_answer:
  assumes inv: "sys_inv N sys" and N: "N \<le> 254"
    and h: "find_handler (cls_client (host_cls sys)) (request_id hdr) = Some (n, i)" "host_purposes sys ! n = Reading m"
    and hdr: "response_header_ok hdr" "status hdr = 0" "length (status_data vs) = unat (payload_size hdr)"
      "length r8 = 8" "length r2 = 2" "length p2 = 2"
    and vs: "length vs = (N + 1) div 2 * 2"
  shows "\<exists>sys1 a b. sys_server sys1 = sys_server sys
    \<and> sys_step env sys (Sys_client (Datagram ec_success (response_bytes hdr r1 r8 r2 p2 (status_data vs))))
      = obind (sys_rpc env (Read_done N (Inr vs)) sys1) (\<lambda>(sys', out).
          Returns (sys', map Client_output a @ out @ map Client_output b))"
proof -
  let ?c = "cls_client (host_cls sys)" and ?ops = "cls_ops (host_cls sys)"
  have owned: "owned ?c ?ops" and ps: "list_all2 (purpose_ok N) ?ops (host_purposes sys)"
    using inv by (simp_all add: sys_inv_def)
  from owned_find [OF owned, of "request_id hdr" n] h(1) have n: "n < length ?ops"
    "op_tokens (?ops ! n) \<noteq> []" by auto
  have np: "n < length (host_purposes sys)" using n(1) list_all2_lengthD [OF ps] by simp
  from list_all2_nthD [OF ps n(1)] h(2) obtain s c where s: "?ops ! n = Command_op s" and m: "m = N"
    and c: "cs_command s = ReadUint8Vars c" "rvs_count c = status_count N" by auto
  have "op_ok (?ops ! n)" using owned n(1) by (simp add: owned_def)
  then obtain token where t: "cs_handler s = Some token" by (auto simp: s CommandSession_ok_def)
  have nd: "\<not> cs_done s" using n(2) by (auto simp: s CommandSession_tokens_def)
  have "length vs = unat (rvs_count c)" "length vs \<noteq> 1"
    using vs count_covers(1) [OF N] c(2) by (simp_all add: status_count_def)
  note d = decode_statuses [OF this]
  have st: "deadline_step CommandSession_step (\<lambda>e. CommandSession_resolve (Inl e)) s
      (Work (Reply hdr (status_data vs)))
    = Returns (s\<lparr>cs_done := True\<rparr>, [Remove token, Cancel_timer, Complete (Inr (Uint8s_response vs)), Post_reset])"
    using hdr(2) nd t by (simp add: step_simps of_read_def c(1) d del: decode_command.simps)
  have "token \<in> set (op_tokens (?ops ! n))" by (simp add: s CommandSession_tokens_def nd t)
  then have "token \<in> set (all_tokens ?ops)" using n(1) by (auto simp: all_tokens_def)
  then have "client_inv ?c" "valid_token ?c token" using owned by (simp_all add: owned_def)
  from registry.remove_valid [OF this] obtain client' where r: "removeHandler token ?c = Returns client'" by blast
  have "onReceive ec_success (response_bytes hdr r1 r8 r2 p2 (status_data vs)) ?c
      = Some [Invoke (n, i) hdr (status_data vs), Receive]"
    using h(1) decodeResponseHeader_complete [OF hdr(4-6,1,3)]
    by (auto simp: onReceive_def find_handler_def ec_success_def is_operation_canceled_def ec_is_error_def)
  note received = this
  let ?sys = "sys\<lparr>host_cls := (host_cls sys)\<lparr>cls_ops := ?ops[n := Command_op (s\<lparr>cs_done := True\<rparr>)], cls_client := client'\<rparr>\<rparr>"
  let ?a = "[Op_output n Cancel_timer, Op_output n (Complete (Inr (Response_of (Uint8s_response vs))))]"
  have "sys_step env sys (Sys_client (Datagram ec_success (response_bytes hdr r1 r8 r2 p2 (status_data vs))))
    = obind (sys_rpc env (Read_done N (Inr vs)) ?sys) (\<lambda>(sys', out).
        Returns (sys', map Client_output ?a @ out @ map Client_output [Op_output n Post_reset]))"
    using received n(1) np h(2) r
    by (simp add: of_read_def cls_op_def s st lift_step_def put_def sys_result_def m obind_assoc and_then_def
        host_client_def case_prod_unfold del: deadline_step.simps)
  moreover have "sys_server ?sys = sys_server sys" by simp
  ultimately show ?thesis by blast
qed

lemma sys_read_done_executed:
  assumes "sys_rpc env (Read_done N (Inr vs)) sys = Returns (sys', out)"
  shows "executed i out = of_bool (i < N \<and> vs ! i = status_requested \<and> \<not> service_busy (sys_server sys) i)"
proof -
  obtain s1 es where st: "check_statuses vs [0..<N] (sys_server sys) = Returns (s1, es)"
    and e: "sys_rpc_effects (fst env) (service_calls (snd env) (sys_services sys) s1
        (es @ (if server_started s1 then startReadCommandsTimer s1 else [])))
      (sys\<lparr>sys_server := s1\<rparr>) = Returns (sys', out)"
    using assms by (auto simp: sys_rpc_def RpcServer_read_done_def)
  from sys_rpc_effects_executed [OF e] check_statuses_requested [OF st, of i] show ?thesis
    by (simp split: if_splits)
qed

section \<open>The system from its start\<close>

lemma sys_new_inv:
  assumes "length specs \<le> 254" "\<forall>spec \<in> set specs. spec_encodable spec"
  shows "calls.inv (length specs) i 0 (sys_new base delay specs)"
    "callbacks.inv (length specs) i 0 (sys_new base delay specs)"
    "calls.credit i (sys_new base delay specs) = 0" "callbacks.credit i (sys_new base delay specs) = 0"
  using assms by (simp_all add: calls.inv_iff callbacks.inv_iff calls.credit_def callbacks.credit_def
    sys_new_facts open_load_def)

lemma sys_run_ok:
  assumes "length specs \<le> 254" "\<forall>spec \<in> set specs. spec_encodable spec" "\<forall>(env, ev) \<in> set evs. user_ok ev"
  shows "calls.ok (length specs) i 0 0 (sys_new base delay specs) (sys_run (sys_new base delay specs) evs)"
    "callbacks.ok (length specs) i 0 0 (sys_new base delay specs) (sys_run (sys_new base delay specs) evs)"
proof -
  note new = sys_new_inv [OF assms(1,2)]
  have "\<forall>(env, ev) \<in> set evs. calls.event_allowed ev" "\<forall>(env, ev) \<in> set evs. callbacks.event_allowed ev"
    using assms(3) by (simp_all add: calls.event_allowed_def callbacks.event_allowed_def)
  note runs = calls.runs_ok [OF new(1) this(1), of i base delay] callbacks.runs_ok [OF new(2) this(2), of i base delay]
  have "(\<Sum>(env, ev) \<leftarrow> evs. callbacks.event_cost ev) = 0"
    by (induction evs) (auto simp: callbacks.event_cost_def split: option.split)
  with runs show "calls.ok (length specs) i 0 0 (sys_new base delay specs) (sys_run (sys_new base delay specs) evs)"
    "callbacks.ok (length specs) i 0 0 (sys_new base delay specs) (sys_run (sys_new base delay specs) evs)"
    by (simp_all add: calls_cost)
qed

lemma run_inv:
  assumes "length specs \<le> 254" "\<forall>spec \<in> set specs. spec_encodable spec" "\<forall>(env, ev) \<in> set evs. user_ok ev"
    and "sys_run (sys_new base delay specs) evs = Returns (sys, out)"
  shows "calls.inv (length specs) i 0 sys"
  using sys_run_ok(1) [OF assms(1-3), of i base delay] assms(4) by (auto simp: calls.ok_def)

section \<open>The server and the client together\<close>


definition example_specs :: "service_spec list" where
  "example_specs = [Plain ''a'', With_commands ''b'' [ReadUint8Var \<lparr>rv_index = 1\<rparr>] 100]"

lemma example_specs_encodable: "\<forall>spec \<in> set example_specs. spec_encodable spec" "length example_specs = 2"
  by (simp_all add: example_specs_def encodable_def)


text \<open>
  C12: In the running system, with its operations and datagrams, a service is never called
  while an earlier call of it is unfinished: it has been called at most once more often than
  its functor was, and not more often when it is idle, whatever its status variable and the
  network say, and whether services call their functors before they return or later. Nor is
  the callback of a service with parameters ever called twice for one execution: the callbacks
  and the preparations under way together are no more than the executions.
\<close>

theorem rpc_system_exclusive:
  assumes "length specs \<le> 254" "\<forall>spec \<in> set specs. spec_encodable spec" "\<forall>(env, ev) \<in> set evs. user_ok ev"
    and "sys_run (sys_new base delay specs) evs = Returns (sys, out)"
  shows "executed i out + open_writes i sys \<le> functor_calls i out + of_bool (service_busy (sys_server sys) i)
    \<and> called i out + open_preparations i sys \<le> executed i out"
  using sys_run_ok [OF assms(1-3), of i base delay] assms(4)
  by (auto simp: calls.ok_def calls.credit_def [of i sys] total_calls open_load_count sys_new_inv [OF assms(1,2)]
      callbacks.ok_def callbacks.credit_def [of i sys] total_called open_writes_def open_preparations_def)

lemmas sys_run_eval = host_client_def example_specs_def sys_rpc_def sys_new_def addService_def addCommandService_def new_RpcServer_def
  RpcServer_start_def readCommands_def Let_def host_open_def put_def cls_add_def cls_new_def sendCommand_def
  DeadlineSession_start_def CommandSession_new_def CommandSession_start_def allocateId_def new_Client_def
  registerHandler_def encodeReadVars_def encodeWriteVar_def uint8_traits_def encode_uint8_def

lemma rpc_system_exclusive_witness:
  "\<exists>sys out. sys_run (sys_new 10 1000 example_specs)
      [(quiet 0, Sys_start), (quiet 7, Sys_resolved 1 no_error)] = Returns (sys, out)
    \<and> open_writes 1 sys = 1
    \<and> executed 1 out + open_writes 1 sys \<le> 1 + of_bool (service_busy (sys_server sys) 1)
    \<and> called 1 out + open_preparations 1 sys \<le> executed 1 out"
proof -
  let ?evs = "[(quiet 0, Sys_start), (quiet 7, Sys_resolved 1 no_error)]"
  have "\<exists>sys out. sys_run (sys_new 10 1000 example_specs) ?evs = Returns (sys, out)
    \<and> open_writes 1 sys = 1 \<and> functor_calls 1 out = 1"
    by (simp add: sys_run_eval RpcServer_resolve_def open_writes_def open_count_def functor_calls_def)
  then obtain sys out where r: "sys_run (sys_new 10 1000 example_specs) ?evs = Returns (sys, out)"
    and "open_writes 1 sys = 1" "functor_calls 1 out = 1" by blast
  moreover have "executed 1 out + open_writes 1 sys \<le> 1 + of_bool (service_busy (sys_server sys) 1)
      \<and> called 1 out + open_preparations 1 sys \<le> executed 1 out"
    using rpc_system_exclusive [OF _ _ _ r, of 1] \<open>functor_calls 1 out = 1\<close>
    by (simp add: example_specs_encodable)
  ultimately show ?thesis by blast
qed

text \<open>The first step, the call of \<open>start\<close>, sends the first read.\<close>

lemma service_calls_readCommands: "service_calls calls svcs s (readCommands s') = readCommands s'"
  by (simp add: readCommands_def Let_def)

lemma sys_start_polls:
  assumes "length specs \<le> 254" and specs: "\<forall>spec \<in> set specs. spec_encodable spec"
  shows "polling.ok (length specs) k 0 (k * 1) (sys_new base delay specs)
    (sys_step env (sys_new base delay specs) Sys_start)"
proof -
  let ?sys = "sys_new base delay specs"
  let ?s = "(sys_server ?sys)\<lparr>server_started := True\<rparr>"
  note new = sys_new_facts [OF specs, of base delay]
  have "length (services ?s) = length specs" using new(1) by (simp add: sys_inv_def)
  note e = readCommands_ok(1) [OF this assms(1)]
  have "polling.inv (length specs) k 0 (?sys\<lparr>sys_server := ?s\<rparr>)"
    using new(1) assms(1) by (simp add: polling.inv_iff sys_inv_def)
  from polling.effects_ok [OF e this, of "fst env"]
  have "polling.ok (length specs) k 0 (k * 1) ?sys (sys_rpc_effects (fst env) (readCommands ?s) (?sys\<lparr>sys_server := ?s\<rparr>))"
    by (rule polling.ok_from) (simp_all add: effects_weight_polls polling.credit_def)
  moreover have "readCommands ?s = readCommands (sys_server ?sys)" by (simp add: readCommands_def)
  ultimately show ?thesis using new(2) by (simp add: sys_rpc_def RpcServer_start_def service_calls_readCommands)
qed

lemma polling_run:
  assumes "length specs \<le> 254" "\<forall>spec \<in> set specs. spec_encodable spec"
    and "\<forall>(env, ev) \<in> set evs. user_ok ev \<and> ev \<noteq> Sys_stop"
  shows "polling.ok (length specs) k 0 (k * (1 + int (fired evs))) (sys_new base delay specs)
    (sys_run (sys_new base delay specs) ((env, Sys_start) # evs))"
proof -
  have "\<forall>(env, ev) \<in> set evs. polling.event_allowed ev"
    using assms(3) by (auto simp: polling.event_allowed_def elim!: server_event.elims)
  from polling.ok_then [OF sys_start_polls [OF assms(1,2)] polling.runs_ok [OF _ this]] show ?thesis
    by (simp add: polling_cost algebra_simps and_then_def)
qed

section \<open>Properties of the answer and of the polling\<close>

text \<open>
  C13: When the controller answers the running system's question for the statuses, exactly the
  services it says are requested are called, once each, except those that are still busy;
  whatever the services do with their functors at once; unless the next question finds no free
  request id.
\<close>

theorem requested_services_are_called:
  assumes "length specs \<le> 254" "\<forall>spec \<in> set specs. spec_encodable spec" "\<forall>(env, ev) \<in> set evs. user_ok ev"
    and "sys_run (sys_new base delay specs) evs = Returns (sys, out)"
    and "find_handler (cls_client (host_cls sys)) (request_id hdr) = Some (n, j)" "host_purposes sys ! n = Reading m"
    and "response_header_ok hdr" "status hdr = 0" "length (status_data vs) = unat (payload_size hdr)"
      "length r8 = 8" "length r2 = 2" "length p2 = 2"
    and "length vs = (length specs + 1) div 2 * 2"
  shows "case sys_step env sys
        (Sys_client (Datagram ec_success (response_bytes hdr r1 r8 r2 p2 (status_data vs)))) of
      Returns (sys', out') \<Rightarrow> \<forall>i. executed i out' =
        (if i < length specs \<and> vs ! i = status_requested \<and> \<not> service_busy (sys_server sys) i then 1 else 0)
    | Throws e \<Rightarrow> \<exists>rid. e = request_id_taken rid
    | _ \<Rightarrow> False"
proof -
  let ?ev = "Sys_client (Datagram ec_success (response_bytes hdr r1 r8 r2 p2 (status_data vs)))"
  have inv: "calls.inv (length specs) 0 0 sys" by (rule run_inv [OF assms(1-4)])
  then have sys: "sys_inv (length specs) sys" by (simp add: calls.inv_iff)
  obtain sys1 a b where s1: "sys_server sys1 = sys_server sys"
    and st: "sys_step env sys ?ev = obind (sys_rpc env (Read_done (length specs) (Inr vs)) sys1)
      (\<lambda>(sys', out). Returns (sys', map Client_output a @ out @ map Client_output b))"
    using sys_answer [OF sys assms(1,5-13)] by blast
  define step where "step = sys_step env sys ?ev"
  have "calls.ok (length specs) 0 0 0 sys step"
    using calls.step_ok [OF inv, of ?ev env]
    by (simp add: step_def calls.event_allowed_def calls.event_cost_def)
  then have "case step of
      Returns (sys', out') \<Rightarrow> \<forall>i. executed i out' =
        (if i < length specs \<and> vs ! i = status_requested \<and> \<not> service_busy (sys_server sys) i then 1 else 0)
    | Throws e \<Rightarrow> \<exists>rid. e = request_id_taken rid
    | _ \<Rightarrow> False"
    unfolding calls.ok_def
  proof (elim disjE exE conjE)
    fix sys' out'
    assume r: "step = Returns (sys', out')"
    then obtain out1 where "sys_rpc env (Read_done (length specs) (Inr vs)) sys1 = Returns (sys', out1)"
      and "out' = map Client_output a @ out1 @ map Client_output b"
      unfolding step_def st by (auto simp del: sys_step.simps)
    with sys_read_done_executed [OF this(1)] r show ?thesis by (simp add: s1)
  qed auto
  then show ?thesis by (simp only: step_def)
qed

lemma requested_services_are_called_witness:
  "\<exists>sys out. sys_run (sys_new 10 1000 example_specs) [(quiet 0, Sys_start)] = Returns (sys, out)
    \<and> (case sys_step (5, \<lambda>i. disabledService) sys (Sys_client (Datagram ec_success
        (response_bytes (example_response\<lparr>request_id := 1, payload_size := 6\<rparr>) 3 (replicate 8 0x39) [0, 0] [0, 0]
          (status_data [1, 0])))) of
      Returns (sys', out') \<Rightarrow> \<forall>i. executed i out' = (if i = 0 then 1 else 0)
    | Throws e \<Rightarrow> \<exists>rid. e = request_id_taken rid
    | _ \<Rightarrow> False)"
proof -
  let ?hdr = "example_response\<lparr>request_id := 1, payload_size := 6\<rparr>"
  have "\<exists>sys out. sys_run (sys_new 10 1000 example_specs) [(quiet 0, Sys_start)] = Returns (sys, out)
    \<and> find_handler (cls_client (host_cls sys)) 1 = Some (0, 0) \<and> host_purposes sys ! 0 = Reading 2
    \<and> (\<forall>i. \<not> service_busy (sys_server sys) i)"
    by (simp add: sys_run_eval find_handler_def service_busy_def nth_Cons' status_count_def)
  then obtain sys out where r: "sys_run (sys_new 10 1000 example_specs) [(quiet 0, Sys_start)] = Returns (sys, out)"
    and h: "find_handler (cls_client (host_cls sys)) 1 = Some (0, 0)" "host_purposes sys ! 0 = Reading 2"
    and busy: "\<And>i. \<not> service_busy (sys_server sys) i" by blast
  have "response_header_ok ?hdr" "status ?hdr = 0" "length (status_data [1, 0]) = unat (payload_size ?hdr)"
    by (simp_all add: example_response_def response_header_ok_def max_payload_size_def status_data_def)
  note answer = requested_services_are_called [OF _ _ _ r, of ?hdr 0 0 2 "[1, 0]" "replicate 8 0x39" "[0, 0]" "[0, 0]"
    "(5, \<lambda>i. disabledService)" 3, OF _ _ _ _ h(2) this]
  have c: "(i < length example_specs \<and> [1, 0] ! i = status_requested \<and> \<not> service_busy (sys_server sys) i)
      \<longleftrightarrow> i = 0" for i
    by (cases "i = 1") (auto simp: busy nth_Cons' status_requested_def example_specs_encodable)
  note answer' = answer [unfolded c]
  have "find_handler (cls_client (host_cls sys)) (request_id ?hdr) = Some (0, 0)" using h(1) by simp
  from answer' [OF _ _ _ this] r show ?thesis
    by (intro exI conjI) (assumption, simp add: example_specs_encodable del: sys_step.simps)
qed

text \<open>
  C14: A server that has been started and is not stopped polls for ever, and only once: after
  any run there is exactly one read of the statuses under way, or one wait for the timer that
  has not ended yet, whatever answers are lost or refused.
\<close>

theorem rpc_system_polls:
  assumes "length specs \<le> 254" "\<forall>spec \<in> set specs. spec_encodable spec"
    and "\<forall>(env, ev) \<in> set evs. user_ok ev \<and> ev \<noteq> Sys_stop"
    and "sys_run (sys_new base delay specs) ((env, Sys_start) # evs) = Returns (sys, out)"
  shows "open_reads sys + waits out = 1 + fired evs"
proof -
  have "polling.credit k (sys_new base delay specs) = 0" for k
    by (simp add: polling.credit_def sys_new_facts [OF assms(2)] open_load_def)
  with polling_run [OF assms(1-3), where base = base and delay = delay and env = env] assms(4)
  have "k * int (waits out) \<le> k * (1 + int (fired evs)) - k * int (open_reads sys)" for k
    by (fastforce simp: polling.ok_def polling.credit_def [of _ sys] total_waits open_load_count open_reads_def)
  from this [of 1] this [of "-1"] show ?thesis by simp
qed

lemma rpc_system_polls_witness:
  "\<exists>sys out. sys_run (sys_new 10 1000 example_specs)
      [(quiet 0, Sys_start), (quiet 100, Sys_client (Timer_of 0 ec_success))] = Returns (sys, out)
    \<and> open_reads sys + waits out = 1"
proof -
  let ?evs = "[(quiet 0, Sys_start), (quiet 100, Sys_client (Timer_of 0 ec_success))]"
  have "\<exists>sys out. sys_run (sys_new 10 1000 example_specs) ?evs = Returns (sys, out)"
    by (simp add: sys_run_eval cls_op_def lift_step_def deadline_timer_def CommandSession_resolve_def ec_success_def
        operation_aborted_def ec_is_error_def removeHandler_def sys_result_def RpcServer_read_done_def
        startReadCommandsTimer_def valid_token_def)
  then obtain sys out where r: "sys_run (sys_new 10 1000 example_specs) ?evs = Returns (sys, out)" by blast
  have "open_reads sys + waits out = 1"
    using rpc_system_polls [OF _ _ _ r] by (simp add: fired_def example_specs_encodable)
  with r show ?thesis by blast
qed

end
