(* ===== verification/Yaml.thy ===== *)
theory Yaml
  imports Types
begin

text \<open>
  Positions in YAML files: \<open>include/yaskawa_ethernet/yaml.hpp\<close> and \<open>src/yaml.cpp\<close>.  The
  library yaml-cpp is a parameter: a record of the operations on nodes the code calls, over a
  type of nodes.  \<open>yaml_laws\<close> states what yaml-cpp documents about them.  So is the exception
  that \<open>value()\<close> of an estd result throws for an error.
\<close>

section \<open>The operations of yaml-cpp\<close>

record 'n yaml =
  y_new :: 'n
  y_set :: "'n \<Rightarrow> string \<Rightarrow> 'n \<Rightarrow> 'n"
  y_get :: "'n \<Rightarrow> string \<Rightarrow> 'n"
  y_isMap :: "'n \<Rightarrow> bool"
  y_size :: "'n \<Rightarrow> nat"
  y_of_double :: "double \<Rightarrow> 'n"
  y_of_int :: "i32 \<Rightarrow> 'n"
  y_of_string :: "string \<Rightarrow> 'n"
  y_as_double :: "'n \<Rightarrow> double outcome"
  y_as_int :: "'n \<Rightarrow> i32 outcome"
  y_as_string :: "'n \<Rightarrow> string outcome"
  y_bad_conversion :: exn

section \<open>Coordinate systems\<close>

definition encode_yaml_CoordinateSystem :: "'n yaml \<Rightarrow> CoordinateSystem \<Rightarrow> 'n outcome" where
  "encode_yaml_CoordinateSystem y cs = obind (toString cs) (\<lambda>s. Returns (y_of_string y s))"

definition decode_yaml_CoordinateSystem ::
    "'n yaml \<Rightarrow> (error \<Rightarrow> exn) \<Rightarrow> 'n \<Rightarrow> (bool \<times> CoordinateSystem) outcome" where
  "decode_yaml_CoordinateSystem y bad node =
     obind (y_as_string y node) (\<lambda>s.
       case toCoordinateSystem s of
         Inl e \<Rightarrow> Throws (bad e)
       | Inr cs \<Rightarrow> Returns (True, cs))"

text \<open>\<open>Node::as<T>\<close> calls the \<open>decode\<close> for \<open>T\<close> and throws when it returns \<open>false\<close>.\<close>

definition as_CoordinateSystem :: "'n yaml \<Rightarrow> (error \<Rightarrow> exn) \<Rightarrow> 'n \<Rightarrow> CoordinateSystem outcome" where
  "as_CoordinateSystem y bad node =
     obind (decode_yaml_CoordinateSystem y bad node) (\<lambda>(ok, cs).
       if ok then Returns cs else Throws (y_bad_conversion y))"

section \<open>Positions\<close>

definition encode_yaml_CartesianPosition :: "'n yaml \<Rightarrow> CartesianPosition \<Rightarrow> 'n outcome" where
  "encode_yaml_CartesianPosition y p =
     (let node = y_new y;
          node = y_set y node ''x'' (y_of_double y (cp_x p));
          node = y_set y node ''y'' (y_of_double y (cp_y p));
          node = y_set y node ''z'' (y_of_double y (cp_z p));
          node = y_set y node ''rx'' (y_of_double y (cp_rx p));
          node = y_set y node ''ry'' (y_of_double y (cp_ry p));
          node = y_set y node ''rz'' (y_of_double y (cp_rz p))
      in obind (encode_yaml_CoordinateSystem y (cp_frame p)) (\<lambda>frame.
        let node = y_set y node ''frame'' frame;
            node = y_set y node ''configuration''
              (y_of_int y (ucast (PoseConfiguration_to_u8 (cp_type p))));
            node = y_set y node ''tool'' (y_of_int y (cp_tool p))
        in Returns node))"

text \<open>
  The elements of a braced list are evaluated from left to right.  A number is narrowed to
  \<open>std::uint8_t\<close> before it becomes a configuration.  With \<open>false\<close> the old value stays.
\<close>

definition decode_yaml_CartesianPosition ::
    "'n yaml \<Rightarrow> (error \<Rightarrow> exn) \<Rightarrow> 'n \<Rightarrow> CartesianPosition \<Rightarrow> (bool \<times> CartesianPosition) outcome" where
  "decode_yaml_CartesianPosition y bad node out =
     (if \<not> y_isMap y node \<or> y_size y node \<noteq> 9 then Returns (False, out)
      else
        obind (y_as_double y (y_get y node ''x'')) (\<lambda>px.
        obind (y_as_double y (y_get y node ''y'')) (\<lambda>py.
        obind (y_as_double y (y_get y node ''z'')) (\<lambda>pz.
        obind (y_as_double y (y_get y node ''rx'')) (\<lambda>prx.
        obind (y_as_double y (y_get y node ''ry'')) (\<lambda>pry.
        obind (y_as_double y (y_get y node ''rz'')) (\<lambda>prz.
        obind (as_CoordinateSystem y bad (y_get y node ''frame'')) (\<lambda>frame.
        obind (y_as_int y (y_get y node ''configuration'')) (\<lambda>config.
        obind (y_as_int y (y_get y node ''tool'')) (\<lambda>tool.
          Returns (True,
            \<lparr>cp_x = px, cp_y = py, cp_z = pz, cp_rx = prx, cp_ry = pry, cp_rz = prz,
             cp_frame = frame, cp_type = PoseConfiguration_of_u8 (ucast config),
             cp_tool = tool\<rparr>)))))))))))"

section \<open>What yaml-cpp documents\<close>

text \<open>
  A map node associates keys with nodes; assigning to a key of a new node makes it a map.
  A key that is not there gives a node that no conversion accepts.  A value reads back as what
  it was made from.
\<close>

definition yaml_laws :: "'n yaml \<Rightarrow> ('n \<Rightarrow> string \<rightharpoonup> 'n) \<Rightarrow> bool" where
  "yaml_laws y content \<longleftrightarrow>
     content (y_new y) = Map.empty
     \<and> (\<forall>n k v. n = y_new y \<or> y_isMap y n \<longrightarrow>
          y_isMap y (y_set y n k v) \<and> content (y_set y n k v) = (content n)(k \<mapsto> v))
     \<and> (\<forall>n. y_isMap y n \<longrightarrow> finite (dom (content n)) \<and> y_size y n = card (dom (content n)))
     \<and> (\<forall>n k. y_isMap y n \<longrightarrow>
          (case content n k of
             Some v \<Rightarrow> y_get y n k = v
           | None \<Rightarrow> (\<exists>e. y_as_double y (y_get y n k) = Throws e)
               \<and> (\<exists>e. y_as_int y (y_get y n k) = Throws e)
               \<and> (\<exists>e. y_as_string y (y_get y n k) = Throws e)))
     \<and> (\<forall>d. y_as_double y (y_of_double y d) = Returns d)
     \<and> (\<forall>i. y_as_int y (y_of_int y i) = Returns i)
     \<and> (\<forall>s. y_as_string y (y_of_string y s) = Returns s)"

text \<open>Nodes for which the laws hold.\<close>

datatype example_node =
    No_node
  | Null_node
  | Double_node double
  | Int_node i32
  | String_node string
  | Map_node "(string \<times> example_node) list"

fun example_content :: "example_node \<Rightarrow> string \<rightharpoonup> example_node" where
  "example_content (Map_node kvs) = map_of kvs"
| "example_content _ = Map.empty"

fun example_set :: "example_node \<Rightarrow> string \<Rightarrow> example_node \<Rightarrow> example_node" where
  "example_set (Map_node kvs) k v = Map_node ((k, v) # kvs)"
| "example_set _ k v = Map_node [(k, v)]"

definition example_get :: "example_node \<Rightarrow> string \<Rightarrow> example_node" where
  "example_get n k = (case example_content n k of None \<Rightarrow> No_node | Some v \<Rightarrow> v)"

fun example_size :: "example_node \<Rightarrow> nat" where
  "example_size (Map_node kvs) = length (remdups (map fst kvs))"
| "example_size _ = 0"

definition example_yaml :: "example_node yaml" where
  "example_yaml =
     \<lparr>y_new = Null_node, y_set = example_set, y_get = example_get,
      y_isMap = (\<lambda>n. case n of Map_node _ \<Rightarrow> True | _ \<Rightarrow> False), y_size = example_size,
      y_of_double = Double_node, y_of_int = Int_node, y_of_string = String_node,
      y_as_double = (\<lambda>n. case n of Double_node d \<Rightarrow> Returns d | _ \<Rightarrow> Throws (Runtime_error ''bad conversion'')),
      y_as_int = (\<lambda>n. case n of Int_node i \<Rightarrow> Returns i | _ \<Rightarrow> Throws (Runtime_error ''bad conversion'')),
      y_as_string = (\<lambda>n. case n of String_node s \<Rightarrow> Returns s | _ \<Rightarrow> Throws (Runtime_error ''bad conversion'')),
      y_bad_conversion = Runtime_error ''bad conversion''\<rparr>"

definition example_position :: CartesianPosition where
  "example_position =
     \<lparr>cp_x = Finite 1, cp_y = Finite (-5 / 2), cp_z = Finite 0, cp_rx = Finite 0, cp_ry = Finite 0,
      cp_rz = Finite 90, cp_frame = CS_user6, cp_type = 2, cp_tool = 1\<rparr>"

definition example_file :: example_node where
  "example_file = Map_node
     [(''frame'', String_node ''user6''), (''tool'', Int_node 1), (''configuration'', Int_node 66),
      (''x'', Double_node (Finite 1)), (''y'', Double_node (Finite (-5 / 2))),
      (''z'', Double_node (Finite 0)), (''rx'', Double_node (Finite 0)),
      (''ry'', Double_node (Finite 0)), (''rz'', Double_node (Finite 90))]"

lemma example_yaml_laws: "yaml_laws example_yaml example_content"
proof -
  have set: "y_isMap example_yaml (example_set n k v)
      \<and> example_content (example_set n k v) = (example_content n)(k \<mapsto> v)" for n k v
    by (cases n) (simp_all add: example_yaml_def)
  have size: "finite (dom (example_content n)) \<and> example_size n = card (dom (example_content n))" for n
    by (cases n) (simp_all add: dom_map_of_conv_image_fst length_remdups_card_conv)
  show ?thesis
    unfolding yaml_laws_def
    using set size by (auto simp: example_yaml_def example_get_def split: option.split)
qed

section \<open>Facts\<close>

lemma yaml_getD:
  assumes "yaml_laws y content" "y_isMap y n"
  shows "content n k = Some v \<Longrightarrow> y_get y n k = v"
    and "y_as_double y (y_get y n k) = Returns d \<Longrightarrow> k \<in> dom (content n)"
    and "y_as_int y (y_get y n k) = Returns i \<Longrightarrow> k \<in> dom (content n)"
    and "y_as_string y (y_get y n k) = Returns s \<Longrightarrow> k \<in> dom (content n)"
proof -
  have c: "case content n k of
       Some v \<Rightarrow> y_get y n k = v
     | None \<Rightarrow> (\<exists>e. y_as_double y (y_get y n k) = Throws e)
         \<and> (\<exists>e. y_as_int y (y_get y n k) = Throws e) \<and> (\<exists>e. y_as_string y (y_get y n k) = Throws e)"
    using assms unfolding yaml_laws_def by blast
  show "content n k = Some v \<Longrightarrow> y_get y n k = v"
    "y_as_double y (y_get y n k) = Returns d \<Longrightarrow> k \<in> dom (content n)"
    "y_as_int y (y_get y n k) = Returns i \<Longrightarrow> k \<in> dom (content n)"
    "y_as_string y (y_get y n k) = Returns s \<Longrightarrow> k \<in> dom (content n)"
    using c by (auto split: option.splits)
qed

definition position_keys :: "string list" where
  "position_keys = [''x'', ''y'', ''z'', ''rx'', ''ry'', ''rz'', ''frame'', ''configuration'', ''tool'']"

text \<open>What an encoded position contains.\<close>

definition position_content :: "'n yaml \<Rightarrow> CartesianPosition \<Rightarrow> string \<Rightarrow> string \<rightharpoonup> 'n" where
  "position_content y p name =
     [''x'' \<mapsto> y_of_double y (cp_x p), ''y'' \<mapsto> y_of_double y (cp_y p), ''z'' \<mapsto> y_of_double y (cp_z p),
      ''rx'' \<mapsto> y_of_double y (cp_rx p), ''ry'' \<mapsto> y_of_double y (cp_ry p),
      ''rz'' \<mapsto> y_of_double y (cp_rz p), ''frame'' \<mapsto> y_of_string y name,
      ''configuration'' \<mapsto> y_of_int y (ucast (PoseConfiguration_to_u8 (cp_type p))),
      ''tool'' \<mapsto> y_of_int y (cp_tool p)]"

lemma encode_yaml_content:
  assumes "yaml_laws y content" and "toString (cp_frame p) = Returns name"
  shows "\<exists>node. encode_yaml_CartesianPosition y p = Returns node \<and> y_isMap y node
    \<and> content node = position_content y p name"
proof -
  have set: "y_isMap y (y_set y n k v)" "content (y_set y n k v) = (content n)(k \<mapsto> v)"
    if "n = y_new y \<or> y_isMap y n" for n k v
    using assms(1) that unfolding yaml_laws_def by blast+
  have new: "content (y_new y) = Map.empty" using assms(1) by (simp add: yaml_laws_def)
  show ?thesis
    by (simp add: encode_yaml_CartesianPosition_def encode_yaml_CoordinateSystem_def assms(2)
        position_content_def set new)
qed

lemma position_content_dom: "dom (position_content y p name) = set position_keys"
  by (simp add: position_content_def position_keys_def insert_commute)

lemma card_position_keys: "card (set position_keys) = 9"
  by (simp add: position_keys_def)

lemma as_CoordinateSystem_Returns:
  "as_CoordinateSystem y bad n = Returns cs \<longleftrightarrow>
   (\<exists>s. y_as_string y n = Returns s \<and> toString cs = Returns s)"
proof (cases "y_as_string y n")
  case (Returns s)
  then show ?thesis
    by (cases "toCoordinateSystem s")
      (simp_all add: as_CoordinateSystem_def decode_yaml_CoordinateSystem_def toString_parses)
qed (simp_all add: as_CoordinateSystem_def decode_yaml_CoordinateSystem_def)

lemma decode_yaml_content:
  assumes laws: "yaml_laws y content" and node: "y_isMap y node" "content node = position_content y p name"
    and name: "toString (cp_frame p) = Returns name"
  shows "decode_yaml_CartesianPosition y bad node out = Returns (True, p)"
proof -
  have size: "y_size y node = 9"
    using laws node unfolding yaml_laws_def by (simp add: position_content_dom card_position_keys)
  have "y_get y node k = the (position_content y p name k)" if "k \<in> set position_keys" for k
    using that yaml_getD(1) [OF laws node(1)] node(2) position_content_dom [of y p name] by force
  then have get: "list_all (\<lambda>k. y_get y node k = the (position_content y p name k)) position_keys"
    by (simp add: list_all_iff)
  have frame: "as_CoordinateSystem y bad (y_of_string y name) = Returns (cp_frame p)"
    using laws name by (simp add: as_CoordinateSystem_Returns yaml_laws_def)
  have u: "ucast (ucast c :: i32) = c" for c :: u8
    by (rule bit_word_eqI) (simp add: bit_simps)
  have conv: "y_as_double y (y_of_double y d) = Returns d" "y_as_int y (y_of_int y i) = Returns i" for d i
    using laws by (simp_all add: yaml_laws_def)
  show ?thesis
    unfolding decode_yaml_CartesianPosition_def
    using get by (simp add: position_keys_def position_content_def node(1) size frame conv u)
qed

text \<open>
  C38: A Cartesian position that is written to YAML reads back as the same position, whatever
  the position read into was, provided its frame is one of the twenty named ones, which is
  exactly when it can be written: for any other frame the writing throws.
\<close>

theorem yaml_position_roundtrip:
  assumes "yaml_laws y content"
  shows "case encode_yaml_CartesianPosition y p of
      Returns node \<Rightarrow> cs_value (cp_frame p) \<in> {0..19}
        \<and> decode_yaml_CartesianPosition y bad node out = Returns (True, p)
    | Throws e \<Rightarrow> cs_value (cp_frame p) \<notin> {0..19}
        \<and> e = Logic_error (''invalid coordinate system: '' @ to_string (cs_value (cp_frame p)))
    | _ \<Rightarrow> False"
proof (cases "\<exists>name. toString (cp_frame p) = Returns name")
  case True
  then obtain name where name: "toString (cp_frame p) = Returns name" by blast
  from encode_yaml_content [OF assms name] decode_yaml_content [OF assms _ _ name] True
  show ?thesis by (auto simp: toString_total)
next
  case False
  then have "toString (cp_frame p) =
    Throws (Logic_error (''invalid coordinate system: '' @ to_string (cs_value (cp_frame p))))"
    by (simp add: toString_def split: if_split_asm)
  then have "encode_yaml_CartesianPosition y p =
    Throws (Logic_error (''invalid coordinate system: '' @ to_string (cs_value (cp_frame p))))"
    by (simp add: encode_yaml_CartesianPosition_def encode_yaml_CoordinateSystem_def Let_def)
  with False show ?thesis by (simp add: toString_total)
qed

lemma yaml_position_roundtrip_witness:
  "\<exists>node. encode_yaml_CartesianPosition example_yaml example_position = Returns node
    \<and> decode_yaml_CartesianPosition example_yaml (\<lambda>e. Runtime_error ''error'') node
        (example_position\<lparr>cp_x := NaN\<rparr>) = Returns (True, example_position)"
  using yaml_position_roundtrip [OF example_yaml_laws, of example_position "\<lambda>e. Runtime_error ''error''"
      "example_position\<lparr>cp_x := NaN\<rparr>"]
  by (simp add: example_position_def split: outcome.splits)

text \<open>
  C39: Only a map with exactly the nine keys of a position is read as one: everything else is
  refused by the result or by an exception. A configuration is read modulo 64, so numbers that
  no configuration has are accepted, and what is read can always be written again.
\<close>

theorem yaml_position_accepted:
  assumes "yaml_laws y content"
    and "decode_yaml_CartesianPosition y bad node out = Returns (True, p)"
  shows "y_isMap y node \<and> dom (content node) = set position_keys
    \<and> (\<exists>config. y_as_int y (y_get y node ''configuration'') = Returns config
        \<and> uint (cp_type p) = uint config mod 64)
    \<and> (\<exists>node'. encode_yaml_CartesianPosition y p = Returns node'
        \<and> decode_yaml_CartesianPosition y bad node' out = Returns (True, p))"
proof -
  obtain config name where map: "y_isMap y node" "y_size y node = 9"
    and config: "y_as_int y (y_get y node ''configuration'') = Returns config"
    and type: "cp_type p = PoseConfiguration_of_u8 (ucast config)"
    and name: "toString (cp_frame p) = Returns name"
    and keys: "\<exists>d. y_as_double y (y_get y node ''x'') = Returns d"
      "\<exists>d. y_as_double y (y_get y node ''y'') = Returns d" "\<exists>d. y_as_double y (y_get y node ''z'') = Returns d"
      "\<exists>d. y_as_double y (y_get y node ''rx'') = Returns d" "\<exists>d. y_as_double y (y_get y node ''ry'') = Returns d"
      "\<exists>d. y_as_double y (y_get y node ''rz'') = Returns d" "\<exists>s. y_as_string y (y_get y node ''frame'') = Returns s"
      "\<exists>i. y_as_int y (y_get y node ''tool'') = Returns i"
    using assms(2)
    by (auto simp: decode_yaml_CartesianPosition_def as_CoordinateSystem_Returns split: if_splits)
  note get = yaml_getD(2-4) [OF assms(1) map(1)]
  have sub: "set position_keys \<subseteq> dom (content node)"
    unfolding position_keys_def list.set insert_subset
    using keys config by (intro conjI empty_subsetI) (use get in blast)+
  have fin: "finite (dom (content node)) \<and> card (dom (content node)) = 9"
    using assms(1) map unfolding yaml_laws_def by metis
  have dom: "dom (content node) = set position_keys"
    using card_subset_eq [OF _ sub] fin card_position_keys by metis
  have u: "(ucast (ucast config :: u8) :: 6 word) = ucast config"
    by (rule bit_word_eqI) (simp add: bit_simps)
  have "uint (cp_type p) = uint config mod 64"
    unfolding type PoseConfiguration_of_u8_def u by (simp add: unsigned_ucast_eq take_bit_eq_mod)
  with map(1) dom config encode_yaml_content [OF assms(1) name] decode_yaml_content [OF assms(1) _ _ name]
  show ?thesis by blast
qed

lemma yaml_position_accepted_witness:
  "y_isMap example_yaml example_file \<and> dom (example_content example_file) = set position_keys
    \<and> (\<exists>config. y_as_int example_yaml (y_get example_yaml example_file ''configuration'') = Returns config
        \<and> uint (cp_type example_position) = uint config mod 64)
    \<and> (\<exists>node'. encode_yaml_CartesianPosition example_yaml example_position = Returns node'
        \<and> decode_yaml_CartesianPosition example_yaml (\<lambda>e. Runtime_error ''error'') node' example_position
          = Returns (True, example_position))"
proof (rule yaml_position_accepted [OF example_yaml_laws])
  show "decode_yaml_CartesianPosition example_yaml (\<lambda>e. Runtime_error ''error'') example_file
      example_position = Returns (True, example_position)"
    by (simp add: decode_yaml_CartesianPosition_def example_yaml_def example_file_def example_get_def
        as_CoordinateSystem_def decode_yaml_CoordinateSystem_def toCoordinateSystem_def
        example_position_def PoseConfiguration_of_u8_def)
qed

end
