(* ===== verification/Yaml_Test.thy ===== *)
theory Yaml_Test
  imports Yaml
begin

text \<open>
  The unit tests \<open>src/src/test/yaml.cpp\<close> that write a value to YAML and read it back.  (The third test reads a text with the
  parser of yaml-cpp, whose grammar is not modelled.)
\<close>

text \<open>
  \<open>Node::as<T>\<close> on a value that is default constructed, which is the parameter \<open>out\<close>: the members of
  a default constructed position are indeterminate.
\<close>

definition as_CartesianPosition ::
    "'n yaml \<Rightarrow> (error \<Rightarrow> exn) \<Rightarrow> CartesianPosition \<Rightarrow> 'n \<Rightarrow> CartesianPosition outcome" where
  "as_CartesianPosition y bad out node =
     obind (decode_yaml_CartesianPosition y bad node out) (\<lambda>(ok, p).
       if ok then Returns p else Throws (y_bad_conversion y))"

definition expected_position :: CartesianPosition where
  "expected_position =
     \<lparr>cp_x = fl (1 / 10), cp_y = fl (- 2555555 / 10 ^ 6), cp_z = fl (48787567890 / 10 ^ 10), cp_rx = Finite (- 1),
      cp_ry = Finite 0, cp_rz = Finite (- 32), cp_frame = CoordinateSystem 7, cp_type = PoseConfiguration_of_u8 2, cp_tool = 1\<rparr>"

definition test_toYamlCartesianPosition :: "'n yaml \<Rightarrow> (error \<Rightarrow> exn) \<Rightarrow> CartesianPosition \<Rightarrow> bool outcome" where
  "test_toYamlCartesianPosition y bad out =
     obind (encode_yaml_CartesianPosition y expected_position) (\<lambda>node.
     obind (as_CartesianPosition y bad out node) (\<lambda>returned.
       Returns (CartesianPosition_eq returned expected_position)))"

definition test_toYamlCoordinateSystem :: "'n yaml \<Rightarrow> (error \<Rightarrow> exn) \<Rightarrow> bool outcome" where
  "test_toYamlCoordinateSystem y bad =
     obind (encode_yaml_CoordinateSystem y CS_base) (\<lambda>node.
     obind (as_CoordinateSystem y bad node) (\<lambda>returned.
       Returns (returned = CS_base)))"

text \<open>Both pass, with every library that does what yaml-cpp documents.\<close>

lemma double_eq_fl: "double_eq (fl x) (fl x)"
  by (simp add: fl_def Let_def)

lemma yaml_tests_pass:
  assumes "yaml_laws y content"
  shows "test_toYamlCartesianPosition y bad out = Returns True" "test_toYamlCoordinateSystem y bad = Returns True"
proof -
  have name: "toString (cp_frame expected_position) = Returns ''user6''" by (simp add: expected_position_def toString_def)
  from encode_yaml_content [OF assms name] obtain node where
    e: "encode_yaml_CartesianPosition y expected_position = Returns node" "y_isMap y node"
      "content node = position_content y expected_position ''user6''" by blast
  from decode_yaml_content [OF assms e(2,3) name] have
    "decode_yaml_CartesianPosition y bad node out = Returns (True, expected_position)" .
  with e(1) show "test_toYamlCartesianPosition y bad out = Returns True"
    by (simp add: test_toYamlCartesianPosition_def as_CartesianPosition_def CartesianPosition_eq_def
        expected_position_def double_eq_fl)
  have "y_as_string y (y_of_string y ''base'') = Returns ''base''" using assms by (simp add: yaml_laws_def)
  then show "test_toYamlCoordinateSystem y bad = Returns True"
    by (simp add: test_toYamlCoordinateSystem_def encode_yaml_CoordinateSystem_def toString_def as_CoordinateSystem_Returns)
qed

end
