(* ===== verification/Eigen.thy ===== *)
theory Eigen
  imports Types
begin

text \<open>
  Positions as isometries: \<open>include/yaskawa_ethernet/eigen.hpp\<close> and \<open>src/eigen.cpp\<close>.  The library
  Eigen is a parameter: a record of the operations on isometries the code calls, over a type of
  isometries.  What the code itself computes, the scaling of the coordinates and the conversion of
  degrees to radians, is computed in \<open>double\<close>.
\<close>

section \<open>The operations of Eigen\<close>

type_synonym vector3 = "double \<times> double \<times> double"

datatype axis = UnitX | UnitY | UnitZ

text \<open>
  \<open>translation\<close> and \<open>eulerAngles(2, 1, 0)\<close> are the ones of an isometry, the latter of its rotation.
\<close>

record 'i eigen =
  Translation3d :: "vector3 \<Rightarrow> 'i"
  AngleAxisd :: "double \<Rightarrow> axis \<Rightarrow> 'i"
  compose :: "'i \<Rightarrow> 'i \<Rightarrow> 'i"
  pose_translation :: "'i \<Rightarrow> vector3"
  eulerAngles210 :: "'i \<Rightarrow> vector3"

section \<open>Conversions\<close>

text \<open>The \<open>double\<close>s nearest to 0.001 and to pi.\<close>

definition milli :: double where "milli = fl (1 / 1000)"

definition M_PI_value :: rat where "M_PI_value = 884279719003555 / 281474976710656"

text \<open>A vector times a scalar.\<close>

fun scale3 :: "vector3 \<Rightarrow> double \<Rightarrow> vector3" where
  "scale3 (x, y, z) s = (dmul x s, dmul y s, dmul z s)"

definition radians :: "double \<Rightarrow> double" where
  "radians d = ddiv_const (dmul d (Finite M_PI_value)) 180"

definition degrees :: "double \<Rightarrow> double" where
  "degrees r = dmul (ddiv_const r M_PI_value) (Finite 180)"

definition toEigen :: "'i eigen \<Rightarrow> CartesianPosition \<Rightarrow> 'i" where
  "toEigen e position =
     compose e (compose e (compose e
       (Translation3d e (scale3 (cp_x position, cp_y position, cp_z position) milli))
       (AngleAxisd e (radians (cp_rz position)) UnitZ))
       (AngleAxisd e (radians (cp_ry position)) UnitY))
       (AngleAxisd e (radians (cp_rx position)) UnitX)"

definition toCartesian ::
    "'i eigen \<Rightarrow> 'i \<Rightarrow> CoordinateSystem \<Rightarrow> i32 \<Rightarrow> PoseConfiguration \<Rightarrow> CartesianPosition" where
  "toCartesian e pose frame tool configuration =
     (case eulerAngles210 e pose of (a0, a1, a2) \<Rightarrow>
      case pose_translation e pose of (tx, ty, tz) \<Rightarrow>
        \<lparr>cp_x = dmul tx (Finite 1000), cp_y = dmul ty (Finite 1000), cp_z = dmul tz (Finite 1000),
         cp_rx = degrees a2, cp_ry = degrees a1, cp_rz = degrees a0,
         cp_frame = frame, cp_type = configuration, cp_tool = tool\<rparr>)"

section \<open>What Eigen documents\<close>

text \<open>
  A rotation applied on the right of an isometry changes its linear part only.
\<close>

definition eigen_laws :: "'i eigen \<Rightarrow> bool" where
  "eigen_laws e \<longleftrightarrow>
     (\<forall>v. pose_translation e (Translation3d e v) = v)
     \<and> (\<forall>i angle axis. pose_translation e (compose e i (AngleAxisd e angle axis)) = pose_translation e i)"

section \<open>Rounding\<close>

lemma normal_range: "1 / 2 ^ 60 \<le> (r::rat) \<Longrightarrow> 2 powi (-1022) \<le> r"
proof -
  have "(2::rat) powi (-1022) \<le> 2 powi (-60)" by (rule powi_le) simp
  also have "\<dots> = 1 / 2 ^ 60" by (simp add: power_int_minus field_simps)
  finally show "1 / 2 ^ 60 \<le> r \<Longrightarrow> 2 powi (-1022) \<le> r" by simp
qed

lemma fl_near:
  assumes "1 / 2 ^ 60 \<le> \<bar>x\<bar>" "\<bar>x\<bar> \<le> 2 ^ 50"
  shows "\<exists>r. fl x = Finite r \<and> \<bar>r - x\<bar> \<le> \<bar>x\<bar> / 2 ^ 53"
proof -
  have e: "\<bar>round53 x - x\<bar> \<le> \<bar>x\<bar> / 2 ^ 53"
    using assms(1) by (intro round53_relative_error normal_range)
  then have "\<bar>round53 x\<bar> \<le> \<bar>x\<bar> + \<bar>x\<bar> / 2 ^ 53" by linarith
  then have "\<bar>round53 x\<bar> < 2 ^ 53" using assms(2) by simp
  with e fl_Finite show ?thesis by blast
qed

text \<open>A coordinate that is scaled to meters and back.\<close>

lemma millimeters_and_back:
  assumes "x = 0 \<or> (1 / 2 ^ 40 \<le> \<bar>x\<bar> \<and> \<bar>x\<bar> \<le> 2 ^ 40)"
  shows "\<exists>r. dmul (dmul (Finite x) milli) (Finite 1000) = Finite r \<and> \<bar>r - x\<bar> \<le> \<bar>x\<bar> / 2 ^ 51"
proof -
  obtain c where c: "milli = Finite c" "\<bar>c - 1 / 1000\<bar> \<le> 1 / 1000 / 2 ^ 53"
    using fl_near [of "1 / 1000"] by (auto simp: milli_def)
  show ?thesis
  proof (cases "x = 0")
    case True
    then show ?thesis by (simp add: c fl_def round53_def)
  next
    case False
    define X where "X = \<bar>x\<bar>"
    have X: "1 / 2 ^ 40 \<le> X" "X \<le> 2 ^ 40" using assms False by (simp_all add: X_def)
    have "\<bar>x * c - x / 1000\<bar> = X * \<bar>c - 1 / 1000\<bar>"
      by (simp add: X_def right_diff_distrib flip: abs_mult)
    also have "\<dots> \<le> X * (1 / 1000 / 2 ^ 53)" using c(2) X by (intro mult_left_mono) auto
    finally have e1: "\<bar>x * c - x / 1000\<bar> \<le> X / 1000 / 2 ^ 53" by simp
    have x1000: "\<bar>x / 1000\<bar> = X / 1000" by (simp add: X_def)
    have b1: "\<bar>x * c\<bar> \<le> X / 1000 + X / 1000 / 2 ^ 53" "X / 1000 - X / 1000 / 2 ^ 53 \<le> \<bar>x * c\<bar>"
      using e1 x1000 by linarith+
    have "1 / 2 ^ 60 \<le> X / 1000 - X / 1000 / 2 ^ 53" "X / 1000 + X / 1000 / 2 ^ 53 \<le> 2 ^ 50"
      using X by simp_all
    then obtain y where y: "fl (x * c) = Finite y" "\<bar>y - x * c\<bar> \<le> \<bar>x * c\<bar> / 2 ^ 53"
      using fl_near [of "x * c"] b1 by auto
    have "y * 1000 - x = 1000 * (y - x * c) + 1000 * (x * c - x / 1000)"
      by (simp add: algebra_simps)
    then have "\<bar>y * 1000 - x\<bar> \<le> \<bar>1000 * (y - x * c)\<bar> + \<bar>1000 * (x * c - x / 1000)\<bar>"
      by (simp only: abs_triangle_ineq)
    then have "\<bar>y * 1000 - x\<bar> \<le> 1000 * \<bar>y - x * c\<bar> + 1000 * \<bar>x * c - x / 1000\<bar>"
      by (simp only: abs_mult abs_numeral)
    then have e2: "\<bar>y * 1000 - x\<bar> \<le> X / 2 ^ 53 + (X + X / 2 ^ 53) / 2 ^ 53"
      using y(2) e1 b1(1) by simp
    have b2: "\<bar>y * 1000\<bar> \<le> X + (X / 2 ^ 53 + (X + X / 2 ^ 53) / 2 ^ 53)"
      "X - (X / 2 ^ 53 + (X + X / 2 ^ 53) / 2 ^ 53) \<le> \<bar>y * 1000\<bar>"
      using e2 unfolding X_def by linarith+
    have "1 / 2 ^ 60 \<le> X - (X / 2 ^ 53 + (X + X / 2 ^ 53) / 2 ^ 53)"
      "X + (X / 2 ^ 53 + (X + X / 2 ^ 53) / 2 ^ 53) \<le> 2 ^ 50" using X by simp_all
    then obtain z where z: "fl (y * 1000) = Finite z" "\<bar>z - y * 1000\<bar> \<le> \<bar>y * 1000\<bar> / 2 ^ 53"
      using fl_near [of "y * 1000"] b2 by auto
    have "\<bar>z - x\<bar> \<le> \<bar>z - y * 1000\<bar> + \<bar>y * 1000 - x\<bar>" by linarith
    also have "\<dots> \<le> X / 2 ^ 51" using z(2) e2 b2(1) X by simp
    finally show ?thesis by (simp add: c y z X_def)
  qed
qed

section \<open>Facts\<close>

text \<open>The range of coordinates: zero, or between a femtometer and a gigameter in millimeters.\<close>

definition in_range :: "double \<Rightarrow> bool" where
  "in_range d \<longleftrightarrow> (case d of Finite x \<Rightarrow> x = 0 \<or> (1 / 2 ^ 40 \<le> \<bar>x\<bar> \<and> \<bar>x\<bar> \<le> 2 ^ 40) | _ \<Rightarrow> False)"

definition nearly :: "double \<Rightarrow> double \<Rightarrow> bool" where
  "nearly d e \<longleftrightarrow> (case (d, e) of (Finite x, Finite y) \<Rightarrow> \<bar>y - x\<bar> \<le> \<bar>x\<bar> / 2 ^ 51 | _ \<Rightarrow> False)"


text \<open>Isometries for which the laws hold: the translation and the rotations as they come.\<close>

definition example_eigen :: "(vector3 \<times> (double \<times> axis) list) eigen" where
  "example_eigen =
     \<lparr>Translation3d = (\<lambda>v. (v, [])), AngleAxisd = (\<lambda>a x. ((Finite 0, Finite 0, Finite 0), [(a, x)])),
      compose = (\<lambda>i j. (fst i, snd i @ snd j)), pose_translation = fst,
      eulerAngles210 = (\<lambda>i. case snd i of [(a, _), (b, _), (c, _)] \<Rightarrow> (a, b, c)
        | _ \<Rightarrow> (Finite 0, Finite 0, Finite 0))\<rparr>"


end
