(* ===== verification/File_Manager.thy ===== *)
theory File_Manager
  imports File_Sessions Command_Session
begin

text \<open>
  The program \<open>src/file_manager/file_manager.cpp\<close>: it connects a client and executes one file
  command.  The text of an error (\<open>format\<close> of estd) is a parameter.  The program is a state
  machine over the events of the session it has started; its outputs are what it writes and its
  exit status.
\<close>

section \<open>Program\<close>

datatype fm_output =
    Out bytes
  | Err string
  | Exit nat

record Options =
  host :: string
  fm_command :: string
  fm_args :: "string list"

definition newline :: string where "newline = [CHR 0x0a]"

definition bytes_of_string :: "string \<Rightarrow> bytes" where
  "bytes_of_string s = map of_char s"

definition usage :: "string \<Rightarrow> string" where
  "usage name = ''usage: '' @ name @ ''host command [args...]'' @ newline @ newline
     @ ''commands:'' @ newline
     @ [CHR 0x09] @ ''ls [type]'' @ newline
     @ [CHR 0x09] @ ''get name'' @ newline
     @ [CHR 0x09] @ ''put name'' @ newline
     @ [CHR 0x09] @ ''delete name'' @ newline"

text \<open>The callbacks of the four commands.\<close>

definition fail :: "(error \<Rightarrow> string) \<Rightarrow> string \<Rightarrow> error \<Rightarrow> fm_output list" where
  "fail fmt what e = [Err (what @ fmt e @ newline), Exit 2]"

definition list_callback :: "(error \<Rightarrow> string) \<Rightarrow> bytes list result \<Rightarrow> fm_output list" where
  "list_callback fmt result =
     (case result of
        Inl e \<Rightarrow> fail fmt ''Failed to read file list: '' e
      | Inr files \<Rightarrow> map (\<lambda>file. Out (file @ [0x0a])) files)"

definition get_callback :: "(error \<Rightarrow> string) \<Rightarrow> bytes result \<Rightarrow> fm_output list" where
  "get_callback fmt result =
     (case result of Inl e \<Rightarrow> fail fmt ''Failed to read file: '' e | Inr contents \<Rightarrow> [Out contents])"

definition put_callback :: "(error \<Rightarrow> string) \<Rightarrow> unit result \<Rightarrow> fm_output list" where
  "put_callback fmt result =
     (case result of Inl e \<Rightarrow> fail fmt ''Failed to write file: '' e | Inr _ \<Rightarrow> [])"

definition delete_callback :: "(error \<Rightarrow> string) \<Rightarrow> response result \<Rightarrow> fm_output list" where
  "delete_callback fmt result =
     (case result of Inl e \<Rightarrow> fail fmt ''Failed to delete file: '' e | Inr _ \<Rightarrow> [])"

text \<open>What the program waits for after it has started a command.\<close>

datatype fm_state =
    Listing ReadFileSession
  | Getting ReadFileSession
  | Putting WriteFileSession
  | Deleting CommandSession
  | Idle
  | Exited

text \<open>\<open>options.args[0]\<close>; reading an element that is not there is undefined.\<close>

definition first_arg :: "Options \<Rightarrow> bytes outcome" where
  "first_arg options =
     (case fm_args options of [] \<Rightarrow> Undefined | a # _ \<Rightarrow> Returns (bytes_of_string a))"

definition executeCommand ::
    "int \<Rightarrow> 'h \<Rightarrow> Options \<Rightarrow> bytes \<Rightarrow> 'h Client
     \<Rightarrow> ((fm_state \<times> 'h Client) \<times> fm_output list) outcome" where
  "executeCommand now h options stdin client =
     (if fm_command options = ''ls''
      then obind (first_arg options) (\<lambda>a.
        obind (readFileList now h a 100 False client) (\<lambda>((s, client), _). Returns ((Listing s, client), [])))
      else if fm_command options = ''get''
      then obind (first_arg options) (\<lambda>a.
        obind (readFile now h a 3000 False client) (\<lambda>((s, client), _). Returns ((Getting s, client), [])))
      else if fm_command options = ''put''
      then obind (first_arg options) (\<lambda>a.
        obind (writeFile now h a stdin 3000 False client) (\<lambda>((s, client), _). Returns ((Putting s, client), [])))
      else if fm_command options = ''delete''
      then obind (first_arg options) (\<lambda>a.
        obind (deleteFile now h a 3000 client) (\<lambda>((s, client), _). Returns ((Deleting s, client), [])))
      else Returns ((Idle, client), [Err (''unknown command: '' @ fm_command options @ newline)]))"

text \<open>\<open>main\<close> up to the connection: the outputs, and the options unless it returned.\<close>

definition main_options :: "string list \<Rightarrow> (fm_output list \<times> Options option) outcome" where
  "main_options argv =
     (if argv = [] then Undefined
      else if length argv < 3 then Returns ([Err (usage (argv ! 0)), Exit 1], None)
      else
        (let options = \<lparr>host = argv ! 1, fm_command = argv ! 2, fm_args = []\<rparr>
         in if fm_command options = ''ls''
         then if length argv > 4
           then Returns ([Err (''ls command takes one argument at most'' @ newline), Exit 1], None)
           else Returns ([], Some (options\<lparr>fm_args := [if length argv > 3 then argv ! 3 else ''*.*'']\<rparr>))
         else if fm_command options = ''get''
         then if length argv \<noteq> 4
           then Returns ([Err (''get command takes exactly one argument'' @ newline), Exit 1], None)
           else Returns ([], Some (options\<lparr>fm_args := [argv ! 3]\<rparr>))
         else if fm_command options = ''put''
         then if length argv \<noteq> 4
           then Returns ([Err (''put command takes exactly one argument'' @ newline), Exit 1], None)
           else Returns ([], Some (options\<lparr>fm_args := [argv ! 3]\<rparr>))
         else Returns ([Err (''unknown command: '' @ fm_command options @ newline)], Some options)))"

text \<open>The callback of \<open>connect\<close>.\<close>

definition main_connected ::
    "(error \<Rightarrow> string) \<Rightarrow> int \<Rightarrow> 'h \<Rightarrow> Options \<Rightarrow> bytes \<Rightarrow> error \<Rightarrow> 'h Client
     \<Rightarrow> ((fm_state \<times> 'h Client) \<times> fm_output list) outcome" where
  "main_connected fmt now h options stdin err client =
     (if is_error err
      then Returns ((Exited, client),
        [Err (''Failed to connect to '' @ host options @ '':10040: '' @ fmt err @ newline), Exit 1])
      else executeCommand now h options stdin client)"

text \<open>
  The events of the session lead to the callback of the command; \<open>std::exit\<close> ends the program.
\<close>

datatype fm_event =
    File_event file_event
  | Command_event "session_event deadline_event"

definition running :: "fm_state \<Rightarrow> fm_output list \<Rightarrow> fm_state \<times> fm_output list" where
  "running st outs = (if list_ex (\<lambda>out. case out of Exit _ \<Rightarrow> True | _ \<Rightarrow> False) outs then Exited else st, outs)"

fun fm_step :: "(error \<Rightarrow> string) \<Rightarrow> fm_state \<Rightarrow> fm_event \<Rightarrow> (fm_state \<times> fm_output list) outcome" where
  "fm_step fmt (Listing s) (File_event ev) =
     obind (ReadFileList_step s ev) (\<lambda>(s, es).
       Returns (running (Listing s) (concat (map (list_callback fmt) (completions es)))))"
| "fm_step fmt (Getting s) (File_event ev) =
     obind (ReadFile_step s ev) (\<lambda>(s, es).
       Returns (running (Getting s) (concat (map (get_callback fmt) (completions es)))))"
| "fm_step fmt (Putting s) (File_event ev) =
     obind (WriteFileSession_step s ev) (\<lambda>(s, es).
       Returns (running (Putting s) (concat (map (put_callback fmt) (completions es)))))"
| "fm_step fmt (Deleting s) (Command_event ev) =
     obind (deadline_step CommandSession_step (\<lambda>e. CommandSession_resolve (Inl e)) s ev) (\<lambda>(s, es).
       Returns (running (Deleting s) (concat (map (delete_callback fmt) (completions es)))))"
| "fm_step fmt st _ = Returns (st, [])"

text \<open>
  The whole program: \<open>stdin\<close> is what it can read, \<open>err\<close> the result of connecting, \<open>evs\<close> what
  happens then.  The client that is connected has an open socket and no error handler.
\<close>

definition file_manager ::
    "(error \<Rightarrow> string) \<Rightarrow> int \<Rightarrow> string list \<Rightarrow> bytes \<Rightarrow> error \<Rightarrow> fm_event list
     \<Rightarrow> (fm_state \<times> fm_output list) outcome" where
  "file_manager fmt now argv stdin err evs =
     obind (main_options argv) (\<lambda>(outs, options).
       case options of
         None \<Rightarrow> Returns (Exited, outs)
       | Some options \<Rightarrow>
           obind (main_connected fmt now () options stdin err ((new_Client False)\<lparr>socket_open := True\<rparr>))
             (\<lambda>((st, _), outs').
           obind (run_machine (fm_step fmt) st evs) (\<lambda>(st, outs''). Returns (st, outs @ outs' @ outs''))))"

section \<open>Facts\<close>

text \<open>
  The arguments are checked before anything is sent: the program writes a message and exits
  with 1 exactly when there are fewer than two, \<open>ls\<close> has more than one, or \<open>get\<close> or \<open>put\<close> has
  not exactly one. Otherwise it connects to the given host, with the argument of the command, for
  \<open>ls\<close> the pattern of all files by default; a command it does not know gets no argument.
\<close>

theorem file_manager_arguments:
  assumes "argv \<noteq> []"
  shows "\<exists>outs options. main_options argv = Returns (outs, options)
    \<and> (options = None \<longleftrightarrow> length argv < 3 \<or> (argv ! 2 = ''ls'' \<and> 4 < length argv)
        \<or> (argv ! 2 \<in> {''get'', ''put''} \<and> length argv \<noteq> 4))
    \<and> (options = None \<longleftrightarrow> Exit 1 \<in> set outs)
    \<and> (\<forall>opt. options = Some opt \<longrightarrow> host opt = argv ! 1 \<and> fm_command opt = argv ! 2
        \<and> fm_args opt = (if argv ! 2 \<in> {''ls'', ''get'', ''put''}
            then [if 3 < length argv then argv ! 3 else ''*.*''] else []))"
proof (cases "length argv < 3")
  case True
  with assms show ?thesis by (simp add: main_options_def)
next
  case False
  consider "argv ! 2 = ''ls''" | "argv ! 2 = ''get''" | "argv ! 2 = ''put''"
    | "argv ! 2 \<notin> {''ls'', ''get'', ''put''}" by blast
  then show ?thesis
  proof cases
    case 4
    with False assms show ?thesis by (simp add: main_options_def Let_def)
  qed (use False assms in \<open>simp_all add: main_options_def Let_def\<close>)
qed

lemma file_manager_arguments_witness:
  "main_options [''fm'', ''10.0.0.2'', ''ls''] =
    Returns ([], Some \<lparr>host = ''10.0.0.2'', fm_command = ''ls'', fm_args = [''*.*'']\<rparr>)"
proof -
  obtain outs options where m: "main_options [''fm'', ''10.0.0.2'', ''ls''] = Returns (outs, options)"
    and "options \<noteq> None" and o: "\<forall>opt. options = Some opt \<longrightarrow> host opt = ''10.0.0.2''
      \<and> fm_command opt = ''ls'' \<and> fm_args opt = [''*.*'']"
    using file_manager_arguments [of "[''fm'', ''10.0.0.2'', ''ls'']"] by auto
  then obtain opt where opt: "options = Some opt" by blast
  have "outs = []" using m by (simp add: main_options_def Let_def)
  moreover from o opt have "opt = \<lparr>host = ''10.0.0.2'', fm_command = ''ls'', fm_args = [''*.*'']\<rparr>"
    by (cases opt) simp
  ultimately show ?thesis using m opt by simp
qed

text \<open>
  Deleting a file is announced by the usage text but does not work: the command is
  reported as unknown, and when the connection is made its argument is read from an empty
  vector, which is undefined behaviour.
\<close>

theorem file_manager_delete_undefined:
  assumes "3 \<le> length argv" and "argv ! 2 = ''delete''" and "\<not> is_error err"
  shows "main_options argv =
      Returns ([Err (''unknown command: delete'' @ newline)],
        Some \<lparr>host = argv ! 1, fm_command = ''delete'', fm_args = []\<rparr>)
    \<and> file_manager fmt now argv stdin err evs = Undefined"
proof -
  have "argv \<noteq> []" "\<not> length argv < 3" using assms(1) by auto
  then have "main_options argv =
      Returns ([Err (''unknown command: delete'' @ newline)],
        Some \<lparr>host = argv ! 1, fm_command = ''delete'', fm_args = []\<rparr>)"
    using assms(2) by (simp add: main_options_def)
  with assms(3) show ?thesis
    by (simp add: file_manager_def main_connected_def executeCommand_def first_arg_def)
qed

lemma file_manager_delete_undefined_witness:
  "file_manager (\<lambda>e. ''error'') 0 [''fm'', ''10.0.0.2'', ''delete'', ''A.JBI''] [] no_error [] = Undefined"
  using file_manager_delete_undefined [of "[''fm'', ''10.0.0.2'', ''delete'', ''A.JBI'']" no_error]
  by simp

lemma new_Client_inv: "client_inv ((new_Client b)\<lparr>socket_open := c\<rparr>)"
  by (simp add: client_inv_def new_Client_def)

lemma readFile_new_Client:
  "\<exists>s client' es. readFile now h name timeout progress ((new_Client b)\<lparr>socket_open := c\<rparr>)
    = Returns ((s, client'), es)"
  by (simp add: readFile_def impl_readFile_def ReadFileSession_start_def allocateId_def
      registerHandler_def new_Client_def Let_def)

lemma getting_done:
  assumes "rfs_done s"
  shows "\<exists>s'. run_machine (fm_step fmt) (Getting s) evs = Returns (Getting s', []) \<and> rfs_done s'"
  using assms
proof (induction evs arbitrary: s)
  case Nil
  then show ?case by simp
next
  case (Cons ev evs)
  have "\<exists>s'. fm_step fmt (Getting s) ev = Returns (Getting s', []) \<and> rfs_done s'"
  proof (cases ev)
    case (File_event e)
    with Cons.prems show ?thesis
      by (cases e) (auto simp: step_simps Let_def running_def)
  next
    case (Command_event e)
    with Cons.prems show ?thesis by simp
  qed
  with Cons.IH show ?case by fastforce
qed



text \<open>A program that lists files or writes one with contents.\<close>

fun fm_fruitless :: "fm_state \<Rightarrow> bool" where
  "fm_fruitless (Listing s) = read_file_ok s"
| "fm_fruitless (Putting s) =
     (write_file_ok s \<and> wfs_blocks_sent s = 0 \<and> wf_data (wfs_command s) \<noteq> [])"
| "fm_fruitless Exited = True"
| "fm_fruitless _ = False"

definition fm_failed :: "fm_state \<Rightarrow> fm_output list \<Rightarrow> bool" where
  "fm_failed st outs \<longleftrightarrow> outs = [] \<or> (\<exists>e. outs = [Err e, Exit 2] \<and> st = Exited)"

lemma completions_list:
  assumes "ReadFileList_step s ev = Returns (s', es)" "r \<in> set (completions es)"
  shows "r = Inr [] \<or> (\<exists>e. r = Inl e)"
proof -
  have "(\<exists>e. r = Inl e) \<or> (\<exists>data. decode_ReadFileList data = Returns r)"
    using assms by (cases ev) (auto simp: step_simps Let_def split: if_splits option.splits)
  then show ?thesis using decode_ReadFileList_Returns by blast
qed

lemma list_at_most_one:
  "length xs \<le> 1 \<Longrightarrow> \<forall>x \<in> set xs. P x \<Longrightarrow> xs = [] \<or> (\<exists>x. xs = [x] \<and> P x)"
  by (cases xs) auto

lemma fm_step_fruitless:
  assumes "fm_fruitless st" "fm_step fmt st ev = Returns (st', outs)"
  shows "fm_fruitless st' \<and> fm_failed st' outs"
proof (cases "\<exists>e. ev = File_event e \<and> st \<noteq> Exited")
  case False
  with assms show ?thesis by (cases st; cases ev) (auto simp: fm_failed_def)
next
  case True
  then obtain e where e: "ev = File_event e" and st: "st \<noteq> Exited" by blast
  show ?thesis
  proof (cases st)
    case (Listing s)
    with assms e obtain s' es where step: "ReadFileList_step s e = Returns (s', es)"
      and out: "(st', outs) = running (Listing s') (concat (map (list_callback fmt) (completions es)))"
      and ok: "read_file_ok s" by auto
    have law: "read_file_ok s'" "length (completions es) \<le> 1"
      using read_file_step_law [OF ok step] by (auto simp: read_file_law_def split: if_splits)
    have "\<forall>r \<in> set (completions es). r = Inr [] \<or> (\<exists>e. r = Inl e)"
      using completions_list [OF step] by blast
    from list_at_most_one [OF law(2) this] out law(1) show ?thesis
      by (auto simp: list_callback_def fail_def running_def fm_failed_def)
  next
    case (Putting s)
    with assms e obtain s' es where step: "WriteFileSession_step s e = Returns (s', es)"
      and out: "(st', outs) = running (Putting s') (concat (map (put_callback fmt) (completions es)))"
      and ok: "write_file_ok s" "wfs_blocks_sent s = 0" "wf_data (wfs_command s) \<noteq> []" by auto
    have law: "write_file_ok s'" "length (completions es) \<le> 1"
      using write_file_step_law [OF ok(1) step] by (auto simp: write_file_law_def split: if_splits)
    have "Inr () \<notin> set (completions es)"
      using write_file_run_silent [of s "[e]"] step ok by simp
    then have inl: "\<forall>r \<in> set (completions es). \<exists>e. r = Inl e"
      by (metis old.unit.exhaust sum.exhaust)
    from list_at_most_one [OF law(2) inl] out law(1) write_file_step_counter [OF step] ok show ?thesis
      by (auto simp: put_callback_def fail_def running_def fm_failed_def)
  qed (use assms st in auto)
qed

lemma fm_run_fruitless:
  "fm_fruitless st \<Longrightarrow> run_machine (fm_step fmt) st evs = Returns (st', outs) \<Longrightarrow> fm_failed st' outs"
proof (induction evs arbitrary: st outs)
  case Nil
  then show ?case by (simp add: fm_failed_def)
next
  case (Cons ev evs)
  then obtain st1 outs1 outs2 where step: "fm_step fmt st ev = Returns (st1, outs1)"
    and r: "run_machine (fm_step fmt) st1 evs = Returns (st', outs2)" and outs: "outs = outs1 @ outs2"
    by auto
  note f = fm_step_fruitless [OF Cons.prems(1) step]
  have "run_machine (fm_step fmt) Exited evs = Returns (Exited, [])" by (induction evs) auto
  with f Cons.IH [OF _ r] r outs show ?case by (auto simp: fm_failed_def)
qed



end
