(* ===== verification/Read_Status.thy ===== *)
theory Read_Status
  imports Command_Session Connect
begin

text \<open>
  The tool \<open>src/tools/read_status.cpp\<close>: once connected it reads the status and the current
  position of the robot in turns, and prints them, until something goes wrong.  It is the library
  at work: the datagrams the client receives, its map of handlers, the sessions of the commands,
  and callbacks that send the next command.  The text of an error, of a number with a fixed number
  of decimals and of the address of the peer are parameters.
\<close>

section \<open>Program\<close>

text \<open>
  The tool waits for the result of its last command, or has stopped sending.  The earlier
  sessions are done, so that no event has an effect on them any more.
\<close>

datatype tool_phase =
    Waiting_status CommandSession
  | Waiting_position CommandSession
  | Stopped

record tool =
  tool_client :: "unit Client"
  tool_phase :: tool_phase

record tool_text =
  format :: "error \<Rightarrow> string"
  fixed :: "nat \<Rightarrow> double \<Rightarrow> string"
  endpoint :: string

definition ln :: "string \<Rightarrow> string" where "ln s = s @ [CHR 0x0a]"

definition yes_no :: "bool \<Rightarrow> string" where
  "yes_no b = (if b then ''true'' else ''false'')"

definition print_status :: "Status \<Rightarrow> string" where
  "print_status s =
     ln ''---'' @ ln ''status:''
     @ ln (''  step:               '' @ yes_no (step s))
     @ ln (''  one_cycle:          '' @ yes_no (one_cycle s))
     @ ln (''  continuous:         '' @ yes_no (continuous s))
     @ ln (''  running:            '' @ yes_no (running s))
     @ ln (''  speed_limited:      '' @ yes_no (speed_limited s))
     @ ln (''  teach:              '' @ yes_no (teach s))
     @ ln (''  play:               '' @ yes_no (play s))
     @ ln (''  remote:             '' @ yes_no (remote s))
     @ ln (''  teach_pendant_hold: '' @ yes_no (teach_pendant_hold s))
     @ ln (''  external_hold:      '' @ yes_no (external_hold s))
     @ ln (''  command_hold:       '' @ yes_no (command_hold s))
     @ ln (''  alarm:              '' @ yes_no (alarm s))
     @ ln (''  error:              '' @ yes_no (status_error s))
     @ ln (''  servo_on:           '' @ yes_no (servo_on s))"

definition print_cartesian :: "tool_text \<Rightarrow> CartesianPosition \<Rightarrow> string" where
  "print_cartesian t p =
     ln ''position: !cartesian''
     @ ln (''  x:      '' @ fixed t 3 (cp_x p))
     @ ln (''  y:      '' @ fixed t 3 (cp_y p))
     @ ln (''  z:      '' @ fixed t 3 (cp_z p))
     @ ln (''  rx:     '' @ fixed t 4 (cp_rx p))
     @ ln (''  ry:     '' @ fixed t 4 (cp_ry p))
     @ ln (''  rz:     '' @ fixed t 4 (cp_rz p))
     @ ln (''  frame:  '' @ print_CoordinateSystem (cp_frame p))
     @ ln (''  tool:   '' @ to_string (sint (cp_tool p)))
     @ ln (''  config: '' @ print_PoseConfiguration (cp_type p))"

text \<open>The two commands; sending one replaces the session the tool waits for.\<close>

definition position_command :: command where
  "position_command =
     ReadCurrentPosition \<lparr>rcp_control_group = 0, rcp_coordinate_system = robot_cartesian\<rparr>"

definition tool_timeout :: int where
  "tool_timeout = 200"

definition tool_readStatus :: "int \<Rightarrow> tool \<Rightarrow> tool outcome" where
  "tool_readStatus now st =
     obind (Client_sendCommand_timeout now tool_timeout () ReadStatus (tool_client st)) (\<lambda>((s, client), _).
       Returns \<lparr>tool_client = client, tool_phase = Waiting_status s\<rparr>)"

definition tool_readPosition :: "int \<Rightarrow> tool \<Rightarrow> tool outcome" where
  "tool_readPosition now st =
     obind (Client_sendCommand_timeout now tool_timeout () position_command (tool_client st)) (\<lambda>((s, client), _).
       Returns \<lparr>tool_client = client, tool_phase = Waiting_position s\<rparr>)"

text \<open>An error is printed and the client closed.\<close>

definition tool_fail :: "string \<Rightarrow> tool \<Rightarrow> (tool \<times> string list) outcome" where
  "tool_fail what st =
     Returns (\<lparr>tool_client = close (tool_client st), tool_phase = Stopped\<rparr>, [ln what])"

text \<open>
  The callbacks.  For a pulse position the code asks for the Cartesian alternative, which throws.
  (It would go on to print eight elements of an array of six.)
\<close>

definition on_status :: "tool_text \<Rightarrow> int \<Rightarrow> Status result \<Rightarrow> tool \<Rightarrow> (tool \<times> string list) outcome" where
  "on_status t now result st =
     (case result of
        Inl e \<Rightarrow> tool_fail (''Error reading status: '' @ format t e) st
      | Inr s \<Rightarrow> obind (tool_readPosition now st) (\<lambda>st. Returns (st, [print_status s])))"

definition on_position :: "tool_text \<Rightarrow> int \<Rightarrow> Position result \<Rightarrow> tool \<Rightarrow> (tool \<times> string list) outcome" where
  "on_position t now result st =
     (case result of
        Inl e \<Rightarrow> tool_fail (''Error reading current position: '' @ format t e) st
      | Inr p \<Rightarrow>
          obind (if isPulse p then obind (get_cartesian p) (\<lambda>c. Undefined) else Returns []) (\<lambda>pulse_out.
          obind (if isCartesian p then obind (get_cartesian p) (\<lambda>c. Returns [print_cartesian t c])
                 else Returns []) (\<lambda>cartesian_out.
          obind (tool_readStatus now st) (\<lambda>st. Returns (st, pulse_out @ cartesian_out)))))"

text \<open>The result of a command is of its response type (\<open>response_decoding_is_total\<close>).\<close>

definition on_result :: "tool_text \<Rightarrow> int \<Rightarrow> response result \<Rightarrow> tool \<Rightarrow> (tool \<times> string list) outcome" where
  "on_result t now result st =
     (case tool_phase st of
        Waiting_status _ \<Rightarrow>
          (case result of
             Inl e \<Rightarrow> on_status t now (Inl e) st
           | Inr (Status_response s) \<Rightarrow> on_status t now (Inr s) st
           | Inr _ \<Rightarrow> Undefined)
      | Waiting_position _ \<Rightarrow>
          (case result of
             Inl e \<Rightarrow> on_position t now (Inl e) st
           | Inr (Position_response p) \<Rightarrow> on_position t now (Inr p) st
           | Inr _ \<Rightarrow> Undefined)
      | Stopped \<Rightarrow> Returns (st, []))"

text \<open>The effects of a session, carried out in order: its handler is removed, then the callback runs.\<close>

fun tool_effects ::
    "tool_text \<Rightarrow> int \<Rightarrow> response effect list \<Rightarrow> tool \<Rightarrow> (tool \<times> string list) outcome" where
  "tool_effects t now [] st = Returns (st, [])"
| "tool_effects t now (Remove token # es) st =
     obind (removeHandler token (tool_client st)) (\<lambda>client.
       tool_effects t now es (st\<lparr>tool_client := client\<rparr>))"
| "tool_effects t now (Complete r # es) st =
     obind (on_result t now r st) (\<lambda>(st, out).
     obind (tool_effects t now es st) (\<lambda>(st, out'). Returns (st, out @ out')))"
| "tool_effects t now (e # es) st = tool_effects t now es st"

definition tool_session ::
    "tool_text \<Rightarrow> int \<Rightarrow> session_event deadline_event \<Rightarrow> tool \<Rightarrow> (tool \<times> string list) outcome" where
  "tool_session t now ev st =
     (case tool_phase st of
        Waiting_status s \<Rightarrow>
          obind (deadline_step CommandSession_step (\<lambda>e. CommandSession_resolve (Inl e)) s ev)
            (\<lambda>(s', es). tool_effects t now es (st\<lparr>tool_phase := Waiting_status s'\<rparr>))
      | Waiting_position s \<Rightarrow>
          obind (deadline_step CommandSession_step (\<lambda>e. CommandSession_resolve (Inl e)) s ev)
            (\<lambda>(s', es). tool_effects t now es (st\<lparr>tool_phase := Waiting_position s'\<rparr>))
      | Stopped \<Rightarrow> Returns (st, []))"

text \<open>
  What the client does with a datagram: \<open>on_error\<close> prints and closes, a handler is the one of
  the session.
\<close>

fun tool_actions ::
    "tool_text \<Rightarrow> int \<Rightarrow> unit action list \<Rightarrow> tool \<Rightarrow> (tool \<times> string list) outcome" where
  "tool_actions t now [] st = Returns (st, [])"
| "tool_actions t now (Report_error e # as) st =
     obind (tool_actions t now as (st\<lparr>tool_client := close (tool_client st)\<rparr>)) (\<lambda>(st, out).
       Returns (st, ln (''Communication error: '' @ format t e) # out))"
| "tool_actions t now (Invoke h header data # as) st =
     obind (tool_session t now (Work (Reply header data)) st) (\<lambda>(st, out).
     obind (tool_actions t now as st) (\<lambda>(st, out'). Returns (st, out @ out')))"
| "tool_actions t now (_ # as) st = tool_actions t now as st"

datatype tool_event =
    Datagram error_code bytes
  | Send_done error_code
  | Deadline error_code

fun tool_step :: "tool_text \<Rightarrow> int \<Rightarrow> tool \<Rightarrow> tool_event \<Rightarrow> (tool \<times> string list) outcome" where
  "tool_step t now st (Datagram err msg) =
     obind (of_read (onReceive err msg (tool_client st))) (\<lambda>as. tool_actions t now as st)"
| "tool_step t now st (Send_done err) = tool_session t now (Work (Sent err)) st"
| "tool_step t now st (Deadline err) = tool_session t now (Timer err) st"

text \<open>The arguments of the program are its name, the host and the port.\<close>

definition tool_main :: "string list \<Rightarrow> ConnectionAttempt \<times> connect_effect list" where
  "tool_main argv =
     (let host = (if length argv > 1 then argv ! 1 else ''10.0.0.2'');
          port = (if length argv > 2 then argv ! 2 else ''10040'')
      in Client_connect host port tool_timeout)"

text \<open>The callback of \<open>connect\<close>; the client has an error handler, which \<open>main\<close> sets.\<close>

definition tool_connected :: "tool_text \<Rightarrow> int \<Rightarrow> error \<Rightarrow> (tool \<times> string list) outcome" where
  "tool_connected t now err =
     (let st = \<lparr>tool_client = (new_Client True)\<lparr>socket_open := True\<rparr>, tool_phase = Stopped\<rparr>
      in if is_error err then tool_fail (format t err) st
      else obind (tool_readStatus now st) (\<lambda>st.
        Returns (st, [ln (''Connected to '' @ endpoint t @ ''.'')])))"

section \<open>Facts\<close>

text \<open>
  While the tool waits for a command, the request of this command is the only one that is open;
  when it has stopped there is none.
\<close>

definition waits_for :: "unit Client \<Rightarrow> CommandSession \<Rightarrow> bool" where
  "waits_for client s \<longleftrightarrow>
     CommandSession_ok s \<and> \<not> cs_done s \<and> valid_token client (the (cs_handler s))
     \<and> token_key (the (cs_handler s)) = cs_request_id s
     \<and> dom (client_requests client) = {cs_request_id s}"

fun phase_ok :: "unit Client \<Rightarrow> tool_phase \<Rightarrow> bool" where
  "phase_ok client (Waiting_status s) \<longleftrightarrow> waits_for client s \<and> cs_command s = ReadStatus"
| "phase_ok client (Waiting_position s) \<longleftrightarrow> waits_for client s \<and> cs_command s = position_command"
| "phase_ok client Stopped \<longleftrightarrow> client_requests client = Map.empty"

definition tool_inv :: "tool \<Rightarrow> bool" where
  "tool_inv st \<longleftrightarrow> client_inv (tool_client st) \<and> phase_ok (tool_client st) (tool_phase st)"

lemma client_requests_close [simp]: "client_requests (close client) = client_requests client"
  by (simp add: close_def)

lemma phase_ok_close [simp]: "phase_ok (close client) ph = phase_ok client ph"
  by (cases ph) (simp_all add: waits_for_def valid_token_def)

lemma client_inv_close [simp]: "client_inv (close client) = client_inv client"
  by (simp add: client_inv_def close_def)

text \<open>With no open request, a command of the tool can always be sent.\<close>

lemma sendCommand_waits:
  assumes "client_inv client" "client_requests client = Map.empty"
    and "\<And>rid. \<exists>buffer. encode_command [] rid cmd = Returns buffer"
  shows "\<exists>s client' es. sendCommand now deadline () cmd client = Returns ((s, client'), es)
    \<and> waits_for client' s \<and> client_inv client' \<and> cs_command s = cmd
    \<and> cs_request_id s = client_request_id client \<and> client_request_id client' = client_request_id client + 1
    \<and> socket_open client' = socket_open client"
proof -
  obtain buffer where b: "encode_command [] (client_request_id client) cmd = Returns buffer"
    using assms(3) by blast
  have "\<exists>s client' es. sendCommand now deadline () cmd client = Returns ((s, client'), es)
    \<and> dom (client_requests client') = {cs_request_id s}
    \<and> client_request_id client' = client_request_id client + 1
    \<and> socket_open client' = socket_open client"
    by (simp add: sendCommand_def DeadlineSession_start_def CommandSession_new_def CommandSession_start_def allocateId_def
        registerHandler_def assms(2) b)
  then obtain s client' es where s: "sendCommand now deadline () cmd client = Returns ((s, client'), es)"
    and d: "dom (client_requests client') = {cs_request_id s}"
      "client_request_id client' = client_request_id client + 1"
      "socket_open client' = socket_open client" by blast
  from sendCommand_session [OF s assms(1)] s d show ?thesis by (auto simp: waits_for_def)
qed

lemma tool_commands_encode:
  "\<exists>buffer. encode_command [] rid ReadStatus = Returns buffer"
  "\<exists>buffer. encode_command [] rid position_command = Returns buffer"
  by (simp_all add: position_command_def encode_ReadCurrentPosition_def add_int_def Let_def)

definition sent_next :: "tool \<Rightarrow> tool \<Rightarrow> CommandSession \<Rightarrow> bool" where
  "sent_next st st' s \<longleftrightarrow> tool_inv st' \<and> cs_request_id s = client_request_id (tool_client st)"

lemma tool_readStatus_sends:
  assumes "client_inv (tool_client st)" "client_requests (tool_client st) = Map.empty"
  shows "\<exists>st' s. tool_readStatus now st = Returns st' \<and> tool_phase st' = Waiting_status s \<and> sent_next st st' s"
  using sendCommand_waits [OF assms tool_commands_encode(1), of now "now + tool_timeout"]
  by (auto simp: tool_readStatus_def tool_inv_def sent_next_def)

lemma tool_readPosition_sends:
  assumes "client_inv (tool_client st)" "client_requests (tool_client st) = Map.empty"
  shows "\<exists>st' s. tool_readPosition now st = Returns st' \<and> tool_phase st' = Waiting_position s \<and> sent_next st st' s"
  using sendCommand_waits [OF assms tool_commands_encode(2), of now "now + tool_timeout"]
  by (auto simp: tool_readPosition_def tool_inv_def sent_next_def)

text \<open>The callback of a command whose handler has been removed.\<close>

definition survives :: "(tool \<times> string list) outcome \<Rightarrow> bool" where
  "survives m \<longleftrightarrow> m = Throws Bad_variant_access \<or> (\<exists>st out. m = Returns (st, out) \<and> tool_inv st)"

lemma on_status_survives:
  assumes "client_inv (tool_client st)" "client_requests (tool_client st) = Map.empty"
  shows "survives (on_status t now r st)"
  using tool_readPosition_sends [OF assms, of now] assms
  by (cases r) (auto simp: on_status_def survives_def tool_fail_def tool_inv_def sent_next_def)

lemma on_position_survives:
  assumes "client_inv (tool_client st)" "client_requests (tool_client st) = Map.empty"
  shows "survives (on_position t now r st)"
proof (cases r)
  case (Inl e)
  with assms show ?thesis by (simp add: on_position_def survives_def tool_fail_def tool_inv_def)
next
  case (Inr p)
  with tool_readStatus_sends [OF assms, of now] show ?thesis
    by (cases p) (auto simp: on_position_def survives_def isPulse_def isCartesian_def sent_next_def)
qed

lemma on_result_survives:
  assumes "client_inv (tool_client st)" "client_requests (tool_client st) = Map.empty"
    and "case tool_phase st of Waiting_status s \<Rightarrow> sound_answer ReadStatus r
      | Waiting_position s \<Rightarrow> sound_answer position_command r | Stopped \<Rightarrow> True"
  shows "survives (on_result t now r st)"
proof (cases "tool_phase st")
  case (Waiting_status s)
  with assms on_status_survives [OF assms(1,2)] show ?thesis
    by (auto simp: on_result_def sound_answer_def is_Status_response_def split: sum.splits)
next
  case (Waiting_position s)
  with assms on_position_survives [OF assms(1,2)] show ?thesis
    by (auto simp: on_result_def sound_answer_def position_command_def is_Position_response_def
        split: sum.splits)
next
  case Stopped
  with assms show ?thesis by (simp add: on_result_def survives_def tool_inv_def)
qed

lemma tool_completes:
  assumes "client_inv client" "waits_for client s" "cs_handler s = Some token"
  shows "\<exists>client'. removeHandler token client = Returns client' \<and> client_inv client'
    \<and> client_requests client' = Map.empty \<and> client_request_id client' = client_request_id client"
proof -
  have v: "valid_token client token" "token_key token = cs_request_id s"
    "dom (client_requests client) = {cs_request_id s}"
    using assms by (simp_all add: waits_for_def)
  from registry.remove_valid [OF assms(1) v(1)] v show ?thesis
    by (auto simp: removeHandler_def fun_eq_iff dom_def)
qed

lemma tool_session_survives:
  assumes "tool_inv st"
  shows "survives (tool_session t now ev st)"
proof -
  have waiting: "survives (obind (deadline_step CommandSession_step (\<lambda>e. CommandSession_resolve (Inl e)) s ev)
      (\<lambda>(s', es). tool_effects t now es (st\<lparr>tool_phase := ph s'\<rparr>)))"
    if w: "waits_for (tool_client st) s" and same: "tool_phase st = ph s"
      and ph: "case ph (s\<lparr>cs_done := True\<rparr>) of Waiting_status s' \<Rightarrow> cs_command s = ReadStatus
        | Waiting_position s' \<Rightarrow> cs_command s = position_command | Stopped \<Rightarrow> False"
    for s ph
  proof -
    have ok: "CommandSession_ok s" "\<not> cs_done s" using w by (simp_all add: waits_for_def)
    obtain s' es where st: "deadline_step CommandSession_step (\<lambda>e. CommandSession_resolve (Inl e)) s ev
        = Returns (s', es)" using command_session.deadline.step_returns [OF ok(1)] by blast
    from CommandSession_deadline_shape [OF ok st] show ?thesis
    proof (elim disjE exE conjE)
      assume "s' = s" "es = []"
      moreover have "st\<lparr>tool_phase := ph s\<rparr> = st" using same by (cases st) simp
      ultimately show ?thesis using st assms by (simp add: survives_def)
    next
      fix token r
      assume t: "cs_handler s = Some token" and s': "s' = s\<lparr>cs_done := True\<rparr>"
        and es: "es = [Remove token, Cancel_timer, Complete r, Post_reset]"
        and r: "sound_answer (cs_command s) r"
      obtain client' where c: "removeHandler token (tool_client st) = Returns client'"
        "client_inv client'" "client_requests client' = Map.empty"
        using tool_completes [OF _ w t] assms by (auto simp: tool_inv_def)
      let ?st = "st\<lparr>tool_phase := ph s', tool_client := client'\<rparr>"
      have "survives (on_result t now r ?st)"
        using c ph r by (intro on_result_survives) (auto simp: s' split: tool_phase.splits)
      then show ?thesis using st c by (auto simp: es survives_def)
    qed
  qed
  show ?thesis
  proof (cases "tool_phase st")
    case (Waiting_status s)
    with assms waiting [of s Waiting_status] show ?thesis by (simp add: tool_session_def tool_inv_def)
  next
    case (Waiting_position s)
    with assms waiting [of s Waiting_position] show ?thesis by (simp add: tool_session_def tool_inv_def)
  next
    case Stopped
    with assms show ?thesis by (simp add: tool_session_def survives_def)
  qed
qed

lemma tool_actions_survive: "tool_inv st \<Longrightarrow> survives (tool_actions t now as st)"
proof (induction t now as st rule: tool_actions.induct)
  case (2 t now e as st)
  then have "survives (tool_actions t now as (st\<lparr>tool_client := close (tool_client st)\<rparr>))"
    by (simp add: tool_inv_def)
  then show ?case by (auto simp: survives_def)
next
  case (3 t now h header data as st)
  from tool_session_survives [OF 3(2), of t now "Work (Reply header data)"] 3(1) show ?case
    by (fastforce simp: survives_def)
qed (simp_all add: survives_def)

lemma onReceive_defined: "\<exists>as. onReceive err msg client = Some as"
  using onReceive_cases [of err msg]
  by (auto simp: onReceive_def split: sum.splits option.splits)

lemma tool_step_survives: "tool_inv st \<Longrightarrow> survives (tool_step t now st ev)"
proof (cases ev)
  case (Datagram err msg)
  assume "tool_inv st"
  moreover obtain as where "onReceive err msg (tool_client st) = Some as"
    using onReceive_defined by blast
  ultimately show ?thesis using Datagram by (simp add: of_read_def tool_actions_survive)
qed (simp_all add: tool_session_survives)

lemma tool_run_survives: "tool_inv st \<Longrightarrow> survives (run_machine (tool_step t now) st evs)"
proof (induction evs arbitrary: st)
  case Nil
  then show ?case by (simp add: survives_def)
next
  case (Cons ev evs)
  from tool_step_survives [OF Cons.prems, of t now ev] Cons.IH show ?case
    by (fastforce simp: survives_def)
qed

lemma tool_connected_inv:
  "\<exists>st out. tool_connected t now err = Returns (st, out) \<and> tool_inv st"
proof -
  let ?st = "\<lparr>tool_client = (new_Client True)\<lparr>socket_open := True\<rparr>, tool_phase = Stopped\<rparr>"
  have "client_inv (tool_client ?st)" "client_requests (tool_client ?st) = Map.empty"
    by (simp_all add: client_inv_def new_Client_def)
  from tool_readStatus_sends [OF this, of now] show ?thesis
    by (auto simp: tool_connected_def tool_fail_def tool_inv_def sent_next_def Let_def close_def
        client_inv_def new_Client_def)
qed


text \<open>
  C35: The status tool prints what the controller answers and asks again: a status is printed
  and the position requested, a Cartesian position is printed and the status requested, each
  under the next request id; a pulse position, which the controller may answer, ends the tool
  with an exception, because the code reads it as a Cartesian one.
\<close>

theorem status_tool_answers:
  assumes "tool_connected t now err = Returns (st0, out0)"
    and "run_machine (tool_step t now) st0 evs = Returns (st, out)"
    and "tool_phase st = Waiting_status s \<or> tool_phase st = Waiting_position s"
    and "response_header_ok hdr" "request_id hdr = cs_request_id s" "status hdr = 0"
    and "length data = unat (payload_size hdr)" "length r8 = 8" "length r2 = 2" "length p2 = 2"
    and "decode_command data (cs_command s) = Some (Inr v, rest)"
  defines "rid \<equiv> client_request_id (tool_client st)"
  shows "case v of
      Status_response x \<Rightarrow> \<exists>st' s'. tool_step t now st (Datagram ec_success (response_bytes hdr r1 r8 r2 p2 data))
          = Returns (st', [print_status x]) \<and> tool_phase st' = Waiting_position s' \<and> cs_request_id s' = rid
    | Position_response (Cartesian p) \<Rightarrow>
        \<exists>st' s'. tool_step t now st (Datagram ec_success (response_bytes hdr r1 r8 r2 p2 data))
          = Returns (st', [print_cartesian t p]) \<and> tool_phase st' = Waiting_status s' \<and> cs_request_id s' = rid
    | Position_response (Pulse p) \<Rightarrow>
        tool_step t now st (Datagram ec_success (response_bytes hdr r1 r8 r2 p2 data)) = Throws Bad_variant_access
    | _ \<Rightarrow> False"
proof -
  have inv: "tool_inv st"
    using tool_connected_inv [of t now err] assms(1,2) tool_run_survives [of st0 t now evs]
    by (auto simp: survives_def)
  then have w: "waits_for (tool_client st) s" and c: "client_inv (tool_client st)"
    using assms(3) by (auto simp: tool_inv_def)
  then obtain token where token: "cs_handler s = Some token" by (auto simp: waits_for_def CommandSession_ok_def)
  obtain client' where client': "removeHandler token (tool_client st) = Returns client'"
    "client_inv client'" "client_requests client' = Map.empty" "client_request_id client' = rid"
    using tool_completes [OF c w token] by (auto simp: rid_def)
  obtain r where r: "client_requests (tool_client st) (request_id hdr) = Some r"
    using w assms(5) by (auto simp: waits_for_def dom_def)
  have recv: "onReceive ec_success (response_bytes hdr r1 r8 r2 p2 data) (tool_client st)
      = Some [Invoke () hdr data, Receive]"
    using r by (simp add: onReceive_def ec_success_def is_operation_canceled_def ec_is_error_def
        decodeResponseHeader_complete [OF assms(8-10,4,7)])
  have fin: "CommandSession_on_response hdr data s = Returns (s\<lparr>cs_done := True\<rparr>,
      [Remove token, Complete (Inr v)])"
    using assms(6,11) token w by (simp add: step_simps of_read_def waits_for_def)
  have fits: "response_fits (cs_command s) v"
    using decode_command_holds [of "cs_command s" data] assms(11) by (simp add: holds_def)
  from assms(3) show ?thesis
  proof
    assume ph: "tool_phase st = Waiting_status s"
    then have "is_Status_response v" using inv fits by (auto simp: tool_inv_def)
    then obtain x where v: "v = Status_response x" by (auto simp: is_Status_response_def)
    let ?st = "st\<lparr>tool_phase := Waiting_status (s\<lparr>cs_done := True\<rparr>), tool_client := client'\<rparr>"
    from tool_readPosition_sends [of ?st now] client' obtain st' s' where
      "tool_readPosition now ?st = Returns st'" "tool_phase st' = Waiting_position s'"
      "cs_request_id s' = rid" by (auto simp: sent_next_def)
    then show ?thesis
      by (simp add: v of_read_def recv tool_session_def ph fin client' on_result_def on_status_def)
  next
    assume ph: "tool_phase st = Waiting_position s"
    then have "is_Position_response v" using inv fits by (auto simp: tool_inv_def position_command_def)
    then obtain p where v: "v = Position_response p" by (auto simp: is_Position_response_def)
    let ?st = "st\<lparr>tool_phase := Waiting_position (s\<lparr>cs_done := True\<rparr>), tool_client := client'\<rparr>"
    from tool_readStatus_sends [of ?st now] client' obtain st' s' where
      "tool_readStatus now ?st = Returns st'" "tool_phase st' = Waiting_status s'"
      "cs_request_id s' = rid" by (auto simp: sent_next_def)
    then show ?thesis
      by (cases p) (simp_all add: v of_read_def recv tool_session_def ph fin client' on_result_def
          on_position_def isPulse_def isCartesian_def)
  qed
qed

definition example_text :: tool_text where
  "example_text = \<lparr>format = (\<lambda>e. ''error''), fixed = (\<lambda>n d. ''0''), endpoint = ''10.0.0.2:10040''\<rparr>"

lemma status_tool_answers_witness:
  "\<exists>st0 out0 st' x. tool_connected example_text 0 no_error = Returns (st0, out0)
    \<and> tool_step example_text 0 st0 (Datagram ec_success
        (response_bytes (example_response\<lparr>payload_size := 8, request_id := 1\<rparr>) 3 (replicate 8 0x39)
          [0, 0] [0, 0] [0xC0, 0, 0, 0, 0x40, 0, 0, 0])) = Returns (st', [print_status x])
    \<and> remote x \<and> play x \<and> \<not> step x \<and> servo_on x \<and> \<not> alarm x"
proof -
  let ?hdr = "example_response\<lparr>payload_size := 8, request_id := 1\<rparr>"
  let ?data = "[0xC0, 0, 0, 0, 0x40, 0, 0, 0] :: bytes"
  obtain st0 out0 s where c: "tool_connected example_text 0 no_error = Returns (st0, out0)"
    and ph: "tool_phase st0 = Waiting_status s" and rid: "cs_request_id s = 1" "cs_command s = ReadStatus"
    by (auto simp: tool_connected_def tool_readStatus_def sendCommand_def DeadlineSession_start_def CommandSession_new_def
        CommandSession_start_def allocateId_def registerHandler_def new_Client_def Let_def)
  have run: "run_machine (tool_step example_text 0) st0 [] = Returns (st0, [])" by simp
  obtain x rest where d: "decode_command ?data ReadStatus = Some (Inr (Status_response x), rest)"
    and x: "remote x" "play x" "\<not> step x" "servo_on x" "\<not> alarm x"
    by (simp add: decode_ReadStatus_def respond_def expectSize_def bit_simps)
  from status_tool_answers [OF c run, of s ?hdr ?data "replicate 8 0x39" "[0, 0]" "[0, 0]"
      "Status_response x" rest 3] ph rid d x c
  show ?thesis
    by (fastforce simp: example_response_def response_header_ok_def max_payload_size_def)
qed

end
