(* ===== verification/Singles.thy ===== *)
theory Singles
  imports Doubles Values
begin

text \<open>
  The C++ \<open>float\<close>: an IEEE 754 binary32 value, kept as its bits (\<open>float32\<close>), as far as the sources
  compute with it: \<open>++\<close> and \<open>!=\<close> in the programs of \<open>src/tools\<close>.  The number the bits stand for is one of
  \<open>Doubles\<close>, since every \<open>float\<close> is a \<open>double\<close>.
\<close>

section \<open>Values\<close>

definition float_value :: "float32 \<Rightarrow> double" where
  "float_value f =
     (let b = uint (float_bits f);
          s = (if 2 ^ 31 \<le> b then - 1 else 1);
          e = b div 2 ^ 23 mod 2 ^ 8;
          m = b mod 2 ^ 23
      in if e = 255 then (if m = 0 then Infinity (2 ^ 31 \<le> b) else NaN)
         else if e = 0 then Finite (s * of_int m * 2 powi (- 149))
         else Finite (s * of_int (2 ^ 23 + m) * 2 powi (e - 150)))"

text \<open>Equal are two zeros of either sign; a NaN is equal to nothing.\<close>

definition float_neq :: "float32 \<Rightarrow> float32 \<Rightarrow> bool" where
  "float_neq a b \<longleftrightarrow> \<not> double_eq (float_value a) (float_value b)"

section \<open>Rounding to a float\<close>

text \<open>
  The nearest value with 24 significant bits, ties to even; the least exponent is -126.  The
  bits of exponent and significand together count the values from zero upwards, so that a
  significand that is rounded up to the next power of two, or to infinity, has the right bits.
\<close>

definition float_exponent :: "rat \<Rightarrow> int" where
  "float_exponent x = max (ilog2 \<bar>x\<bar>) (- 126)"

definition float_magnitude :: "rat \<Rightarrow> int" where
  "float_magnitude x =
     (if x = 0 then 0
      else min ((float_exponent x + 126) * 2 ^ 23 + round_even (\<bar>x\<bar> / 2 powi (float_exponent x - 23))) 0x7f800000)"

definition float_fl :: "rat \<Rightarrow> float32" where
  "float_fl x = Float32 (word_of_int (float_magnitude x + (if x < 0 then 2 ^ 31 else 0)))"

text \<open>\<open>++\<close> adds one and rounds; a NaN stays one.\<close>

definition float_increment :: "float32 \<Rightarrow> float32" where
  "float_increment f =
     (case float_value f of
        Finite x \<Rightarrow> float_fl (x + 1)
      | _ \<Rightarrow> f)"

section \<open>Integers\<close>

lemma uint_bits: "0 \<le> x \<Longrightarrow> x < 2 ^ 32 \<Longrightarrow> uint (word_of_int x :: u32) = x"
  by (simp add: unsigned_of_int take_bit_int_eq_self)

lemma float_value_normal:
  assumes e: "1 \<le> e" "e \<le> 254" and m: "2 ^ 23 \<le> m" "m < 2 ^ 24"
  shows "float_value (Float32 (word_of_int ((e - 1) * 2 ^ 23 + m + (if neg then 2 ^ 31 else 0))))
    = Finite ((if neg then - 1 else 1) * of_int m * 2 powi (e - 150))"
proof -
  define b where "b = (e - 1) * 2 ^ 23 + m"
  define r where "r = m - 2 ^ 23"
  have b: "b = r + 2 ^ 23 * e" and r: "0 \<le> r" "r < 2 ^ 23" using m by (simp_all add: b_def r_def)
  have range: "0 \<le> b" "b < 2 ^ 31" using e r by (simp_all add: b)
  have "b div 2 ^ 23 = e" "b mod 2 ^ 23 = r" using r by (simp_all add: b)
  moreover from this have "(b + 2 ^ 31) div 2 ^ 23 = e + 2 ^ 8" "(b + 2 ^ 31) mod 2 ^ 23 = r"
    using div_mult_self1 [of "2 ^ 23" b "2 ^ 8 :: int"] mod_mult_self1 [of b "2 ^ 8" "2 ^ 23 :: int"] by simp_all
  moreover have "uint (word_of_int (b + (if neg then 2 ^ 31 else 0)) :: u32) = b + (if neg then 2 ^ 31 else 0)"
    using range by (intro uint_bits) simp_all
  moreover have "e mod 2 ^ 8 = e" "(e + 2 ^ 8) mod 2 ^ 8 = e" using e by simp_all
  moreover have "2 ^ 23 + r = m" "(2 ^ 31 \<le> b + 2 ^ 31) = True" "(2 ^ 31 \<le> b) = False" "e \<noteq> 255" "e \<noteq> 0"
    using e range by (simp_all add: r_def)
  ultimately show ?thesis unfolding b_def [symmetric] float_value_def Let_def by (cases neg) (simp_all only: if_True if_False add_0_right float32.sel simp_thms)
qed

text \<open>An integer with no more than 24 bits is a \<open>float\<close>.\<close>

lemma float_value_fl_int:
  assumes n: "n \<noteq> 0" "\<bar>n\<bar> < 2 ^ 24"
  shows "float_value (float_fl (of_int n)) = Finite (of_int n)"
proof -
  let ?x = "of_int \<bar>n\<bar> :: rat"
  define e where "e = ilog2 ?x"
  have "1 \<le> \<bar>n\<bar>" using n by linarith
  then have x: "1 \<le> ?x" "?x < 2 ^ 24"
    using n by (metis of_int_1 of_int_le_iff, metis of_int_less_iff of_int_numeral of_int_power)
  have b: "2 powi e \<le> ?x" "?x < 2 powi (e + 1)" using ilog2_bounds [of ?x] x by (simp_all add: e_def)
  have "(2::rat) powi 0 < 2 powi (e + 1)" "(2::rat) powi e < 2 powi 24"
    using b x by simp_all
  then have "\<not> e + 1 \<le> 0" "\<not> 24 \<le> e" by (metis leD powi_le)+
  then have e: "0 \<le> e" "e \<le> 23" by simp_all
  define m where "m = \<bar>n\<bar> * 2 ^ nat (23 - e)"
  have scale: "(2::rat) powi (e - 23) = 1 / 2 ^ nat (23 - e)"
  proof -
    have "e - 23 = - int (nat (23 - e))" using e by simp
    then show ?thesis by (simp only: power_int_minus power_int_of_nat) (simp add: field_simps)
  qed
  then have m: "?x / 2 powi (e - 23) = of_int m" by (simp add: m_def)
  have "(2::rat) ^ 23 = 2 powi e / 2 powi (e - 23)" "(2::rat) ^ 24 = 2 powi (e + 1) / 2 powi (e - 23)"
    by (simp_all flip: power_int_diff)
  moreover have "2 powi e / 2 powi (e - 23) \<le> ?x / 2 powi (e - 23)" "?x / 2 powi (e - 23) < 2 powi (e + 1) / 2 powi (e - 23)"
    using b by (simp_all only: divide_right_mono divide_strict_right_mono zero_less_power_int zero_le_power_int zero_less_numeral zero_le_numeral)
  ultimately have "(2::rat) ^ 23 \<le> of_int m" "of_int m < (2::rat) ^ 24" by (simp_all only: m)
  then have bounds: "2 ^ 23 \<le> m" "m < 2 ^ 24"
    by (metis of_int_le_iff of_int_numeral of_int_power, metis of_int_less_iff of_int_numeral of_int_power)
  have "float_exponent (of_int n) = e" using e by (simp add: float_exponent_def e_def)
  then have mag: "float_magnitude (of_int n) = (e + 127 - 1) * 2 ^ 23 + m"
    using n e bounds m by (simp add: float_magnitude_def min_def)
  have "of_int m * 2 powi (e - 23) = ?x" using m by (simp add: field_simps)
  with float_value_normal [of "e + 127" m "n < 0"] e bounds show ?thesis
    by (simp add: float_fl_def mag)
qed

section \<open>Counting\<close>

lemma float_fl_zero: "float_value (float_fl (of_int 0)) = Finite (of_int 0)"
  by code_simp

text \<open>Beyond 24 bits the next integer is not a \<open>float\<close>, and the sum is rounded back.\<close>

lemma float_increment_sticks: "float_increment (float_fl (2 ^ 24)) = float_fl (2 ^ 24)"
  by code_simp

lemma float_counts:
  assumes "- (2 ^ 24) < a" "a \<le> 2 ^ 24"
  shows "(float_increment ^^ k) (float_fl (of_int a)) = float_fl (of_int (min (a + int k) (2 ^ 24)))"
proof (induction k)
  case 0
  then show ?case using assms by simp
next
  case (Suc k)
  let ?n = "a + int k"
  show ?case
  proof (cases "?n < 2 ^ 24")
    case True
    then have "float_value (float_fl (of_int ?n)) = Finite (of_int ?n)"
      using assms float_value_fl_int [of ?n] float_fl_zero by (cases "?n = 0") (simp_all del: of_int_add)
    with Suc True show ?thesis by (simp add: float_increment_def algebra_simps)
  next
    case False
    with Suc float_increment_sticks show ?thesis by simp
  qed
qed

end
