(* ===== verification/Test_Tools.thy ===== *)
theory Test_Tools
  imports Hosting Connect Singles
begin

text \<open>
  What the two programs that test a controller have in common, \<open>src/src/tools/multi_command_test.cpp\<close> and
  \<open>src/src/tools/udp_test.cpp\<close>: their global variables, the timer that prints how many commands were executed, the
  connection, the output.  The text of an error, of a \<open>float\<close>, of a \<open>double\<close> and of the address of the peer are parameters.
\<close>

section \<open>Output\<close>

record test_text =
  format_error :: "error \<Rightarrow> string"
  show_float :: "float32 \<Rightarrow> string"
  show_double :: "double \<Rightarrow> string"
  remote_endpoint :: string

text \<open>
  The streams \<open>std::cout\<close> and \<open>std::cerr\<close>, the wait on the timer, for a time if it was set, and
  what the client does.
\<close>

datatype test_output =
    Cout string
  | Cerr string
  | Wait_timer "int option"
  | Client_did cls_output

definition line :: "string \<Rightarrow> string" where
  "line s = s @ [CHR 0x0a]"

text \<open>A \<open>std::uint8_t\<close> is a character for a stream.\<close>

definition show_uint8 :: "u8 \<Rightarrow> string" where
  "show_uint8 v = [char_of (unat v)]"

abbreviation show_int :: "'a::len word \<Rightarrow> string" where
  "show_int v \<equiv> to_string (sint v)"

section \<open>State\<close>

record 'p tester = "'p host" +
  command_count :: i32
  byte_value :: u8
  int16_value :: i16
  int32_value :: i32
  float32_value :: float32

type_synonym ('p, 'm) test_step = "(('p, 'm) tester_scheme \<times> test_output list) outcome"

text \<open>The values before the first command; \<open>main\<close> makes the client, which has an error handler.\<close>

definition new_tester :: "client_system \<Rightarrow> 'p tester" where
  "new_tester cls = \<lparr>host_cls = cls, host_purposes = [], command_count = 0,
     byte_value = 0, int16_value = - 5, int32_value = - 5, float32_value = float_fl (- 5)\<rparr>"

definition test_timeout :: int where
  "test_timeout = 200"

text \<open>\<open>on_error\<close> prints.\<close>

fun client_output :: "test_text \<Rightarrow> cls_output \<Rightarrow> test_output" where
  "client_output t (Reported e) = Cout (line (''Communication error: '' @ format_error t e))"
| "client_output t x = Client_did x"

text \<open>\<open>++\<close> on an \<open>int\<close> that overflows is undefined.\<close>

definition count_command :: "('p, 'm) tester_scheme \<Rightarrow> ('p, 'm) test_step" where
  "count_command sys = obind (add_int (command_count sys) 1) (\<lambda>n. Returns (sys\<lparr>command_count := n\<rparr>, []))"

definition next_int32 :: "('p, 'm) tester_scheme \<Rightarrow> ('p, 'm) test_step" where
  "next_int32 sys = obind (add_int (int32_value sys) 1) (\<lambda>n. Returns (sys\<lparr>int32_value := n\<rparr>, []))"

definition onTimeout :: "error_code \<Rightarrow> ('p, 'm) tester_scheme \<Rightarrow> ('p, 'm) test_step" where
  "onTimeout err sys =
     (if ec_is_error err then Throws (System_error (ec_value err))
      else Returns (sys\<lparr>command_count := 0\<rparr>,
        [Cout (line (''Executing commands at '' @ show_int (command_count sys) @ '' Hz.'')), Wait_timer (Some 1000)]))"

section \<open>Connecting\<close>

text \<open>The arguments of the programs are their name, the host and the port.\<close>

definition test_main :: "string list \<Rightarrow> ConnectionAttempt \<times> connect_effect list" where
  "test_main argv =
     (let host = (if length argv > 1 then argv ! 1 else ''10.0.0.2'');
          port = (if length argv > 2 then argv ! 2 else ''10040'')
      in Client_connect host port 1500)"

text \<open>
  The callback of \<open>connect\<close>, with the first commands a parameter: the programs differ in them.  The timer
  waits for the first time without having been set.
\<close>

definition test_connected ::
    "test_text \<Rightarrow> (('p, 'm) tester_scheme \<Rightarrow> ('p, 'm) test_step) \<Rightarrow> error \<Rightarrow> ('p, 'm) tester_scheme
     \<Rightarrow> ('p, 'm) test_step" where
  "test_connected t commands err sys =
     (if is_error err then put (Cout (line (format_error t err))) sys
      else and_then (and_then
        (put (Cout (line (''Connected to '' @ remote_endpoint t @ ''.''))) sys)
        commands)
        (put (Wait_timer None)))"

section \<open>Events\<close>

text \<open>What asio delivers: events of the client, and the end of the wait on the timer of the program.\<close>

datatype test_event =
    Client_event cls_event
  | Tick error_code

definition test_step ::
    "test_text \<Rightarrow> ('p \<Rightarrow> op_response result \<Rightarrow> ('p, 'm) tester_scheme \<Rightarrow> ('p, 'm) test_step)
     \<Rightarrow> int \<Rightarrow> test_event \<Rightarrow> ('p, 'm) tester_scheme \<Rightarrow> ('p, 'm) test_step" where
  "test_step t cb now ev sys =
     (case ev of
        Client_event e \<Rightarrow> host_client (client_output t) cb now e sys
      | Tick err \<Rightarrow> onTimeout err sys)"

text \<open>The programs call the client only in callbacks.\<close>

fun net_event :: "test_event \<Rightarrow> bool" where
  "net_event (Client_event (Call call)) \<longleftrightarrow> False"
| "net_event (Client_event Close) \<longleftrightarrow> False"
| "net_event (Client_event e) \<longleftrightarrow> True"
| "net_event (Tick err) \<longleftrightarrow> \<not> ec_is_error err"

section \<open>Counters\<close>

text \<open>The counters, as long as they do not overflow.\<close>

lemma sint_bits: "- (2 ^ 31) \<le> x \<Longrightarrow> x < 2 ^ 31 \<Longrightarrow> sint (word_of_int x :: i32) = x"
  by (simp add: signed_of_int signed_take_bit_int_eq_self)

lemma count_command_returns:
  assumes "0 \<le> sint (command_count sys)" "sint (command_count sys) < 2 ^ 31 - 1"
  shows "\<exists>c. count_command sys = Returns (sys\<lparr>command_count := c\<rparr>, []) \<and> sint c = sint (command_count sys) + 1"
  by (rule exI [of _ "word_of_int (sint (command_count sys) + 1)"])
    (use assms sint_bits [of "sint (command_count sys) + 1"] in \<open>simp add: count_command_def add_int_def\<close>)

lemma next_int32_returns:
  assumes v: "int32_value sys = of_nat k - 5" and k: "k \<le> 2 ^ 31"
  shows "next_int32 sys = Returns (sys\<lparr>int32_value := of_nat (Suc k) - 5\<rparr>, [])"
proof -
  have "int32_value sys = word_of_int (int k - 5)" using v by simp
  then have s: "sint (int32_value sys) = int k - 5"
    using k by (simp only:) (rule sint_bits, simp_all)
  then have "add_int (int32_value sys) 1 = Returns (word_of_int (int k - 5 + 1))"
    using k by (simp only: add_int_def) simp
  then show ?thesis by (simp add: next_int32_def)
qed

section \<open>Examples\<close>

text \<open>Examples: a text, and an answer of the controller.\<close>

definition example_tester_text :: test_text where
  "example_tester_text = \<lparr>format_error = (\<lambda>e. ''error''), show_float = (\<lambda>f. ''float''), show_double = (\<lambda>d. ''double''),
     remote_endpoint = ''10.0.0.2:10040''\<rparr>"

definition example_answer :: "u8 \<Rightarrow> bytes \<Rightarrow> int \<times> test_event" where
  "example_answer rid data = (5, Client_event (Datagram ec_success
     (response_bytes (example_response\<lparr>request_id := rid, payload_size := of_nat (length data)\<rparr>) 0 (replicate 8 0x39)
       [0, 0] [0, 0] data)))"

end
