(* ===== verification/Multi_Test.thy ===== *)
theory Multi_Test
  imports Test_Tools
begin

text \<open>
  The program \<open>src/src/tools/multi_command_test.cpp\<close>: it writes four variables of the controller with one call of
  \<open>sendCommands\<close>, reads them with another, compares, and starts again with the next values.
\<close>

section \<open>Program\<close>

datatype multi_purpose = Writing_all | Reading_all

type_synonym multi_test = "multi_purpose tester"

definition write_commands :: "multi_test \<Rightarrow> command list" where
  "write_commands sys =
     [WriteUint8Var \<lparr>wv_index = 5, wv_value = byte_value sys\<rparr>, WriteInt16Var \<lparr>wv_index = 6, wv_value = int16_value sys\<rparr>,
      WriteInt32Var \<lparr>wv_index = 7, wv_value = int32_value sys\<rparr>, WriteFloat32Var \<lparr>wv_index = 8, wv_value = float32_value sys\<rparr>]"

definition read_commands :: "command list" where
  "read_commands =
     [ReadUint8Var \<lparr>rv_index = 5\<rparr>, ReadInt16Var \<lparr>rv_index = 6\<rparr>, ReadInt32Var \<lparr>rv_index = 7\<rparr>, ReadFloat32Var \<lparr>rv_index = 8\<rparr>]"

definition multi_write :: "test_text \<Rightarrow> int \<Rightarrow> multi_test \<Rightarrow> (multi_test \<times> test_output list) outcome" where
  "multi_write t now sys = host_open (client_output t) Writing_all
     (cls_call now (Send_commands (write_commands sys) (now + test_timeout))) sys"

definition multi_read :: "test_text \<Rightarrow> int \<Rightarrow> multi_test \<Rightarrow> (multi_test \<times> test_output list) outcome" where
  "multi_read t now sys = host_open (client_output t) Reading_all
     (cls_call now (Send_commands read_commands (now + test_timeout))) sys"

definition checkValue :: "string \<Rightarrow> ('a \<Rightarrow> string) \<Rightarrow> ('a \<Rightarrow> 'a \<Rightarrow> bool) \<Rightarrow> 'a \<Rightarrow> 'a \<Rightarrow> test_output list" where
  "checkValue name shown differ a b =
     (if differ a b
      then [Cerr (line (''Value mismatch for '' @ name @ '': read '' @ shown a @ '', expected '' @ shown b))]
      else [])"

text \<open>The callbacks.\<close>

definition on_written ::
    "test_text \<Rightarrow> int \<Rightarrow> unit result \<Rightarrow> multi_test \<Rightarrow> (multi_test \<times> test_output list) outcome" where
  "on_written t now result sys = and_then
     (case result of
        Inl e \<Rightarrow> put (Cerr (line (''Failed to write: '' @ format_error t e))) sys
      | Inr _ \<Rightarrow> count_command sys)
     (multi_read t now)"

type_synonym read_values = "u8 \<times> i16 \<times> i32 \<times> float32"

definition check_values :: "test_text \<Rightarrow> read_values \<Rightarrow> multi_test \<Rightarrow> test_output list" where
  "check_values t = (\<lambda>(int8, int16, int32, float32) sys.
     checkValue ''int8'' show_uint8 (\<noteq>) int8 (byte_value sys)
     @ checkValue ''int16'' show_int (\<noteq>) int16 (int16_value sys)
     @ checkValue ''int32'' show_int (\<noteq>) int32 (int32_value sys)
     @ checkValue ''float32'' (show_float t) float_neq float32 (float32_value sys))"

definition next_values :: "multi_test \<Rightarrow> (multi_test \<times> test_output list) outcome" where
  "next_values sys = and_then (and_then
     (next_int32 (sys\<lparr>byte_value := byte_value sys + 1, int16_value := int16_value sys + 1\<rparr>))
     (\<lambda>sys. Returns (sys\<lparr>float32_value := float_increment (float32_value sys)\<rparr>, [])))
     count_command"

definition on_values ::
    "test_text \<Rightarrow> int \<Rightarrow> read_values result \<Rightarrow> multi_test \<Rightarrow> (multi_test \<times> test_output list) outcome" where
  "on_values t now result sys = and_then
     (case result of
        Inl e \<Rightarrow> put (Cerr (line (''Failed to read: '' @ format_error t e))) sys
      | Inr vs \<Rightarrow> and_then (Returns (sys, check_values t vs sys)) next_values)
     (multi_write t now)"

text \<open>The elements of the result tuples have the types of the commands.\<close>

definition written_of :: "multi_response \<Rightarrow> unit option" where
  "written_of rs = (if rs = replicate 4 (Some Void) then Some () else None)"

definition values_of :: "multi_response \<Rightarrow> read_values option" where
  "values_of rs =
     (case rs of
        [Some (Uint8_response a), Some (Int16_response b), Some (Int32_response c), Some (Float32_response d)] \<Rightarrow> Some (a, b, c, d)
      | _ \<Rightarrow> None)"

definition multi_result ::
    "test_text \<Rightarrow> int \<Rightarrow> multi_purpose \<Rightarrow> op_response result \<Rightarrow> multi_test \<Rightarrow> (multi_test \<times> test_output list) outcome" where
  "multi_result t now p r sys =
     (case (p, r) of
        (Writing_all, Inl e) \<Rightarrow> on_written t now (Inl e) sys
      | (Writing_all, Inr (Responses_of rs)) \<Rightarrow> obind (of_read (written_of rs)) (\<lambda>v. on_written t now (Inr v) sys)
      | (Reading_all, Inl e) \<Rightarrow> on_values t now (Inl e) sys
      | (Reading_all, Inr (Responses_of rs)) \<Rightarrow> obind (of_read (values_of rs)) (\<lambda>v. on_values t now (Inr v) sys)
      | _ \<Rightarrow> Undefined)"

abbreviation multi_test_step :: "test_text \<Rightarrow> multi_test \<Rightarrow> int \<times> test_event \<Rightarrow> (multi_test \<times> test_output list) outcome" where
  "multi_test_step t sys \<equiv> \<lambda>(now, ev). test_step t (multi_result t now) now ev sys"

abbreviation multi_test_run :: "test_text \<Rightarrow> multi_test \<Rightarrow> (int \<times> test_event) list \<Rightarrow> (multi_test \<times> test_output list) outcome" where
  "multi_test_run t \<equiv> run_machine (multi_test_step t)"

definition multi_connected :: "test_text \<Rightarrow> int \<Rightarrow> error \<Rightarrow> (multi_test \<times> test_output list) outcome" where
  "multi_connected t now err = test_connected t (multi_write t now) err (new_tester (cls_new True))"

section \<open>What the program prints\<close>

text \<open>The values after \<open>k\<close> successful reads.\<close>

definition tester_at :: "nat \<Rightarrow> multi_test" where
  "tester_at k = (new_tester (cls_new True))\<lparr>byte_value := of_nat k, int16_value := of_nat k - 5, int32_value := of_nat k - 5,
     float32_value := (float_increment ^^ k) (float_fl (- 5))\<rparr>"

definition values_at :: "nat \<Rightarrow> multi_test \<Rightarrow> bool" where
  "values_at k sys \<longleftrightarrow> byte_value sys = byte_value (tester_at k) \<and> int16_value sys = int16_value (tester_at k)
     \<and> int32_value sys = int32_value (tester_at k) \<and> float32_value sys = float32_value (tester_at k)"

fun stderr :: "test_output list \<Rightarrow> string list" where
  "stderr [] = []"
| "stderr (Cerr s # out) = s # stderr out"
| "stderr (x # out) = stderr out"

fun test_results :: "test_output list \<Rightarrow> (nat \<times> op_response result) list" where
  "test_results [] = []"
| "test_results (Client_did x # out) = completed_ops [x] @ test_results out"
| "test_results (x # out) = test_results out"

text \<open>
  The operations take turns, beginning with a write: what the program has to print for their results, when \<open>k\<close>
  reads have succeeded.
\<close>

definition turn :: "nat \<Rightarrow> multi_purpose" where
  "turn n = (if even n then Writing_all else Reading_all)"

definition mismatches :: "test_text \<Rightarrow> nat \<Rightarrow> op_response \<Rightarrow> string list" where
  "mismatches t k v =
     (case v of
        Responses_of rs \<Rightarrow> (case values_of rs of None \<Rightarrow> [] | Some vs \<Rightarrow> stderr (check_values t vs (tester_at k)))
      | _ \<Rightarrow> [])"

fun reported :: "test_text \<Rightarrow> nat \<Rightarrow> (nat \<times> op_response result) list \<Rightarrow> string list" where
  "reported t k [] = []"
| "reported t k ((n, Inl e) # rs) =
     line ((if even n then ''Failed to write: '' else ''Failed to read: '') @ format_error t e) # reported t k rs"
| "reported t k ((n, Inr v) # rs) =
     (if even n then reported t k rs else mismatches t k v @ reported t (Suc k) rs)"

definition reads_done :: "(nat \<times> op_response result) list \<Rightarrow> nat" where
  "reads_done rs = length (filter (\<lambda>(n, r). odd n \<and> \<not> isl r) rs)"

lemma reads_done_simps [simp]:
  "reads_done [] = 0" "reads_done ((n, r) # rs) = of_bool (odd n \<and> \<not> isl r) + reads_done rs"
  "reads_done (rs @ rs') = reads_done rs + reads_done rs'"
  by (simp_all add: reads_done_def)

lemma reported_append: "reported t k (rs @ rs') = reported t k rs @ reported t (k + reads_done rs) rs'"
  by (induction t k rs rule: reported.induct) auto

lemma stderr_append [simp]: "stderr (a @ b) = stderr a @ stderr b"
  by (induction a rule: stderr.induct) auto

lemma test_results_append [simp]: "test_results (a @ b) = test_results a @ test_results b"
  by (induction a rule: test_results.induct) auto

lemma client_outputs [simp]:
  "stderr (map (client_output t) out) = []" "test_results (map (client_output t) out) = completed_ops out"
proof (induction out)
  case (Cons x out)
  case 1
  with Cons show ?case by (cases x) simp_all
  case 2
  with Cons completed_ops_append [of "[x]" out] show ?case by (cases x) simp_all
qed simp_all

section \<open>The contract\<close>

text \<open>An operation has the commands of its purpose, and its result the values they ask for.\<close>

primrec commands_for :: "multi_purpose \<Rightarrow> command list \<Rightarrow> bool" where
  "commands_for Writing_all cmds \<longleftrightarrow> (\<exists>sys. cmds = write_commands sys)"
| "commands_for Reading_all cmds \<longleftrightarrow> cmds = read_commands"

definition multi_good :: "operation \<Rightarrow> multi_purpose \<Rightarrow> bool" where
  "multi_good op p \<longleftrightarrow> (\<exists>m. op = Commands_op m \<and> commands_for p (map cs_command (mcs_sessions m)))"

primrec multi_fits :: "multi_purpose \<Rightarrow> op_response result \<Rightarrow> bool" where
  "multi_fits Writing_all r \<longleftrightarrow> (\<forall>v. r = Inr v \<longrightarrow> v = Responses_of (replicate 4 (Some Void)))"
| "multi_fits Reading_all r \<longleftrightarrow> (\<forall>v. r = Inr v \<longrightarrow> (\<exists>rs vs. v = Responses_of rs \<and> values_of rs = Some vs))"

lemma response_fits_all:
  "list_all2 response_fits (write_commands sys) vs \<Longrightarrow> map Some vs = replicate 4 (Some Void)"
  "list_all2 response_fits read_commands vs \<Longrightarrow> \<exists>w. values_of (map Some vs) = Some w"
  by (auto simp: write_commands_def read_commands_def list_all2_Cons1 values_of_def numeral_eq_Suc
      split: response.splits)

lemma multi_step_fits:
  assumes "multi_good op p" "op_ok op" "op_step op ev = Returns (op', es)"
  shows "multi_good op' p \<and> (\<forall>r \<in> set (completions es). multi_fits p r)"
proof -
  obtain m where m: "op = Commands_op m" and c: "commands_for p (map cs_command (mcs_sessions m))"
    using assms(1) by (auto simp: multi_good_def)
  from commands_step_fits [of m ev op' es] assms(2,3) m obtain m' where m': "op' = Commands_op m'"
    "map cs_command (mcs_sessions m') = map cs_command (mcs_sessions m)"
    and r: "\<forall>r \<in> set (completions es). \<exists>r0. r = map_sum id Responses_of r0 \<and> (\<forall>rs. r0 = Inr rs \<longrightarrow>
          (\<exists>vs. rs = map Some vs \<and> list_all2 response_fits (map cs_command (mcs_sessions m)) vs))" by auto
  have "multi_fits p r" if r': "r \<in> set (completions es)" for r
  proof -
    from r r' obtain r0 where r0: "r = map_sum id Responses_of r0" "\<forall>rs. r0 = Inr rs \<longrightarrow>
          (\<exists>vs. rs = map Some vs \<and> list_all2 response_fits (map cs_command (mcs_sessions m)) vs)" by blast
    show ?thesis
    proof (cases r0)
      case (Inl e)
      with r0 show ?thesis by (cases p) simp_all
    next
      case (Inr rs)
      with r0 obtain vs where "rs = map Some vs" "list_all2 response_fits (map cs_command (mcs_sessions m)) vs" by blast
      with r0 Inr c response_fits_all show ?thesis by (cases p) fastforce+
    qed
  qed
  with m' c show ?thesis by (simp add: multi_good_def)
qed

interpretation multi: hosting "client_output t" multi_good multi_fits "\<lambda>n sys. True" "\<lambda>sys. 0" "\<lambda>x. 0" "\<lambda>p. 0"
  "\<lambda>b. True" "\<lambda>e. False" for t :: test_text
  by unfold_locales (auto dest: multi_step_fits)

section \<open>Sending\<close>

text \<open>When every operation is done no request is open, and the next four ids are free.\<close>

lemma all_done_free:
  assumes "owned c ops" "\<forall>op \<in> set ops. op_done op" "n \<le> 256"
  shows "ids_free n c"
proof -
  have "find_handler c k = None" for k
  proof (rule ccontr)
    assume "find_handler c k \<noteq> None"
    then obtain j i where "find_handler c k = Some (j, i)" by auto
    with owned_find [OF assms(1), of k j] have "j < length ops" "op_tokens (ops ! j) \<noteq> []" by auto
    with assms op_done_tokens [of "ops ! j"] show False by (simp add: owned_def)
  qed
  with assms(3) show ?thesis by (simp add: ids_free_def)
qed

lemma multi_encodable: "list_all encodable (write_commands sys)" "list_all encodable read_commands"
  by (simp_all add: write_commands_def read_commands_def encodable_def encodeWriteVar_def Let_def
      uint8_traits_def int16_traits_def int32_traits_def float_traits_def
      encode_uint8_def encode_int16_def encode_int32_def encode_float_def)

lemma host_open_returns:
  assumes owned: "owned (cls_client (host_cls sys)) (cls_ops (host_cls sys))"
    and ops: "\<forall>op \<in> set (cls_ops (host_cls sys)). op_done op"
    and cmds: "list_all encodable cmds" "length cmds \<le> 256"
  shows "\<exists>cls out. host_open wrap p (cls_call now (Send_commands cmds deadline)) sys
      = Returns (sys\<lparr>host_cls := cls, host_purposes := host_purposes sys @ [p]\<rparr>, map wrap out)
    \<and> owned (cls_client cls) (cls_ops cls) \<and> completed_ops out = []
    \<and> (\<exists>m. cls_ops cls = cls_ops (host_cls sys) @ [Commands_op m] \<and> \<not> mcs_done m
        \<and> map cs_command (mcs_sessions m) = cmds)"
proof -
  have "\<forall>c \<in> set cmds. \<forall>rid. \<exists>buffer. encode_command [] rid c = Returns buffer"
    using cmds(1) by (auto simp: list_all_iff encodable_def)
  from sends_outcome [OF this, of "cls_client (host_cls sys)"] all_done_free [OF owned ops cmds(2)]
  have "\<exists>m client es. Client_sendCommands now deadline (Pair (length (cls_ops (host_cls sys)))) cmds (cls_client (host_cls sys))
      = Returns ((m, client), es)" by simp
  then have "\<exists>x. cls_call now (Send_commands cmds deadline) (host_cls sys) = Returns x"
    by (auto simp: cls_add_def)
  moreover have "opens (\<lambda>op. \<exists>m. op = Commands_op m \<and> map cs_command (mcs_sessions m) = cmds) (host_cls sys)
      (cls_call now (Send_commands cmds deadline) (host_cls sys))"
    by (rule opens_commands [OF owned cmds(1)]) blast
  ultimately obtain client op out where
    c: "cls_call now (Send_commands cmds deadline) (host_cls sys)
      = Returns (\<lparr>cls_client = client, cls_ops = cls_ops (host_cls sys) @ [op]\<rparr>, out)"
    and "owned client (cls_ops (host_cls sys) @ [op])" "\<not> op_done op" "completed_ops out = []"
    "\<exists>m. op = Commands_op m \<and> map cs_command (mcs_sessions m) = cmds"
    unfolding opens_def by fastforce
  then show ?thesis unfolding host_open_def c by fastforce
qed

section \<open>A turn\<close>

text \<open>Between two turns all \<open>n\<close> operations are done; in turn \<open>n\<close> the last one is open.\<close>

definition multi_host :: "nat \<Rightarrow> multi_test \<Rightarrow> bool" where
  "multi_host n sys \<longleftrightarrow> owned (cls_client (host_cls sys)) (cls_ops (host_cls sys))
     \<and> list_all2 multi_good (cls_ops (host_cls sys)) (host_purposes sys) \<and> host_purposes sys = map turn [0..<n]"

definition multi_idle :: "nat \<Rightarrow> multi_test \<Rightarrow> bool" where
  "multi_idle n sys \<longleftrightarrow> multi_host n sys \<and> (\<forall>op \<in> set (cls_ops (host_cls sys)). op_done op)"

definition multi_waiting :: "nat \<Rightarrow> multi_test \<Rightarrow> bool" where
  "multi_waiting n sys \<longleftrightarrow> multi_host (Suc n) sys
     \<and> (\<forall>j < Suc n. op_done (cls_ops (host_cls sys) ! j) \<longleftrightarrow> j < n)"

lemma multi_host_length: "multi_host n sys \<Longrightarrow> length (cls_ops (host_cls sys)) = n"
  by (auto simp: multi_host_def dest: list_all2_lengthD)

lemma multi_host_updates [simp]:
  "multi_host n (sys\<lparr>command_count := c\<rparr>) = multi_host n sys"
  "multi_host n (sys\<lparr>byte_value := b\<rparr>) = multi_host n sys"
  "multi_host n (sys\<lparr>int16_value := i\<rparr>) = multi_host n sys"
  "multi_host n (sys\<lparr>int32_value := j\<rparr>) = multi_host n sys"
  "multi_host n (sys\<lparr>float32_value := f\<rparr>) = multi_host n sys"
  by (simp_all add: multi_host_def)

lemma multi_sends:
  assumes "multi_idle n sys"
  shows "\<exists>cls ps out. (if even n then multi_write t now sys else multi_read t now sys)
      = Returns (sys\<lparr>host_cls := cls, host_purposes := ps\<rparr>, out)
    \<and> multi_waiting n (sys\<lparr>host_cls := cls, host_purposes := ps\<rparr>) \<and> stderr out = [] \<and> test_results out = []"
proof -
  define cmds where "cmds = (if even n then write_commands sys else read_commands)"
  have host: "multi_host n sys" and ops: "\<forall>op \<in> set (cls_ops (host_cls sys)). op_done op"
    using assms by (simp_all add: multi_idle_def)
  then have owned: "owned (cls_client (host_cls sys)) (cls_ops (host_cls sys))" by (simp add: multi_host_def)
  have len: "length (cls_ops (host_cls sys)) = n" using host by (rule multi_host_length)
  have "list_all encodable cmds" "length cmds \<le> 256" "commands_for (turn n) cmds"
    unfolding cmds_def using multi_encodable(1) [of sys] multi_encodable(2) by (auto simp: turn_def) (auto simp: write_commands_def read_commands_def)
  note c = this
  from host_open_returns [OF owned ops c(1,2), of "client_output t" "turn n" now "now + test_timeout"]
  obtain cls out m where
    o: "host_open (client_output t) (turn n) (cls_call now (Send_commands cmds (now + test_timeout))) sys
      = Returns (sys\<lparr>host_cls := cls, host_purposes := host_purposes sys @ [turn n]\<rparr>, map (client_output t) out)"
    and cls: "owned (cls_client cls) (cls_ops cls)" "completed_ops out = []"
      "cls_ops cls = cls_ops (host_cls sys) @ [Commands_op m]" "\<not> mcs_done m"
      "map cs_command (mcs_sessions m) = cmds" by blast
  have "multi_good (Commands_op m) (turn n)" using cls(5) c(3) by (simp only: multi_good_def) blast
  then have "multi_host (Suc n) (sys\<lparr>host_cls := cls, host_purposes := host_purposes sys @ [turn n]\<rparr>)"
    using host cls by (auto simp: multi_host_def intro!: list_all2_appendI)
  moreover have "op_done (cls_ops cls ! j) \<longleftrightarrow> j < n" if "j < Suc n" for j
    using that ops cls(3,4) len by (auto simp: nth_append less_Suc_eq)
  ultimately have "multi_waiting n (sys\<lparr>host_cls := cls, host_purposes := host_purposes sys @ [turn n]\<rparr>)"
    by (simp add: multi_waiting_def)
  moreover have "(if even n then multi_write t now sys else multi_read t now sys)
      = host_open (client_output t) (turn n) (cls_call now (Send_commands cmds (now + test_timeout))) sys"
    by (simp add: multi_write_def multi_read_def turn_def cmds_def)
  ultimately show ?thesis
    unfolding o using cls(2)
    by (intro exI [of _ cls] exI [of _ "host_purposes sys @ [turn n]"] exI [of _ "map (client_output t) out"]) simp
qed

definition counted :: "nat \<Rightarrow> multi_test \<Rightarrow> bool" where
  "counted n sys \<longleftrightarrow> 0 \<le> sint (command_count sys) \<and> sint (command_count sys) \<le> int n"

lemma check_values_at: "values_at k sys \<Longrightarrow> check_values t vs sys = check_values t vs (tester_at k)"
  by (auto simp: check_values_def values_at_def split: prod.split)

lemma next_values_returns:
  assumes "values_at k sys" "counted n sys" "k \<le> 2 ^ 31" "n < 2 ^ 31 - 1" "multi_host j sys"
  shows "\<exists>sys'. next_values sys = Returns (sys', []) \<and> values_at (Suc k) sys' \<and> counted (Suc n) sys'
    \<and> multi_host j sys' \<and> host_cls sys' = host_cls sys"
proof -
  let ?sys = "sys\<lparr>byte_value := byte_value sys + 1, int16_value := int16_value sys + 1,
    int32_value := of_nat (Suc k) - 5, float32_value := float_increment (float32_value sys)\<rparr>"
  obtain c where c: "count_command ?sys = Returns (?sys\<lparr>command_count := c\<rparr>, [])" "sint c = sint (command_count sys) + 1"
    using count_command_returns [of ?sys] assms(2,4) by (auto simp: counted_def)
  have "int32_value sys = of_nat k - 5" using assms(1) by (simp add: values_at_def tester_at_def)
  with next_int32_returns [of "sys\<lparr>byte_value := byte_value sys + 1, int16_value := int16_value sys + 1\<rparr>" k] c(1) assms(3)
  have "next_values sys = Returns (?sys\<lparr>command_count := c\<rparr>, [])" by (simp add: next_values_def)
  moreover have "values_at (Suc k) (?sys\<lparr>command_count := c\<rparr>)"
    using assms(1) by (simp add: values_at_def tester_at_def)
  moreover have "counted (Suc n) (?sys\<lparr>command_count := c\<rparr>)" using assms(2) c(2) by (simp add: counted_def)
  ultimately show ?thesis using assms(5) by simp
qed

text \<open>The callback of turn \<open>n\<close> prints what it has to print, and begins turn \<open>n + 1\<close>.\<close>

lemma multi_result_turn:
  assumes idle: "multi_idle (Suc n) sys" and fits: "multi_fits (turn n) r"
    and sys: "values_at k sys" "counted n sys" "k \<le> 2 ^ 31" "n < 2 ^ 31 - 1"
  shows "\<exists>sys' out. multi_result t now (turn n) r sys = Returns (sys', out) \<and> multi_waiting (Suc n) sys'
    \<and> values_at (k + reads_done [(n, r)]) sys' \<and> counted (Suc n) sys'
    \<and> stderr out = reported t k [(n, r)] \<and> test_results out = []"
proof -
  define next_command where "next_command = (if even n then multi_read t now else multi_write t now)"
  have sends: "\<exists>sys2 out2. next_command sys1 = Returns (sys2, out2) \<and> multi_waiting (Suc n) sys2
      \<and> values_at l sys2 \<and> counted (Suc n) sys2 \<and> stderr out2 = [] \<and> test_results out2 = []"
    if "multi_idle (Suc n) sys1" "values_at l sys1" "counted (Suc n) sys1" for sys1 l
    using multi_sends [OF that(1), of t now] that(2,3)
    by (auto simp: next_command_def values_at_def counted_def split: if_splits)
  have goes_on: "\<exists>sys' out. and_then m next_command = Returns (sys', out) \<and> multi_waiting (Suc n) sys'
      \<and> values_at l sys' \<and> counted (Suc n) sys' \<and> stderr out = stderr out1 \<and> test_results out = test_results out1"
    if "m = Returns (sys1, out1)" "multi_idle (Suc n) sys1" "values_at l sys1" "counted (Suc n) sys1" for m sys1 out1 l
    using sends [OF that(2-4)] that(1) by auto
  have host: "multi_host (Suc n) sys" "\<forall>op \<in> set (cls_ops (host_cls sys)). op_done op"
    using idle by (simp_all add: multi_idle_def)
  have counted: "counted (Suc n) sys" using sys(2) by (simp add: counted_def)
  show ?thesis
  proof (cases r)
    case (Inl e)
    have failed: "put x sys = Returns (sys, [x])" for x :: test_output by (simp add: put_def)
    from goes_on [OF failed idle sys(1) counted, of "Cerr (hd (reported t k [(n, r)]))"] show ?thesis
      by (auto simp: Inl multi_result_def turn_def next_command_def on_written_def on_values_def)
  next
    case (Inr v)
    show ?thesis
    proof (cases "even n")
      case True
      then have "multi_result t now (turn n) r sys = and_then (count_command sys) next_command"
        using fits Inr
        by (simp add: multi_result_def turn_def written_of_def of_read_def on_written_def next_command_def)
      moreover obtain c where "count_command sys = Returns (sys\<lparr>command_count := c\<rparr>, [])"
        "sint c = sint (command_count sys) + 1"
        using count_command_returns [of sys] sys(2,4) by (auto simp: counted_def)
      moreover from this have "multi_idle (Suc n) (sys\<lparr>command_count := c\<rparr>)" "values_at k (sys\<lparr>command_count := c\<rparr>)"
        "counted (Suc n) (sys\<lparr>command_count := c\<rparr>)"
        using host sys(1,2) by (simp_all add: multi_idle_def values_at_def counted_def)
      ultimately show ?thesis using goes_on True Inr by fastforce
    next
      case False
      then obtain rs vs where v: "v = Responses_of rs" "values_of rs = Some vs"
        using fits Inr by (auto simp: turn_def)
      obtain sys' where n: "next_values sys = Returns (sys', [])" "values_at (Suc k) sys'" "counted (Suc n) sys'"
        "multi_host (Suc n) sys'" "host_cls sys' = host_cls sys"
        using next_values_returns [OF sys(1,2,3,4) host(1)] by blast
      have "multi_idle (Suc n) sys'" using n(4,5) host(2) by (simp add: multi_idle_def)
      moreover have "multi_result t now (turn n) r sys
          = and_then (and_then (Returns (sys, check_values t vs sys)) next_values) next_command"
        using False Inr v by (simp add: multi_result_def turn_def of_read_def on_values_def next_command_def)
      moreover have "and_then (Returns (sys, check_values t vs sys)) next_values = Returns (sys', check_values t vs sys)"
        by (simp add: n(1))
      ultimately have "\<exists>sys'' out. multi_result t now (turn n) r sys = Returns (sys'', out) \<and> multi_waiting (Suc n) sys''
          \<and> values_at (Suc k) sys'' \<and> counted (Suc n) sys'' \<and> stderr out = stderr (check_values t vs sys)
          \<and> test_results out = test_results (check_values t vs sys)"
        using goes_on n(2,3) by metis
      moreover have "test_results (check_values t vs sys) = []"
        by (auto simp: check_values_def checkValue_def split: prod.split)
      ultimately show ?thesis
        using False Inr v check_values_at [OF sys(1)] by (simp add: mismatches_def)
    qed
  qed
qed

section \<open>A step\<close>

lemma cls_step_done:
  assumes "cls_law cls (cls', out)" "length (cls_ops cls') = length (cls_ops cls)" "m < length (cls_ops cls)"
  shows "completed_ops out = [] \<Longrightarrow> op_done (cls_ops cls' ! m) = op_done (cls_ops cls ! m)"
    and "completed_ops out = [(n, r)] \<Longrightarrow>
      (m = n \<longrightarrow> \<not> op_done (cls_ops cls ! m)) \<and> op_done (cls_ops cls' ! m) = (op_done (cls_ops cls ! m) \<or> m = n)"
proof -
  have law: "length (op_results m out) + of_bool (op_done (cls_ops cls ! m)) = (of_bool (op_done (cls_ops cls' ! m)) :: nat)"
  proof -
    have "length (op_results m out) + results_of (cls_ops cls) m = results_of (cls_ops cls') m"
      using assms(1) by (simp add: cls_law_def)
    with assms(2,3) show ?thesis by (simp add: results_of_def)
  qed
  show "completed_ops out = [] \<Longrightarrow> op_done (cls_ops cls' ! m) = op_done (cls_ops cls ! m)"
    using law by (auto simp: op_results_completed of_bool_def split: if_splits)
  show "completed_ops out = [(n, r)] \<Longrightarrow>
      (m = n \<longrightarrow> \<not> op_done (cls_ops cls ! m)) \<and> op_done (cls_ops cls' ! m) = (op_done (cls_ops cls ! m) \<or> m = n)"
    using law by (auto simp: op_results_completed of_bool_def split: if_splits)
qed

definition multi_inv :: "(nat \<times> op_response result) list \<Rightarrow> multi_test \<Rightarrow> bool" where
  "multi_inv rs sys \<longleftrightarrow> multi_waiting (length rs) sys \<and> values_at (reads_done rs) sys \<and> counted (length rs) sys
     \<and> map fst rs = [0..<length rs] \<and> (\<forall>(n, r) \<in> set rs. multi_fits (turn n) r)"

lemma reads_done_le: "reads_done rs \<le> length rs"
  by (simp add: reads_done_def)

lemma values_at_host [simp]: "values_at k (sys\<lparr>host_cls := c\<rparr>) = values_at k sys"
  by (simp add: values_at_def)

lemma counted_host [simp]: "counted n (sys\<lparr>host_cls := c\<rparr>) = counted n sys"
  by (simp add: counted_def)

lemma multi_client_ok:
  assumes inv: "multi_inv rs sys" and ev: "net_event (Client_event e)" and n: "length rs < 2 ^ 31 - 1"
  shows "\<exists>sys' out. host_client (client_output t) (multi_result t now) now e sys = Returns (sys', out)
    \<and> length (test_results out) \<le> 1 \<and> multi_inv (rs @ test_results out) sys'
    \<and> stderr out = reported t (reads_done rs) (test_results out)"
proof -
  let ?n = "length rs" and ?ops = "cls_ops (host_cls sys)"
  have host: "multi_host (Suc ?n) sys" and d: "\<forall>j < Suc ?n. op_done (?ops ! j) \<longleftrightarrow> j < ?n"
    using inv by (simp_all add: multi_inv_def multi_waiting_def)
  have owned: "owned (cls_client (host_cls sys)) ?ops" and good: "list_all2 multi_good ?ops (host_purposes sys)"
    and ps: "host_purposes sys = map turn [0..<Suc ?n]" using host by (auto simp: multi_host_def simp del: upt_Suc)
  have nc: "e \<noteq> Call call" for call using ev by auto
  from multi.cls_step_kept [OF owned good nc, of now] obtain cls out where
    st: "cls_step now (host_cls sys) e = Returns (cls, out)" and k: "multi.kept (host_purposes sys) (host_cls sys) (cls, out)"
    by blast
  have law: "cls_law (host_cls sys) (cls, out)"
    using cls_step_law [OF owned, of e now] ev st by (cases e) auto
  have host': "multi_host (Suc ?n) (sys\<lparr>host_cls := cls\<rparr>)" using k ps by (simp add: multi_host_def multi.kept_def)
  have len: "length ?ops = Suc ?n" "length (cls_ops cls) = length ?ops"
    using multi_host_length [OF host] multi_host_length [OF host'] by simp_all
  note dones = cls_step_done [OF law len(2)]
  have "length (completed_ops out) \<le> 1" by (rule cls_step_completed [OF owned st nc])
  then consider "completed_ops out = []" | m r where "completed_ops out = [(m, r)]"
    by (cases "completed_ops out") auto
  then show ?thesis
  proof cases
    case 1
    with dones(1) d len(1) host' have "multi_waiting ?n (sys\<lparr>host_cls := cls\<rparr>)" by (simp add: multi_waiting_def)
    with inv have "multi_inv rs (sys\<lparr>host_cls := cls\<rparr>)" by (simp add: multi_inv_def)
    with 1 st show ?thesis by (simp add: host_client_def host_outputs_none)
  next
    case 2
    from k 2 have m: "m < Suc ?n" and fits: "multi_fits (host_purposes sys ! m) r"
      using ps by (auto simp: multi.kept_def multi.results_fit_def)
    with dones(2) [OF _ 2, of m] d len(1) have mn: "m = ?n" by auto
    have "\<forall>j < Suc ?n. op_done (cls_ops cls ! j)" using dones(2) [OF _ 2] d len(1) mn by (auto simp: less_Suc_eq)
    then have "multi_idle (Suc ?n) (sys\<lparr>host_cls := cls\<rparr>)"
      using host' len by (auto simp: multi_idle_def in_set_conv_nth)
    moreover have turn: "host_purposes sys ! m = turn ?n" using ps mn by (simp del: upt_Suc)
    moreover have "reads_done rs \<le> 2 ^ 31" using reads_done_le [of rs] n by linarith
    ultimately obtain sys' out1 where cb: "multi_result t now (turn ?n) r (sys\<lparr>host_cls := cls\<rparr>) = Returns (sys', out1)"
      "multi_waiting (Suc ?n) sys'" "values_at (reads_done rs + reads_done [(?n, r)]) sys'" "counted (Suc ?n) sys'"
      "stderr out1 = reported t (reads_done rs) [(?n, r)]" "test_results out1 = []"
      using multi_result_turn [of ?n "sys\<lparr>host_cls := cls\<rparr>" r "reads_done rs" t now] fits inv n
      by (auto simp: multi_inv_def)
    from host_outputs_single [OF 2, of "sys\<lparr>host_cls := cls\<rparr>" "client_output t" "multi_result t now"] ps m obtain a b
      where o: "out = a @ Op_output m (Complete r) # b" "completed_ops a = []" "completed_ops b = []"
        "host_outputs (client_output t) (multi_result t now) out (sys\<lparr>host_cls := cls\<rparr>)
          = obind (multi_result t now (host_purposes sys ! m) r (sys\<lparr>host_cls := cls\<rparr>)) (\<lambda>(sys', out').
              Returns (sys', map (client_output t) a @ client_output t (Op_output m (Complete r)) # out' @ map (client_output t) b))"
      by auto
    have "host_client (client_output t) (multi_result t now) now e sys = Returns (sys',
        map (client_output t) a @ client_output t (Op_output m (Complete r)) # out1 @ map (client_output t) b)"
      using st o(4) cb(1) turn by (simp add: host_client_def)
    with cb o(2,3) inv mn fits turn show ?thesis by (simp add: multi_inv_def)
  qed
qed

lemma multi_test_step_ok:
  assumes inv: "multi_inv rs sys" and ev: "net_event ev" and n: "length rs < 2 ^ 31 - 1"
  shows "\<exists>sys' out. multi_test_step t sys (now, ev) = Returns (sys', out)
    \<and> length (test_results out) \<le> 1 \<and> multi_inv (rs @ test_results out) sys'
    \<and> stderr out = reported t (reads_done rs) (test_results out)"
proof (cases ev)
  case (Client_event e)
  with multi_client_ok [OF inv, of e t now] ev n show ?thesis by (simp add: test_step_def)
next
  case (Tick err)
  with inv ev show ?thesis
    by (simp add: test_step_def onTimeout_def multi_inv_def multi_waiting_def values_at_def counted_def)
qed

lemma multi_test_run_ok:
  "multi_inv rs sys \<Longrightarrow> \<forall>(now, ev) \<in> set evs. net_event ev \<Longrightarrow> length rs + length evs < 2 ^ 31 \<Longrightarrow>
   \<exists>sys' out. multi_test_run t sys evs = Returns (sys', out) \<and> multi_inv (rs @ test_results out) sys'
     \<and> stderr out = reported t (reads_done rs) (test_results out)"
proof (induction evs arbitrary: rs sys)
  case Nil
  then show ?case by simp
next
  case (Cons e evs)
  obtain now ev where e: "e = (now, ev)" by (cases e)
  from Cons.prems e have "net_event ev" "length rs < 2 ^ 31 - 1" by simp_all
  from multi_test_step_ok [OF Cons.prems(1) this, of t now] obtain sys1 out1 where
    st: "multi_test_step t sys (now, ev) = Returns (sys1, out1)" "length (test_results out1) \<le> 1"
    and inv: "multi_inv (rs @ test_results out1) sys1"
    and out1: "stderr out1 = reported t (reads_done rs) (test_results out1)" by blast
  have "\<forall>(now, ev) \<in> set evs. net_event ev" "length (rs @ test_results out1) + length evs < 2 ^ 31"
    using Cons.prems(2,3) st(2) by simp_all
  from Cons.IH [OF inv this] obtain sys' out where "multi_test_run t sys1 evs = Returns (sys', out)"
    "multi_inv (rs @ test_results out1 @ test_results out) sys'"
    "stderr out = reported t (reads_done (rs @ test_results out1)) (test_results out)" by auto
  with st(1) out1 e show ?case by (auto simp: reported_append)
qed

lemma multi_connected_ok:
  assumes "\<not> is_error err"
  shows "\<exists>sys out. multi_connected t now err = Returns (sys, out) \<and> multi_inv [] sys"
proof -
  let ?new = "new_tester (cls_new True) :: multi_test"
  have "multi_idle 0 ?new"
    using cls_new_owned [of True] by (simp add: multi_idle_def multi_host_def new_tester_def cls_new_def)
  from multi_sends [OF this, of t now] obtain cls ps out where
    w: "multi_write t now ?new = Returns (?new\<lparr>host_cls := cls, host_purposes := ps\<rparr>, out)"
    "multi_waiting 0 (?new\<lparr>host_cls := cls, host_purposes := ps\<rparr>)" by auto
  moreover have "values_at 0 (?new\<lparr>host_cls := cls, host_purposes := ps\<rparr>)"
    "counted 0 (?new\<lparr>host_cls := cls, host_purposes := ps\<rparr>)"
    by (simp_all add: values_at_def counted_def tester_at_def new_tester_def)
  ultimately show ?thesis using assms by (simp add: multi_connected_def test_connected_def put_def multi_inv_def)
qed

section \<open>The verdict\<close>

text \<open>The values the program expects from its read number \<open>k\<close>, counted from zero.\<close>

definition read_as_expected :: "nat \<Rightarrow> op_response \<Rightarrow> bool" where
  "read_as_expected k v \<longleftrightarrow> (\<exists>f. v = Responses_of [Some (Uint8_response (of_nat k)), Some (Int16_response (of_nat k - 5)),
       Some (Int32_response (of_nat k - 5)), Some (Float32_response f)]
     \<and> float_value f = Finite (of_int (min (int k - 5) (2 ^ 24))))"

definition as_expected :: "nat \<times> op_response result \<Rightarrow> bool" where
  "as_expected = (\<lambda>(n, r). case r of Inl e \<Rightarrow> False | Inr v \<Rightarrow> odd n \<longrightarrow> read_as_expected (n div 2) v)"

lemma values_of_Some:
  "values_of rs = Some (a, b, c, d) \<longleftrightarrow>
   rs = [Some (Uint8_response a), Some (Int16_response b), Some (Int32_response c), Some (Float32_response d)]"
  by (auto simp: values_of_def split: list.splits option.splits response.splits)

lemma float_at: "float_value (float32_value (tester_at k)) = Finite (of_int (min (int k - 5) (2 ^ 24)))"
proof -
  let ?m = "min (int k - 5) (2 ^ 24)"
  have "float32_value (tester_at k) = float_fl (of_int ?m)"
    using float_counts [of "- 5" k] by (simp add: tester_at_def)
  moreover have "float_value (float_fl (of_int ?m)) = Finite (of_int ?m)"
  proof (cases "int k - 5 < 2 ^ 24")
    case True
    then show ?thesis using float_value_fl_int [of ?m] float_fl_zero by (cases "?m = 0") (auto simp: min_def)
  next
    case False
    moreover have "float_value (float_fl (of_int (2 ^ 24))) = Finite (of_int (2 ^ 24))" by code_simp
    ultimately show ?thesis by (simp add: min_def)
  qed
  ultimately show ?thesis by simp
qed

lemma mismatches_silent:
  assumes "values_of rs = Some vs"
  shows "mismatches t k (Responses_of rs) = [] \<longleftrightarrow> read_as_expected k (Responses_of rs)"
proof -
  obtain a b c d where vs: "vs = (a, b, c, d)" by (cases vs)
  have "float_neq d (float32_value (tester_at k)) \<longleftrightarrow> float_value d \<noteq> Finite (of_int (min (int k - 5) (2 ^ 24)))"
    by (cases "float_value d") (simp_all add: float_neq_def float_at del: of_int_min)
  moreover have "byte_value (tester_at k) = of_nat k" "int16_value (tester_at k) = of_nat k - 5"
    "int32_value (tester_at k) = of_nat k - 5" by (simp_all add: tester_at_def)
  moreover have "mismatches t k (Responses_of rs) = stderr (check_values t vs (tester_at k))"
    using assms by (simp add: mismatches_def)
  ultimately show ?thesis
    using assms by (simp add: vs values_of_Some check_values_def checkValue_def read_as_expected_def)
qed

lemma reported_silent:
  assumes "map fst rs = [0..<length rs]" "\<forall>(n, r) \<in> set rs. multi_fits (turn n) r"
  shows "(reported t 0 rs = [] \<longleftrightarrow> (\<forall>x \<in> set rs. as_expected x))
    \<and> (reported t 0 rs = [] \<longrightarrow> reads_done rs = length rs div 2)"
  using assms
proof (induction rs rule: rev_induct)
  case (snoc x rs)
  then have rs: "map fst rs = [0..<length rs]" and x: "fst x = length rs" by simp_all
  obtain r where r: "x = (length rs, r)" using x by (cases x) auto
  have IH: "(reported t 0 rs = [] \<longleftrightarrow> (\<forall>x \<in> set rs. as_expected x))
    \<and> (reported t 0 rs = [] \<longrightarrow> reads_done rs = length rs div 2)"
    using snoc.IH [OF rs] snoc.prems(2) by simp
  show ?case
  proof (cases r)
    case (Inl e)
    then show ?thesis by (simp add: reported_append r as_expected_def)
  next
    case (Inr v)
    show ?thesis
    proof (cases "even (length rs)")
      case True
      with IH Inr show ?thesis by (simp add: reported_append r as_expected_def)
    next
      case False
      then obtain rs' w where "v = Responses_of rs'" "values_of rs' = Some w"
        using snoc.prems(2) Inr by (auto simp: r turn_def)
      with IH Inr False mismatches_silent show ?thesis
        by (auto simp: reported_append r as_expected_def)
    qed
  qed
qed simp

section \<open>Properties\<close>


text \<open>The answers of the controller to the first write and the first read.\<close>

definition example_answers :: "(int \<times> test_event) list" where
  "example_answers = map (\<lambda>(rid, data). example_answer rid data)
     [(2, []), (1, []), (3, []), (4, []), (8, [0, 0, 0xa0, 0xc0]), (5, [0]), (6, [0xfb, 0xff]), (7, [0xfb, 0xff, 0xff, 0xff])]"

lemma example_events: "\<forall>(now, ev) \<in> set example_answers. net_event ev" "length example_answers = 8"
  by (simp_all add: example_answers_def example_answer_def)


text \<open>
  C15: The verdict of this program is exact. It prints nothing to \<open>std::cerr\<close>
  exactly when every write and every read has succeeded and read number \<open>k\<close>, from
  zero, has given \<open>k\<close> modulo 256 for the byte, \<open>k - 5\<close> modulo 65536
  for the short integer, \<open>k - 5\<close> for the long one, and for the
  \<open>float\<close> the smaller of \<open>k - 5\<close> and 16777216: adding one to
  16777216 does not change a \<open>float\<close>.
\<close>

theorem multi_test_verdict:
  assumes "\<not> is_error err" "multi_connected t now err = Returns (sys0, out0)"
    and "\<forall>(now, ev) \<in> set evs. net_event ev" "length evs < 2 ^ 31"
    and "multi_test_run t sys0 evs = Returns (sys, out)"
  shows "stderr out = [] \<longleftrightarrow> (\<forall>(n, r) \<in> set (test_results out).
    case r of Inl e \<Rightarrow> False | Inr v \<Rightarrow> odd n \<longrightarrow> read_as_expected (n div 2) v)"
proof -
  from multi_connected_ok [OF assms(1), of t now] assms(2) have inv: "multi_inv [] sys0" by simp
  from multi_test_run_ok [OF inv assms(3), of t] assms(4,5) have "multi_inv (test_results out) sys"
    "stderr out = reported t 0 (test_results out)" by auto
  with reported_silent [of "test_results out" t] show ?thesis by (simp add: multi_inv_def as_expected_def)
qed

lemma multi_test_verdict_witness:
  "\<exists>sys0 out0 sys out. multi_connected example_tester_text 0 no_error = Returns (sys0, out0)
    \<and> multi_test_run example_tester_text sys0 example_answers = Returns (sys, out) \<and> map fst (test_results out) = [0, 1]
    \<and> (\<forall>(n, r) \<in> set (test_results out). case r of Inl e \<Rightarrow> False | Inr v \<Rightarrow> odd n \<longrightarrow> read_as_expected (n div 2) v)"
proof -
  have "case multi_connected example_tester_text 0 no_error of
      Returns (sys0, out0) \<Rightarrow> (case multi_test_run example_tester_text sys0 example_answers of
        Returns (sys, out) \<Rightarrow> stderr out = [] \<and> map fst (test_results out) = [0, 1]
      | _ \<Rightarrow> False)
    | _ \<Rightarrow> False" by code_simp
  then obtain sys0 out0 sys out where r: "multi_connected example_tester_text 0 no_error = Returns (sys0, out0)"
    "multi_test_run example_tester_text sys0 example_answers = Returns (sys, out)" "stderr out = []" "map fst (test_results out) = [0, 1]"
    by (auto split: outcome.splits)
  have "\<forall>(n, r) \<in> set (test_results out). case r of Inl e \<Rightarrow> False | Inr v \<Rightarrow> odd n \<longrightarrow> read_as_expected (n div 2) v"
    using multi_test_verdict [OF _ r(1) _ _ r(2)] r(3) by (simp add: example_events)
  with r show ?thesis by (intro exI [of _ sys0] exI [of _ out0] exI [of _ sys] exI [of _ out] conjI)
qed

end
