(* ===== verification/Udp_Test.thy ===== *)
theory Udp_Test
  imports Test_Tools
begin

text \<open>
  The program \<open>src/src/tools/udp_test.cpp\<close>: it writes a variable of the controller and reads it back, again and
  again, for a variable of each of five types at the same time.
\<close>

section \<open>Program\<close>

datatype udp_purpose =
    Write_byte | Read_byte | Write_int16 | Read_int16 | Write_int32 | Read_int32
  | Write_float32 | Read_float32 | Write_position | Read_position

record udp_test = "udp_purpose tester" +
  position_index :: nat

definition positions :: "Position list" where
  "positions =
     [Pulse (PulsePosition_of_array [0, 1, 2, 3, 4, 5, 0, 0] 1),
      Pulse (PulsePosition_of_array [6, 7, 8, 9, 10, 11, 0, 0] 2),
      Cartesian \<lparr>cp_x = Finite 12, cp_y = Finite 13, cp_z = Finite 14, cp_rx = Finite 15, cp_ry = Finite 16, cp_rz = Finite 17,
        cp_frame = CS_base, cp_type = PoseConfiguration_of_u8 0xff, cp_tool = 3\<rparr>,
      Cartesian \<lparr>cp_x = Finite 18, cp_y = Finite 19, cp_z = Finite 20, cp_rx = Finite 21, cp_ry = Finite 22, cp_rz = Finite 23,
        cp_frame = CS_user3, cp_type = PoseConfiguration_of_u8 0x00, cp_tool = 4\<rparr>]"

definition new_udp_test :: udp_test where
  "new_udp_test = tester.extend (new_tester (cls_new True)) \<lparr>position_index = 0\<rparr>"

type_synonym udp_step = "(udp_test \<times> test_output list) outcome"

definition udp_send :: "test_text \<Rightarrow> udp_purpose \<Rightarrow> command \<Rightarrow> int \<Rightarrow> udp_test \<Rightarrow> udp_step" where
  "udp_send t p cmd now =
     host_open (client_output t) p (cls_call now (Send_command cmd (now + test_timeout)))"

definition writeByte :: "test_text \<Rightarrow> int \<Rightarrow> udp_test \<Rightarrow> udp_step" where
  "writeByte t now sys = udp_send t Write_byte (WriteUint8Var \<lparr>wv_index = 5, wv_value = byte_value sys\<rparr>) now sys"

definition readByte :: "test_text \<Rightarrow> int \<Rightarrow> udp_test \<Rightarrow> udp_step" where
  "readByte t = udp_send t Read_byte (ReadUint8Var \<lparr>rv_index = 5\<rparr>)"

definition writeInt16 :: "test_text \<Rightarrow> int \<Rightarrow> udp_test \<Rightarrow> udp_step" where
  "writeInt16 t now sys = udp_send t Write_int16 (WriteInt16Var \<lparr>wv_index = 6, wv_value = int16_value sys\<rparr>) now sys"

definition readInt16 :: "test_text \<Rightarrow> int \<Rightarrow> udp_test \<Rightarrow> udp_step" where
  "readInt16 t = udp_send t Read_int16 (ReadInt16Var \<lparr>rv_index = 6\<rparr>)"

definition writeInt32 :: "test_text \<Rightarrow> int \<Rightarrow> udp_test \<Rightarrow> udp_step" where
  "writeInt32 t now sys = udp_send t Write_int32 (WriteInt32Var \<lparr>wv_index = 7, wv_value = int32_value sys\<rparr>) now sys"

definition readInt32 :: "test_text \<Rightarrow> int \<Rightarrow> udp_test \<Rightarrow> udp_step" where
  "readInt32 t = udp_send t Read_int32 (ReadInt32Var \<lparr>rv_index = 7\<rparr>)"

definition writeFloat32 :: "test_text \<Rightarrow> int \<Rightarrow> udp_test \<Rightarrow> udp_step" where
  "writeFloat32 t now sys =
     udp_send t Write_float32 (WriteFloat32Var \<lparr>wv_index = 8, wv_value = float32_value sys\<rparr>) now sys"

definition readFloat32 :: "test_text \<Rightarrow> int \<Rightarrow> udp_test \<Rightarrow> udp_step" where
  "readFloat32 t = udp_send t Read_float32 (ReadFloat32Var \<lparr>rv_index = 8\<rparr>)"

definition writePosition :: "test_text \<Rightarrow> int \<Rightarrow> udp_test \<Rightarrow> udp_step" where
  "writePosition t now sys =
     (if position_index sys < length positions
      then udp_send t Write_position (WritePositionVar \<lparr>wv_index = 9, wv_value = positions ! position_index sys\<rparr>) now sys
      else Undefined)"

definition readPosition :: "test_text \<Rightarrow> int \<Rightarrow> udp_test \<Rightarrow> udp_step" where
  "readPosition t = udp_send t Read_position (ReadPositionVar \<lparr>rv_index = 9\<rparr>)"

section \<open>Callbacks\<close>

text \<open>What the callbacks of all writes have in common, and those of all reads.\<close>

definition written :: "test_text \<Rightarrow> string \<Rightarrow> unit result \<Rightarrow> udp_test \<Rightarrow> udp_step" where
  "written t name result sys =
     (case result of
        Inl e \<Rightarrow> put (Cerr (line (''Failed to write '' @ name @ '': '' @ format_error t e))) sys
      | Inr _ \<Rightarrow> count_command sys)"

definition received :: "test_text \<Rightarrow> string \<Rightarrow> ('a \<Rightarrow> udp_test \<Rightarrow> udp_step) \<Rightarrow> 'a result \<Rightarrow> udp_test \<Rightarrow> udp_step" where
  "received t name check result sys =
     (case result of
        Inl e \<Rightarrow> put (Cout (line (''Failed to read '' @ name @ '': '' @ format_error t e))) sys
      | Inr v \<Rightarrow> and_then (count_command sys) (check v))"

definition on_writeByte :: "test_text \<Rightarrow> int \<Rightarrow> unit result \<Rightarrow> udp_test \<Rightarrow> udp_step" where
  "on_writeByte t now result sys = and_then (written t ''byte'' result sys) (readByte t now)"

definition on_readByte :: "test_text \<Rightarrow> int \<Rightarrow> u8 result \<Rightarrow> udp_test \<Rightarrow> udp_step" where
  "on_readByte t now result sys = and_then
     (received t ''byte'' (\<lambda>v sys. Returns (sys\<lparr>byte_value := byte_value sys + 1\<rparr>,
        if v \<noteq> byte_value sys
        then [Cout (line (''Read wrong byte value: '' @ to_string (uint v) @ '', expected '' @ show_uint8 (byte_value sys) @ ''.''))]
        else [])) result sys)
     (writeByte t now)"

definition on_writeInt16 :: "test_text \<Rightarrow> int \<Rightarrow> unit result \<Rightarrow> udp_test \<Rightarrow> udp_step" where
  "on_writeInt16 t now result sys = and_then (written t ''int16'' result sys) (readInt16 t now)"

definition on_readInt16 :: "test_text \<Rightarrow> int \<Rightarrow> i16 result \<Rightarrow> udp_test \<Rightarrow> udp_step" where
  "on_readInt16 t now result sys = and_then
     (received t ''int16'' (\<lambda>v sys. Returns (sys\<lparr>int16_value := int16_value sys + 1\<rparr>,
        if v \<noteq> int16_value sys
        then [Cout (line (''Read wrong int16 value: '' @ show_int v @ '', expected '' @ show_int (int16_value sys) @ ''.''))]
        else [])) result sys)
     (writeInt16 t now)"

definition on_writeInt32 :: "test_text \<Rightarrow> int \<Rightarrow> unit result \<Rightarrow> udp_test \<Rightarrow> udp_step" where
  "on_writeInt32 t now result sys = and_then (written t ''int32'' result sys) (readInt32 t now)"

definition on_readInt32 :: "test_text \<Rightarrow> int \<Rightarrow> i32 result \<Rightarrow> udp_test \<Rightarrow> udp_step" where
  "on_readInt32 t now result sys = and_then
     (received t ''int32'' (\<lambda>v sys. and_then (Returns (sys,
        if v \<noteq> int32_value sys
        then [Cout (line (''Read wrong int32 value: '' @ show_int v @ '', expected '' @ show_int (int32_value sys) @ ''.''))]
        else [])) next_int32) result sys)
     (writeInt32 t now)"

text \<open>The callbacks for the last two types do not go on.\<close>

definition on_writeFloat32 :: "test_text \<Rightarrow> unit result \<Rightarrow> udp_test \<Rightarrow> udp_step" where
  "on_writeFloat32 t = written t ''float32 value''"

definition on_readFloat32 :: "test_text \<Rightarrow> float32 result \<Rightarrow> udp_test \<Rightarrow> udp_step" where
  "on_readFloat32 t =
     received t ''float32'' (\<lambda>v sys. Returns (sys\<lparr>float32_value := float_increment (float32_value sys)\<rparr>,
        if float_neq v (float32_value sys)
        then [Cout (line (''Read wrong float32 value: '' @ show_float t v @ '', expected '' @ show_float t (float32_value sys) @ ''.''))]
        else []))"

definition on_writePosition :: "test_text \<Rightarrow> unit result \<Rightarrow> udp_test \<Rightarrow> udp_step" where
  "on_writePosition t = written t ''position value''"

definition check_position :: "test_text \<Rightarrow> Position \<Rightarrow> udp_test \<Rightarrow> udp_step" where
  "check_position t v sys =
     (if position_index sys < length positions
      then let expected = positions ! position_index sys in
        obind (of_read (Position_neq v expected)) (\<lambda>differ.
        if differ
        then obind (of_read (print_Position (show_double t) v)) (\<lambda>got.
          obind (of_read (print_Position (show_double t) expected)) (\<lambda>wanted.
          put (Cout (line ''Read wrong position'' @ line (''got:      '' @ got) @ line (''expected: '' @ wanted))) sys))
        else Returns (sys, []))
      else Undefined)"

definition on_readPosition :: "test_text \<Rightarrow> Position result \<Rightarrow> udp_test \<Rightarrow> udp_step" where
  "on_readPosition t result sys = and_then
     (received t ''position'' (check_position t) result sys)
     (\<lambda>sys. Returns (sys\<lparr>position_index := (position_index sys + 1) mod length positions\<rparr>, []))"

text \<open>The result of a command is of its response type.\<close>

definition typed :: "(response \<Rightarrow> 'a option) \<Rightarrow> op_response result \<Rightarrow> 'a result outcome" where
  "typed sel r =
     (case r of
        Inl e \<Rightarrow> Returns (Inl e)
      | Inr (Response_of v) \<Rightarrow> obind (of_read (sel v)) (\<lambda>x. Returns (Inr x))
      | _ \<Rightarrow> Undefined)"

abbreviation "void_of v \<equiv> (case v of Void \<Rightarrow> Some () | _ \<Rightarrow> None)"
abbreviation "uint8_of v \<equiv> (case v of Uint8_response x \<Rightarrow> Some x | _ \<Rightarrow> None)"
abbreviation "int16_of v \<equiv> (case v of Int16_response x \<Rightarrow> Some x | _ \<Rightarrow> None)"
abbreviation "int32_of v \<equiv> (case v of Int32_response x \<Rightarrow> Some x | _ \<Rightarrow> None)"
abbreviation "float32_of v \<equiv> (case v of Float32_response x \<Rightarrow> Some x | _ \<Rightarrow> None)"
abbreviation "position_of v \<equiv> (case v of Position_response x \<Rightarrow> Some x | _ \<Rightarrow> None)"

primrec udp_result :: "test_text \<Rightarrow> int \<Rightarrow> udp_purpose \<Rightarrow> op_response result \<Rightarrow> udp_test \<Rightarrow> udp_step" where
  "udp_result t now Write_byte r sys = obind (typed void_of r) (\<lambda>r. on_writeByte t now r sys)"
| "udp_result t now Read_byte r sys = obind (typed uint8_of r) (\<lambda>r. on_readByte t now r sys)"
| "udp_result t now Write_int16 r sys = obind (typed void_of r) (\<lambda>r. on_writeInt16 t now r sys)"
| "udp_result t now Read_int16 r sys = obind (typed int16_of r) (\<lambda>r. on_readInt16 t now r sys)"
| "udp_result t now Write_int32 r sys = obind (typed void_of r) (\<lambda>r. on_writeInt32 t now r sys)"
| "udp_result t now Read_int32 r sys = obind (typed int32_of r) (\<lambda>r. on_readInt32 t now r sys)"
| "udp_result t now Write_float32 r sys = obind (typed void_of r) (\<lambda>r. on_writeFloat32 t r sys)"
| "udp_result t now Read_float32 r sys = obind (typed float32_of r) (\<lambda>r. on_readFloat32 t r sys)"
| "udp_result t now Write_position r sys = obind (typed void_of r) (\<lambda>r. on_writePosition t r sys)"
| "udp_result t now Read_position r sys = obind (typed position_of r) (\<lambda>r. on_readPosition t r sys)"

abbreviation udp_test_run :: "test_text \<Rightarrow> udp_test \<Rightarrow> (int \<times> test_event) list \<Rightarrow> udp_step" where
  "udp_test_run t \<equiv> run_machine (\<lambda>sys (now, ev). test_step t (udp_result t now) now ev sys)"

definition udp_first_commands :: "test_text \<Rightarrow> int \<Rightarrow> udp_test \<Rightarrow> udp_step" where
  "udp_first_commands t now sys = and_then (and_then (and_then (and_then
     (writeByte t now sys) (writeInt16 t now)) (writeInt32 t now)) (writeFloat32 t now)) (writePosition t now)"

definition udp_connected :: "test_text \<Rightarrow> int \<Rightarrow> error \<Rightarrow> udp_step" where
  "udp_connected t now err = test_connected t (udp_first_commands t now) err new_udp_test"

section \<open>The contract\<close>

text \<open>The commands of each purpose.  Two purposes never occur.\<close>

primrec command_for :: "udp_purpose \<Rightarrow> command \<Rightarrow> bool" where
  "command_for Write_byte cmd \<longleftrightarrow> (\<exists>v. cmd = WriteUint8Var \<lparr>wv_index = 5, wv_value = v\<rparr>)"
| "command_for Read_byte cmd \<longleftrightarrow> cmd = ReadUint8Var \<lparr>rv_index = 5\<rparr>"
| "command_for Write_int16 cmd \<longleftrightarrow> (\<exists>v. cmd = WriteInt16Var \<lparr>wv_index = 6, wv_value = v\<rparr>)"
| "command_for Read_int16 cmd \<longleftrightarrow> cmd = ReadInt16Var \<lparr>rv_index = 6\<rparr>"
| "command_for Write_int32 cmd \<longleftrightarrow> (\<exists>v. cmd = WriteInt32Var \<lparr>wv_index = 7, wv_value = v\<rparr>)"
| "command_for Read_int32 cmd \<longleftrightarrow> cmd = ReadInt32Var \<lparr>rv_index = 7\<rparr>"
| "command_for Write_float32 cmd \<longleftrightarrow> (\<exists>v. cmd = WriteFloat32Var \<lparr>wv_index = 8, wv_value = v\<rparr>)"
| "command_for Read_float32 cmd \<longleftrightarrow> False"
| "command_for Write_position cmd \<longleftrightarrow> cmd = WritePositionVar \<lparr>wv_index = 9, wv_value = positions ! 0\<rparr>"
| "command_for Read_position cmd \<longleftrightarrow> False"

definition udp_good :: "operation \<Rightarrow> udp_purpose \<Rightarrow> bool" where
  "udp_good op p \<longleftrightarrow> (\<exists>s. op = Command_op s \<and> command_for p (cs_command s))"

definition udp_fits :: "udp_purpose \<Rightarrow> op_response result \<Rightarrow> bool" where
  "udp_fits p r \<longleftrightarrow> (\<exists>cmd r0. command_for p cmd \<and> r = map_sum id Response_of r0 \<and> sound_answer cmd r0)"

lemma udp_step_fits:
  assumes "udp_good op p" "op_ok op" "op_step op ev = Returns (op', es)"
  shows "udp_good op' p \<and> (\<forall>r \<in> set (completions es). udp_fits p r)"
proof -
  obtain s where s: "op = Command_op s" "command_for p (cs_command s)" using assms(1) by (auto simp: udp_good_def)
  from command_step_fits [of s ev op' es] assms(2,3) s show ?thesis by (auto simp: udp_good_def udp_fits_def)
qed

lemma udp_encodable: "command_for p cmd \<Longrightarrow> encodable cmd"
  by (cases p) (auto simp: encodable_def encodeWriteVar_def Let_def positions_def
      uint8_traits_def int16_traits_def int32_traits_def float_traits_def Position_traits_def
      encode_uint8_def encode_int16_def encode_int32_def encode_float_def
      encode_PulsePosition_def PulsePosition_of_array_def joints_def joint_at_def of_read_def)

text \<open>The counters do not overflow in the next \<open>n\<close> events; the index of the position is never changed.\<close>

definition int32_lasts :: "nat \<Rightarrow> i32 \<Rightarrow> bool" where
  "int32_lasts n v \<longleftrightarrow> (\<exists>k. v = of_nat k - 5 \<and> k + n \<le> 2 ^ 31)"

definition udp_counters :: "nat \<Rightarrow> udp_test \<Rightarrow> bool" where
  "udp_counters n sys \<longleftrightarrow> 0 \<le> sint (command_count sys) \<and> sint (command_count sys) + int n < 2 ^ 31
     \<and> int32_lasts n (int32_value sys) \<and> position_index sys = 0"

lemma int32_lasts_Suc: "int32_lasts (Suc n) v \<Longrightarrow> int32_lasts n v"
  unfolding int32_lasts_def by (metis Suc_leD add_Suc_right)

lemma next_int32_lasts:
  assumes "int32_lasts (Suc n) (int32_value sys)"
  shows "\<exists>v. next_int32 sys = Returns (sys\<lparr>int32_value := v\<rparr>, []) \<and> int32_lasts n v"
proof -
  obtain k where k: "int32_value sys = of_nat k - 5" "k + Suc n \<le> 2 ^ 31"
    using assms by (auto simp: int32_lasts_def)
  then have "int32_lasts n (of_nat (Suc k) - 5)" unfolding int32_lasts_def by (intro exI [of _ "Suc k"]) simp
  with next_int32_returns [OF k(1)] k(2) show ?thesis by auto
qed

lemma udp_counters_lasts: "udp_counters (Suc n) sys \<Longrightarrow> udp_counters n sys"
  by (auto simp: udp_counters_def int32_lasts_Suc)

interpretation udp: hosting "client_output t" udp_good udp_fits udp_counters "\<lambda>sys. 0" "\<lambda>x. 0"
  "\<lambda>p. k * of_bool (P p)" "\<lambda>b. True" "\<lambda>e. \<exists>rid. e = request_id_taken rid" for t :: test_text and k P
  by unfold_locales (auto dest: udp_step_fits udp_counters_lasts int32_lasts_Suc simp: udp_counters_def)

section \<open>The loops\<close>

text \<open>A set of purposes is closed when every callback goes on in it, or outside it, as it began.\<close>

definition closed_loop :: "(udp_purpose \<Rightarrow> bool) \<Rightarrow> bool" where
  "closed_loop P \<longleftrightarrow> P Write_byte = P Read_byte \<and> P Write_int16 = P Read_int16 \<and> P Write_int32 = P Read_int32
     \<and> \<not> P Write_float32 \<and> \<not> P Write_position"

lemma udp_send_ok:
  assumes inv: "udp.inv k P n sys" and c: "command_for p cmd"
  shows "udp.ok k P n (k * of_bool (P p)) sys (udp_send t p cmd now sys)"
proof -
  let ?f = "cls_call now (Send_command cmd (now + test_timeout))"
  have "owned (cls_client (host_cls sys)) (cls_ops (host_cls sys))" using inv by (simp add: udp.inv_def)
  then have o: "opens (\<lambda>op. udp_good op p) (host_cls sys) (?f (host_cls sys))"
    by (rule opens_command [OF _ udp_encodable [OF c]]) (use c in \<open>auto simp: udp_good_def\<close>)
  show ?thesis
    unfolding udp_send_def
    by (rule udp.ok_open [where f = ?f, OF inv o]) (use o in \<open>auto simp: opens_def\<close>)
qed

lemma udp_sends:
  assumes "udp.inv k P n sys"
  shows "udp.ok k P n (k * of_bool (P Write_byte)) sys (writeByte t now sys)"
    "udp.ok k P n (k * of_bool (P Read_byte)) sys (readByte t now sys)"
    "udp.ok k P n (k * of_bool (P Write_int16)) sys (writeInt16 t now sys)"
    "udp.ok k P n (k * of_bool (P Read_int16)) sys (readInt16 t now sys)"
    "udp.ok k P n (k * of_bool (P Write_int32)) sys (writeInt32 t now sys)"
    "udp.ok k P n (k * of_bool (P Read_int32)) sys (readInt32 t now sys)"
    "udp.ok k P n (k * of_bool (P Write_float32)) sys (writeFloat32 t now sys)"
    "udp.ok k P n (k * of_bool (P Write_position)) sys (writePosition t now sys)"
  using udp_send_ok [OF assms] assms
  by (simp_all add: writeByte_def readByte_def writeInt16_def readInt16_def writeInt32_def readInt32_def
      writeFloat32_def writePosition_def udp.inv_def udp_counters_def positions_def)

text \<open>A part of a callback that leaves the client alone.\<close>

definition host_kept :: "nat \<Rightarrow> udp_test \<Rightarrow> udp_step \<Rightarrow> bool" where
  "host_kept n sys m \<longleftrightarrow> (\<exists>sys' out. m = Returns (sys', out) \<and> host_cls sys' = host_cls sys
     \<and> host_purposes sys' = host_purposes sys \<and> udp_counters n sys')"

lemma host_kept_ok:
  assumes "udp.inv k P (Suc n) sys" "host_kept n sys m"
  shows "udp.ok k P n 0 sys m"
  using assms by (auto simp: host_kept_def udp.ok_def udp.inv_def udp.credit_def total_def)

lemma count_kept:
  assumes "udp_counters (Suc n) sys"
  shows "\<exists>c. count_command sys = Returns (sys\<lparr>command_count := c\<rparr>, []) \<and> sint c = sint (command_count sys) + 1"
  by (rule count_command_returns) (use assms in \<open>auto simp: udp_counters_def\<close>)

lemma written_kept: "udp_counters (Suc n) sys \<Longrightarrow> host_kept n sys (written t name r sys)"
  using count_kept [of n sys]
  by (auto simp: host_kept_def written_def put_def udp_counters_def int32_lasts_Suc split: sum.split)

lemma received_kept:
  assumes c: "udp_counters (Suc n) sys"
    and check: "\<And>v sys1. int32_lasts (Suc n) (int32_value sys1) \<Longrightarrow> \<exists>sys' out. check v sys1 = Returns (sys', out)
      \<and> host_cls sys' = host_cls sys1 \<and> host_purposes sys' = host_purposes sys1
      \<and> command_count sys' = command_count sys1 \<and> int32_lasts n (int32_value sys')
      \<and> position_index sys' = position_index sys1"
  shows "host_kept n sys (received t name check r sys)"
proof (cases r)
  case (Inl e)
  with c udp_counters_lasts show ?thesis by (simp add: host_kept_def received_def put_def)
next
  case (Inr v)
  obtain c' where c': "count_command sys = Returns (sys\<lparr>command_count := c'\<rparr>, [])" "sint c' = sint (command_count sys) + 1"
    using count_kept [OF c] by blast
  have "int32_lasts (Suc n) (int32_value (sys\<lparr>command_count := c'\<rparr>))" using c by (simp add: udp_counters_def)
  from check [OF this, of v] obtain sys' out where
    s: "check v (sys\<lparr>command_count := c'\<rparr>) = Returns (sys', out)" "host_cls sys' = host_cls sys"
    "host_purposes sys' = host_purposes sys" "command_count sys' = c'" "int32_lasts n (int32_value sys')"
    "position_index sys' = position_index sys" by auto
  then have "udp_counters n sys'" using c c'(2) by (simp add: udp_counters_def)
  with s c'(1) show ?thesis by (simp add: host_kept_def received_def Inr)
qed

lemma typed_fits:
  assumes "udp_fits p r"
  shows "p \<in> {Write_byte, Write_int16, Write_int32, Write_float32, Write_position} \<Longrightarrow> \<exists>x. typed void_of r = Returns x"
    and "p = Read_byte \<Longrightarrow> \<exists>x. typed uint8_of r = Returns x"
    and "p = Read_int16 \<Longrightarrow> \<exists>x. typed int16_of r = Returns x"
    and "p = Read_int32 \<Longrightarrow> \<exists>x. typed int32_of r = Returns x"
    and "p \<noteq> Read_float32" "p \<noteq> Read_position"
proof -
  obtain cmd r0 where cmd: "command_for p cmd" and r: "r = map_sum id Response_of r0" "sound_answer cmd r0"
    using assms by (auto simp: udp_fits_def)
  have typed: "\<exists>x. typed sel r = Returns x" if "\<And>v. response_fits cmd v \<Longrightarrow> \<exists>x. sel v = Some x" for sel :: "response \<Rightarrow> 'a option"
  proof (cases r0)
    case (Inr v)
    with r that [of v] show ?thesis by (auto simp: typed_def sound_answer_def of_read_def)
  qed (use r in \<open>simp add: typed_def\<close>)
  show "p \<in> {Write_byte, Write_int16, Write_int32, Write_float32, Write_position} \<Longrightarrow> \<exists>x. typed void_of r = Returns x"
    using cmd by (intro typed) (auto split: response.split)
  show "p = Read_byte \<Longrightarrow> \<exists>x. typed uint8_of r = Returns x" "p = Read_int16 \<Longrightarrow> \<exists>x. typed int16_of r = Returns x"
    "p = Read_int32 \<Longrightarrow> \<exists>x. typed int32_of r = Returns x"
    using cmd by (intro typed, auto split: response.split)+
  show "p \<noteq> Read_float32" "p \<noteq> Read_position" using cmd by auto
qed

lemma udp_result_ok:
  assumes P: "closed_loop P" and inv: "udp.inv k P (Suc n) sys" and fits: "udp_fits p r"
  shows "udp.ok k P n (k * of_bool (P p)) sys (udp_result t now p r sys)"
proof -
  have c: "udp_counters (Suc n) sys" using inv by (simp add: udp.inv_def)
  have w: "udp.ok k P n 0 sys (written t name x sys)" for name and x :: "unit result"
    using host_kept_ok [OF inv written_kept [OF c]] .
  have goes_on: "udp.ok k P n d sys (and_then m g)"
    if "udp.ok k P n 0 sys m" "\<And>sys'. udp.inv k P n sys' \<Longrightarrow> udp.ok k P n d sys' (g sys')" for m g d
    using udp.ok_then [OF that] by simp
  note kept = host_kept_ok [OF inv received_kept [OF c]]
  have r8: "udp.ok k P n 0 sys (received t ''byte'' (\<lambda>v sys. Returns (sys\<lparr>byte_value := byte_value sys + 1\<rparr>, f v sys)) x sys)"
    and r16: "udp.ok k P n 0 sys (received t ''int16'' (\<lambda>v sys. Returns (sys\<lparr>int16_value := int16_value sys + 1\<rparr>, g v sys)) y sys)"
    for x :: "u8 result" and y :: "i16 result" and f g
    by (rule kept, simp add: int32_lasts_Suc)+
  have r32: "udp.ok k P n 0 sys (received t ''int32'' (\<lambda>v sys. and_then (Returns (sys, h v sys)) next_int32) z sys)"
    for z :: "i32 result" and h
  proof (rule kept)
    fix v :: i32 and sys1 :: udp_test
    assume "int32_lasts (Suc n) (int32_value sys1)"
    from next_int32_lasts [OF this] show "\<exists>sys' out. and_then (Returns (sys1, h v sys1)) next_int32 = Returns (sys', out)
      \<and> host_cls sys' = host_cls sys1 \<and> host_purposes sys' = host_purposes sys1
      \<and> command_count sys' = command_count sys1 \<and> int32_lasts n (int32_value sys')
      \<and> position_index sys' = position_index sys1" by auto
  qed
  note sends = udp_sends [where k = k and P = P and n = n]
  have "\<exists>x. typed void_of r = Returns x" if "p \<in> {Write_byte, Write_int16, Write_int32, Write_float32, Write_position}"
    using typed_fits(1) [OF fits that] .
  moreover have "udp.ok k P n (k * of_bool (P Read_byte)) sys (on_writeByte t now x sys)"
    "udp.ok k P n (k * of_bool (P Read_int16)) sys (on_writeInt16 t now x sys)"
    "udp.ok k P n (k * of_bool (P Read_int32)) sys (on_writeInt32 t now x sys)"
    "udp.ok k P n 0 sys (on_writeFloat32 t x sys)" "udp.ok k P n 0 sys (on_writePosition t x sys)" for x
    unfolding on_writeByte_def on_writeInt16_def on_writeInt32_def on_writeFloat32_def on_writePosition_def
    by (rule goes_on w sends | assumption)+
  moreover have "udp.ok k P n (k * of_bool (P Write_byte)) sys (on_readByte t now x sys)" for x
    unfolding on_readByte_def by (rule goes_on [OF r8 sends(1)])
  moreover have "udp.ok k P n (k * of_bool (P Write_int16)) sys (on_readInt16 t now y sys)" for y
    unfolding on_readInt16_def by (rule goes_on [OF r16 sends(3)])
  moreover have "udp.ok k P n (k * of_bool (P Write_int32)) sys (on_readInt32 t now z sys)" for z
    unfolding on_readInt32_def by (rule goes_on [OF r32 sends(5)])
  ultimately show ?thesis
    using typed_fits(2-) [OF fits] P by (cases p) (auto simp: closed_loop_def)
qed

text \<open>A step, and a run.\<close>

lemma udp_step_ok:
  assumes P: "closed_loop P" and inv: "udp.inv k P (Suc n) sys" and ev: "net_event ev"
  shows "udp.ok k P n 0 sys (test_step t (udp_result t now) now ev sys)"
proof (cases ev)
  case (Client_event e)
  have "\<And>call. e \<noteq> Call call" using ev Client_event by auto
  from udp.client_event_ok [OF inv this udp_result_ok [OF P]] show ?thesis by (simp add: test_step_def Client_event)
next
  case (Tick err)
  have "udp_counters n (sys\<lparr>command_count := 0\<rparr>)"
    using inv by (auto simp: udp.inv_def udp_counters_def int32_lasts_Suc)
  with inv ev Tick show ?thesis
    by (intro host_kept_ok [OF inv]) (simp add: host_kept_def test_step_def onTimeout_def)
qed

lemma udp_run_ok:
  assumes "closed_loop P" "udp.inv k P (length evs) sys" "\<forall>(now, ev) \<in> set evs. net_event ev"
  shows "udp.ok k P 0 0 sys (udp_test_run t sys evs)"
  using udp.run_ok [of k P "\<lambda>(now, ev). net_event ev" "\<lambda>e. 0" "\<lambda>sys (now, ev). test_step t (udp_result t now) now ev sys" 0 evs sys]
    udp_step_ok [OF assms(1)] assms(2,3) by auto

section \<open>The beginning\<close>

lemma new_udp_test_simps [simp]:
  "host_cls new_udp_test = cls_new True" "host_purposes new_udp_test = []"
  "command_count new_udp_test = 0" "int32_value new_udp_test = - 5" "position_index new_udp_test = 0"
  by (simp_all add: new_udp_test_def new_tester_def tester.defs)

lemma udp_connected_ok:
  assumes "closed_loop P" "\<not> is_error err" "n < 2 ^ 31"
  shows "udp.ok k P n (k * (of_bool (P Write_byte) + of_bool (P Write_int16) + of_bool (P Write_int32))) new_udp_test
    (udp_connected t now err)"
proof -
  have "int32_lasts n (- 5)" unfolding int32_lasts_def using assms(3) by (intro exI [of _ 0]) simp
  then have inv: "udp.inv k P n new_udp_test"
    using assms(3) cls_new_owned [of True] by (simp add: udp.inv_def udp_counters_def cls_new_def)
  note sends = udp_sends [where k = k and P = P and n = n]
  have idle: "udp.ok k P n 0 sys (put x sys)" if "udp.inv k P n sys" for sys x using udp.ok_put [OF that] .
  have first: "udp.ok k P n ((((k * of_bool (P Write_byte) + k * of_bool (P Write_int16)) + k * of_bool (P Write_int32))
        + k * of_bool (P Write_float32)) + k * of_bool (P Write_position)) sys (udp_first_commands t now sys)"
    if "udp.inv k P n sys" for sys
    unfolding udp_first_commands_def by (intro udp.ok_then [where n = n and k = n] sends that) assumption+
  have "udp.ok k P n (0 + ((((k * of_bool (P Write_byte) + k * of_bool (P Write_int16)) + k * of_bool (P Write_int32))
        + k * of_bool (P Write_float32)) + k * of_bool (P Write_position)) + 0) new_udp_test (udp_connected t now err)"
    unfolding udp_connected_def test_connected_def if_not_P [OF assms(2)]
    by (intro udp.ok_then [where n = n and k = n] first idle inv) assumption+
  then show ?thesis using assms(1) by (simp add: closed_loop_def algebra_simps)
qed

text \<open>Nothing is ever opened for the last two types once the program has begun.\<close>

definition side_purposes :: "udp_test \<Rightarrow> udp_purpose list" where
  "side_purposes sys = filter (\<lambda>p. p \<in> {Write_float32, Read_float32, Write_position, Read_position}) (host_purposes sys)"

definition side_kept :: "udp_test \<Rightarrow> udp_step \<Rightarrow> bool" where
  "side_kept sys m \<longleftrightarrow> (\<forall>sys' out. m = Returns (sys', out) \<longrightarrow> side_purposes sys' = side_purposes sys)"

lemma side_kept_then:
  "side_kept sys m \<Longrightarrow> (\<And>sys1. side_kept sys1 (g sys1)) \<Longrightarrow> side_kept sys (and_then m g)"
  by (fastforce simp: side_kept_def and_then_def)

lemma side_kept_put: "side_kept sys (put x sys)"
  by (simp add: side_kept_def put_def)

lemma side_kept_update: "host_purposes sys' = host_purposes sys \<Longrightarrow> side_kept sys (Returns (sys', out))"
  by (simp add: side_kept_def side_purposes_def)

lemma side_kept_counters: "side_kept sys (count_command sys)" "side_kept sys (next_int32 sys)"
  by (auto simp: side_kept_def side_purposes_def count_command_def next_int32_def)

lemma side_kept_send:
  "p \<in> {Write_byte, Read_byte, Write_int16, Read_int16, Write_int32, Read_int32} \<Longrightarrow> side_kept sys (udp_send t p cmd now sys)"
  by (auto simp: side_kept_def side_purposes_def udp_send_def host_open_def)

lemma side_kept_sends:
  "side_kept sys (writeByte t now sys)" "side_kept sys (readByte t now sys)" "side_kept sys (writeInt16 t now sys)"
  "side_kept sys (readInt16 t now sys)" "side_kept sys (writeInt32 t now sys)" "side_kept sys (readInt32 t now sys)"
  by (simp_all add: writeByte_def readByte_def writeInt16_def readInt16_def writeInt32_def readInt32_def side_kept_send)

lemma side_kept_written: "side_kept sys (written t name r sys)"
  by (cases r) (simp_all add: written_def side_kept_put side_kept_counters)

lemma side_kept_received:
  "(\<And>v sys1. side_kept sys1 (check v sys1)) \<Longrightarrow> side_kept sys (received t name check r sys)"
  by (cases r) (auto simp: received_def intro: side_kept_put side_kept_counters side_kept_then)

lemma side_kept_check_position: "side_kept sys (check_position t v sys)"
  by (auto simp: check_position_def side_kept_def put_def Let_def split: if_splits)

lemma side_kept_typed: "(\<And>x. side_kept sys (g x)) \<Longrightarrow> side_kept sys (obind (typed sel r) g)"
  by (auto simp: side_kept_def)

lemma side_kept_result: "side_kept sys (udp_result t now p r sys)"
  by (cases p; simp only: udp_result.simps on_writeByte_def on_readByte_def on_writeInt16_def on_readInt16_def
      on_writeInt32_def on_readInt32_def on_writeFloat32_def on_readFloat32_def on_writePosition_def on_readPosition_def)
    (intro side_kept_typed side_kept_then side_kept_written side_kept_received side_kept_sends side_kept_update
      side_kept_counters side_kept_check_position; simp)+

lemma side_kept_outputs: "side_kept sys (host_outputs (client_output t) (udp_result t now) out sys)"
proof (induction out arbitrary: sys rule: completed_ops.induct)
  case (2 n r out)
  then show ?case
    by (auto intro!: side_kept_then side_kept_put side_kept_result) (simp add: side_kept_def)
qed (auto intro: side_kept_then side_kept_put side_kept_update)

lemma side_kept_step: "side_kept sys (test_step t (udp_result t now) now ev sys)"
proof (cases ev)
  case (Client_event e)
  have "side_purposes (sys\<lparr>host_cls := c\<rparr>) = side_purposes sys" for c by (simp add: side_purposes_def)
  with side_kept_outputs show ?thesis
    by (fastforce simp: Client_event test_step_def host_client_def side_kept_def)
qed (simp add: test_step_def onTimeout_def side_kept_def side_purposes_def)

lemma side_kept_run: "side_kept sys (udp_test_run t sys evs)"
proof (induction evs arbitrary: sys)
  case (Cons e evs)
  then show ?case
    unfolding run_machine_Cons by (auto intro!: side_kept_then side_kept_step split: prod.split)
qed (simp add: side_kept_update)

lemma udp_connected_returns:
  assumes "\<not> is_error err"
  shows "\<exists>sys out. udp_connected t now err = Returns (sys, out) \<and> side_purposes sys = [Write_float32, Write_position]"
  using assms
  by (simp add: udp_connected_def test_connected_def put_def udp_first_commands_def writeByte_def writeInt16_def
      writeInt32_def writeFloat32_def writePosition_def udp_send_def host_open_def cls_add_def cls_new_def
      sendCommand_def DeadlineSession_start_def CommandSession_new_def CommandSession_start_def allocateId_def
      new_Client_def registerHandler_def encodeWriteVar_def uint8_traits_def int16_traits_def int32_traits_def float_traits_def
      Position_traits_def encode_uint8_def encode_int16_def encode_int32_def encode_float_def positions_def
      encode_PulsePosition_def PulsePosition_of_array_def joints_def joint_at_def of_read_def Let_def side_purposes_def)

section \<open>Property\<close>

text \<open>
  C17: The program that tests single commands runs its loops over the byte and the two
  integers for ever: once it is connected, whatever datagrams arrive, whichever sends fail and
  timers expire, for 2147483647 events exactly one operation of each of these loops is open,
  unless a request id comes round while the request that has it is still open, which ends the
  program. The \<open>float\<close> and the position are written once each and never again,
  and never read.
\<close>

theorem udp_test_loops:
  assumes "\<not> is_error err" "\<forall>(now, ev) \<in> set evs. net_event ev" "length evs < 2 ^ 31"
  shows "\<exists>sys0 out0. udp_connected t now err = Returns (sys0, out0)
    \<and> (case udp_test_run t sys0 evs of
        Returns (sys, out) \<Rightarrow>
          (\<forall>loop \<in> {{Write_byte, Read_byte}, {Write_int16, Read_int16}, {Write_int32, Read_int32}}.
            open_count (\<lambda>p. p \<in> loop) sys = 1)
          \<and> filter (\<lambda>p. p \<in> {Write_float32, Read_float32, Write_position, Read_position}) (host_purposes sys)
            = [Write_float32, Write_position]
      | Throws e \<Rightarrow> \<exists>rid. e = request_id_taken rid
      | _ \<Rightarrow> False)"
proof -
  obtain sys0 out0 where c: "udp_connected t now err = Returns (sys0, out0)" and s: "side_purposes sys0 = [Write_float32, Write_position]"
    using udp_connected_returns [OF assms(1)] by blast
  have ok: "udp.ok k P 0 (k * 1 + 0) new_udp_test (and_then (udp_connected t now err) (\<lambda>sys. udp_test_run t sys evs))"
    if "closed_loop P" "of_bool (P Write_byte) + of_bool (P Write_int16) + of_bool (P Write_int32) = (1 :: int)" for k P
    by (rule udp.ok_then [OF udp_connected_ok [OF that(1) assms(1,3), of k t now, unfolded that(2)] udp_run_ok [OF that(1) _ assms(2)]])
  have loops: "closed_loop (\<lambda>p. p \<in> loop)"
      "of_bool (Write_byte \<in> loop) + of_bool (Write_int16 \<in> loop) + of_bool (Write_int32 \<in> loop) = (1 :: int)"
    if "loop \<in> {{Write_byte, Read_byte}, {Write_int16, Read_int16}, {Write_int32, Read_int32}}" for loop
    using that by (auto simp: closed_loop_def)
  have "udp.ok 1 (\<lambda>p. p \<in> {Write_byte, Read_byte}) 0 (1 * 1 + 0) new_udp_test
      (and_then (udp_connected t now err) (\<lambda>sys. udp_test_run t sys evs))"
    by (rule ok [OF loops]) simp_all
  then have ends: "(\<exists>x. and_then (udp_connected t now err) (\<lambda>sys. udp_test_run t sys evs) = Returns x)
      \<or> (\<exists>rid. and_then (udp_connected t now err) (\<lambda>sys. udp_test_run t sys evs) = Throws (request_id_taken rid))"
    unfolding udp.ok_def by blast
  show ?thesis
  proof (cases "udp_test_run t sys0 evs")
    case (Returns x)
    obtain sys out where x: "x = (sys, out)" by (cases x)
    have "\<forall>loop \<in> {{Write_byte, Read_byte}, {Write_int16, Read_int16}, {Write_int32, Read_int32}}.
        open_count (\<lambda>p. p \<in> loop) sys = 1"
    proof
      fix loop assume l: "loop \<in> {{Write_byte, Read_byte}, {Write_int16, Read_int16}, {Write_int32, Read_int32}}"
      have "k * int (open_count (\<lambda>p. p \<in> loop) sys) \<le> k" for k
        using ok [OF loops [OF l], of k] c Returns x
        by (simp add: udp.ok_def udp.credit_def open_load_count open_load_def [of _ "[]"] cls_new_def total_def)
      from this [of 1] this [of "- 1"] show "open_count (\<lambda>p. p \<in> loop) sys = 1" by simp
    qed
    moreover have "side_purposes sys = [Write_float32, Write_position]"
      using side_kept_run [of sys0 t evs] Returns x s by (simp add: side_kept_def)
    ultimately show ?thesis
      by (intro exI [of _ sys0] exI [of _ out0]) (simp only: c Returns x side_purposes_def outcome.case prod.case simp_thms)
  qed (use ends c in simp_all)
qed

text \<open>The answers to the first write of the byte, to its first read and to the write of the \<open>float\<close>.\<close>

definition example_byte_answers :: "(int \<times> test_event) list" where
  "example_byte_answers = [example_answer 1 [], example_answer 6 [0], example_answer 4 []]"

lemma udp_test_loops_witness:
  "\<exists>sys0 out0 sys out. udp_connected example_tester_text 0 no_error = Returns (sys0, out0)
    \<and> udp_test_run example_tester_text sys0 example_byte_answers = Returns (sys, out)
    \<and> open_count (\<lambda>p. p \<in> {Write_byte, Read_byte}) sys = 1
    \<and> filter (\<lambda>p. p \<in> {Write_float32, Read_float32, Write_position, Read_position}) (host_purposes sys)
      = [Write_float32, Write_position]
    \<and> byte_value sys = 1"
proof -
  have "case udp_connected example_tester_text 0 no_error of
      Returns (sys0, out0) \<Rightarrow> (case udp_test_run example_tester_text sys0 example_byte_answers of
        Returns (sys, out) \<Rightarrow> byte_value sys = 1
      | _ \<Rightarrow> False)
    | _ \<Rightarrow> False" by code_simp
  then obtain sys0 out0 sys out where r: "udp_connected example_tester_text 0 no_error = Returns (sys0, out0)"
    "udp_test_run example_tester_text sys0 example_byte_answers = Returns (sys, out)" "byte_value sys = 1"
    by (auto split: outcome.splits)
  have "\<forall>(now, ev) \<in> set example_byte_answers. net_event ev" "length example_byte_answers < 2 ^ 31"
    by (simp_all add: example_byte_answers_def example_answer_def)
  from udp_test_loops [OF _ this, of no_error example_tester_text 0] r
  have "(\<forall>loop \<in> {{Write_byte, Read_byte}, {Write_int16, Read_int16}, {Write_int32, Read_int32}}.
            open_count (\<lambda>p. p \<in> loop) sys = 1)
          \<and> filter (\<lambda>p. p \<in> {Write_float32, Read_float32, Write_position, Read_position}) (host_purposes sys)
            = [Write_float32, Write_position]" by simp
  with r show ?thesis by (intro exI [of _ sys0] exI [of _ out0] exI [of _ sys] exI [of _ out] conjI) (assumption | blast)+
qed

end
